theory Spec2Isabelle
  imports Complex_Main "HOL-Library.Word"
begin

section \<open>Segments: ReliableSocket.h\<close>

text \<open>
  The message type is \<^verbatim>\<open>enum RDTMessageType : uint8_t\<close>: one byte, whose five
  enumerators are numbered from 0.  A received byte may hold any value, so the type is
  kept as a byte and the enumerators are constants.
\<close>

type_synonym byte = "8 word"
type_synonym RDTMessageType = byte

definition RDT_SYN :: RDTMessageType where "RDT_SYN = 0"
definition RDT_SYNACK :: RDTMessageType where "RDT_SYNACK = 1"
definition RDT_ACK :: RDTMessageType where "RDT_ACK = 2"
definition RDT_DATA :: RDTMessageType where "RDT_DATA = 3"
definition RDT_CLOSE :: RDTMessageType where "RDT_CLOSE = 4"

lemmas RDT_defs = RDT_SYN_def RDT_SYNACK_def RDT_ACK_def RDT_DATA_def RDT_CLOSE_def

text \<open>
  \<^verbatim>\<open>struct RDTHeader\<close>.  The two numbers are held in memory in network byte order
  (every writer applies \<^verbatim>\<open>htonl\<close>, every reader \<^verbatim>\<open>ntohl\<close>); the fields below are
  the \<^verbatim>\<open>uint32_t\<close> values as the host reads them.
\<close>

record RDTHeader =
  h_sequence_number :: "32 word"
  h_ack_number :: "32 word"
  h_type :: RDTMessageType

datatype connection_status = INIT | ESTABLISHED | FIN | CLOSED

subsection \<open>\<^verbatim>\<open>sizeof(RDTHeader)\<close>\<close>

text \<open>
  The struct is declared without any packing attribute, so its size is what the C++
  implementation's layout rule gives: every member is placed at the next offset that is
  a multiple of its alignment, and the size of the struct is rounded up to a multiple
  of the largest member alignment.  A member is described by its size and its
  alignment; \<^verbatim>\<open>uint32_t\<close> is 4 bytes aligned to 4 and the \<^verbatim>\<open>uint8_t\<close>-based enum is
  1 byte aligned to 1, as on every ABI with BSD sockets in common use.
\<close>

definition align_up :: "nat \<Rightarrow> nat \<Rightarrow> nat" where
  "align_up a n = ((n + a - 1) div a) * a"

fun layout_end :: "nat \<Rightarrow> (nat \<times> nat) list \<Rightarrow> nat" where
  "layout_end off [] = off"
| "layout_end off ((sz, al) # ms) = layout_end (align_up al off + sz) ms"

fun member_offsets :: "nat \<Rightarrow> (nat \<times> nat) list \<Rightarrow> nat list" where
  "member_offsets off [] = []"
| "member_offsets off ((sz, al) # ms) =
     align_up al off # member_offsets (align_up al off + sz) ms"

definition struct_sizeof :: "(nat \<times> nat) list \<Rightarrow> nat" where
  "struct_sizeof ms = align_up (fold max (map snd ms) 1) (layout_end 0 ms)"

definition RDTHeader_members :: "(nat \<times> nat) list" where
  "RDTHeader_members = [(4, 4), (4, 4), (1, 1)]"

definition sizeof_RDTHeader :: nat where
  "sizeof_RDTHeader = struct_sizeof RDTHeader_members"

definition MAX_SEG_SIZE :: nat where "MAX_SEG_SIZE = 1400"
definition MAX_DATA_SIZE :: nat where "MAX_DATA_SIZE = MAX_SEG_SIZE - sizeof_RDTHeader"
definition TIME_WAIT :: "32 word" where "TIME_WAIT = 4000"

subsection \<open>Bytes of a header\<close>

text \<open>
  The code never serialises a header field by field: it casts a \<^verbatim>\<open>char\<close> buffer to
  \<^verbatim>\<open>RDTHeader*\<close> and sends \<^verbatim>\<open>sizeof(RDTHeader)\<close> bytes of it.  What travels is the
  memory image of the struct: the two words, the type byte, and the padding up to the
  size of the struct (zero, since every send buffer is zero-initialised).  The host is
  little-endian, so \<^verbatim>\<open>htonl\<close> reverses the four bytes of a word.
\<close>

definition le32 :: "32 word \<Rightarrow> byte list" where
  "le32 w = [ucast w, ucast (drop_bit 8 w), ucast (drop_bit 16 w), ucast (drop_bit 24 w)]"

fun word_le :: "byte list \<Rightarrow> 32 word" where
  "word_le [] = 0"
| "word_le (b # bs) = ucast b + 256 * word_le bs"

definition htonl :: "32 word \<Rightarrow> 32 word" where
  "htonl x = word_le (rev (le32 x))"

definition ntohl :: "32 word \<Rightarrow> 32 word" where
  "ntohl x = word_le (rev (le32 x))"

definition hdr_bytes :: "RDTHeader \<Rightarrow> byte list" where
  "hdr_bytes h =
     le32 (h_sequence_number h) @ le32 (h_ack_number h) @ [h_type h]
     @ replicate (sizeof_RDTHeader - 9) 0"

text \<open>
  A receive buffer is \<^verbatim>\<open>char recv_seg[MAX_SEG_SIZE]\<close>, cleared by \<^verbatim>\<open>memset\<close> before
  every \<^verbatim>\<open>recv\<close>, which then writes at most \<^verbatim>\<open>MAX_SEG_SIZE\<close> bytes of the datagram.
\<close>

definition recv_buffer :: "byte list \<Rightarrow> byte list" where
  "recv_buffer d = take MAX_SEG_SIZE d @ replicate (MAX_SEG_SIZE - length d) 0"

definition hdr_of :: "byte list \<Rightarrow> RDTHeader" where
  "hdr_of buf =
     \<lparr>h_sequence_number = word_le (take 4 buf),
      h_ack_number = word_le (take 4 (drop 4 buf)),
      h_type = buf ! 8\<rparr>"

section \<open>The socket and its environment\<close>

text \<open>
  A call ends by returning, by \<^verbatim>\<open>exit(EXIT_FAILURE)\<close>, by undefined behaviour
  (\<^verbatim>\<open>memcpy\<close> outside a buffer), or it is still blocked in \<^verbatim>\<open>recv\<close> when the
  recorded input ends.
\<close>

datatype stop = EXIT_FAILURE | Starved | Undefined

type_synonym 'a result = "stop + 'a"

text \<open>
  What \<^verbatim>\<open>recv\<close> returns: a datagram, or \<^verbatim>\<open>-1\<close> with a value of \<^verbatim>\<open>errno\<close>
  (\<^verbatim>\<open>EAGAIN\<close> when the receive timeout expired).
\<close>

datatype recv_result = Datagram "byte list" | Recv_errno int

definition EAGAIN :: int where "EAGAIN = 11"

datatype syscall = SYS_socket | SYS_bind | SYS_connect | SYS_close

text \<open>What the process does that can be observed from outside.\<close>

datatype event =
    Send "byte list" bool
  | Set_timeout "32 word"
  | Perror string
  | Close_fd

text \<open>
  The first six fields are the private members of \<^verbatim>\<open>class ReliableSocket\<close>
  (\<^verbatim>\<open>int\<close> members as integers: the model is the code where no signed overflow
  occurs).  The member \<^verbatim>\<open>sock_fd\<close> stands for the kernel's socket and the process
  environment, which are the remaining fields:
  \<^item> \<open>rcv_timeout\<close>: the \<^verbatim>\<open>SO_RCVTIMEO\<close> option in milliseconds;
  \<^item> \<open>errno\<close>: written by a failing \<^verbatim>\<open>send\<close> or \<^verbatim>\<open>recv\<close> only;
  \<^item> \<open>inbox\<close>: the results of the \<^verbatim>\<open>recv\<close> calls to come, in order;
  \<^item> \<open>send_outcome n\<close>: 0 when the \<open>n\<close>-th \<^verbatim>\<open>send\<close> succeeds, else its \<^verbatim>\<open>errno\<close>;
  \<^item> \<open>clock n\<close>: the \<open>n\<close>-th reading of \<^verbatim>\<open>current_msec()\<close>;
  \<^item> \<open>rejects_timeout t\<close>: \<^verbatim>\<open>setsockopt\<close> fails for the timeout \<open>t\<close>;
  \<^item> \<open>syscall_fails\<close>: whether \<^verbatim>\<open>socket\<close>, \<^verbatim>\<open>bind\<close>, \<^verbatim>\<open>connect\<close>, \<^verbatim>\<open>close\<close> fail;
  \<^item> \<open>trace\<close>: the events so far, oldest first.
  The \<^verbatim>\<open>cerr\<close> diagnostics are not recorded.
\<close>

record ReliableSocket =
  sequence_number :: "32 word"
  expected_sequence_number :: "32 word"
  estimated_rtt :: int
  current_rtt :: int
  dev_rtt :: int
  state :: connection_status
  rcv_timeout :: "32 word"
  errno :: int
  inbox :: "recv_result list"
  send_outcome :: "nat \<Rightarrow> int"
  n_send :: nat
  clock :: "nat \<Rightarrow> int"
  n_clock :: nat
  rejects_timeout :: "32 word \<Rightarrow> bool"
  syscall_fails :: "syscall \<Rightarrow> bool"
  trace :: "event list"

subsection \<open>System calls\<close>

definition perror :: "string \<Rightarrow> ReliableSocket \<Rightarrow> ReliableSocket" where
  "perror msg s = s\<lparr>trace := trace s @ [Perror msg]\<rparr>"

text \<open>\<^verbatim>\<open>send(sock_fd, seg, n, 0) < 0\<close>: the flag is true when the call failed.\<close>

definition os_send :: "byte list \<Rightarrow> ReliableSocket \<Rightarrow> bool \<times> ReliableSocket" where
  "os_send seg s =
     (send_outcome s (n_send s) \<noteq> 0,
      s\<lparr>n_send := Suc (n_send s),
        errno := (if send_outcome s (n_send s) = 0 then errno s else send_outcome s (n_send s)),
        trace := trace s @ [Send seg (send_outcome s (n_send s) = 0)]\<rparr>)"

text \<open>
  \<^verbatim>\<open>memset(recv_seg, 0, MAX_SEG_SIZE); recv(sock_fd, recv_seg, MAX_SEG_SIZE, 0)\<close>:
  the count returned and the buffer afterwards; \<open>None\<close> when the recorded input is
  used up.
\<close>

definition os_recv :: "ReliableSocket \<Rightarrow> (int \<times> byte list \<times> ReliableSocket) option" where
  "os_recv s =
     (case inbox s of
        [] \<Rightarrow> None
      | Datagram d # rest \<Rightarrow>
          Some (int (length (take MAX_SEG_SIZE d)), recv_buffer d, s\<lparr>inbox := rest\<rparr>)
      | Recv_errno e # rest \<Rightarrow>
          Some (- 1, recv_buffer [], s\<lparr>inbox := rest, errno := e\<rparr>))"

text \<open>The pattern \<^verbatim>\<open>if (send(...) < 0) { perror(msg); }\<close>, used at every transmission.\<close>

definition send_checked :: "string \<Rightarrow> byte list \<Rightarrow> ReliableSocket \<Rightarrow> ReliableSocket" where
  "send_checked msg seg s =
     (let (failed, s1) = os_send seg s in if failed then perror msg s1 else s1)"

definition current_msec :: "ReliableSocket \<Rightarrow> int \<times> ReliableSocket" where
  "current_msec s = (clock s (n_clock s), s\<lparr>n_clock := Suc (n_clock s)\<rparr>)"

definition set_timeout_length :: "32 word \<Rightarrow> ReliableSocket \<Rightarrow> unit result \<times> ReliableSocket" where
  "set_timeout_length timeout_length_ms s =
     (if rejects_timeout s timeout_length_ms
      then (Inl EXIT_FAILURE, perror ''setsockopt'' s)
      else (Inr (), s\<lparr>rcv_timeout := timeout_length_ms,
                       trace := trace s @ [Set_timeout timeout_length_ms]\<rparr>))"

section \<open>ReliableSocket.cpp\<close>

subsection \<open>The constructor\<close>

definition ReliableSocket_ctor :: "ReliableSocket \<Rightarrow> unit result \<times> ReliableSocket" where
  "ReliableSocket_ctor s =
     (let s1 = s\<lparr>sequence_number := 0, expected_sequence_number := 0,
                 estimated_rtt := 100, dev_rtt := 10, current_rtt := 0\<rparr>
      in if syscall_fails s1 SYS_socket
         then (Inl EXIT_FAILURE, perror ''socket'' s1)
         else (Inr (), s1\<lparr>state := INIT\<rparr>))"

subsection \<open>The round-trip-time estimator\<close>

text \<open>
  The members are \<^verbatim>\<open>int\<close> and the factors are \<^verbatim>\<open>double\<close>: each compound assignment
  computes in \<^verbatim>\<open>double\<close> and converts the result back to \<^verbatim>\<open>int\<close>, which discards the
  fraction.  The factors are multiples of 1/8, so the \<^verbatim>\<open>double\<close> arithmetic is exact
  and is written over the reals.
\<close>

definition c_trunc :: "real \<Rightarrow> int" where
  "c_trunc x = (if 0 \<le> x then \<lfloor>x\<rfloor> else \<lceil>x\<rceil>)"

definition set_estimated_rtt :: "ReliableSocket \<Rightarrow> unit result \<times> ReliableSocket" where
  "set_estimated_rtt s =
     (let s1 = s\<lparr>estimated_rtt := c_trunc (of_int (estimated_rtt s) * (1 - 0.125))\<rparr>;
          s2 = s1\<lparr>estimated_rtt :=
                 c_trunc (of_int (estimated_rtt s1) + of_int (current_rtt s1) * 0.125)\<rparr>;
          s3 = s2\<lparr>dev_rtt := c_trunc (of_int (dev_rtt s2) * (1 - 0.25))\<rparr>;
          abs_dev = current_rtt s3 - estimated_rtt s3;
          abs_dev = (if abs_dev < 0 then abs_dev * (- 1) else abs_dev);
          s4 = s3\<lparr>dev_rtt := c_trunc (of_int (dev_rtt s3) + of_int abs_dev * 0.25)\<rparr>
      in set_timeout_length (word_of_int (estimated_rtt s4 + 4 * dev_rtt s4)) s4)"

subsection \<open>\<^verbatim>\<open>reliable_send\<close> and \<^verbatim>\<open>timeout_send\<close>\<close>

text \<open>
  The \<^verbatim>\<open>do ... while (true)\<close> of \<^verbatim>\<open>reliable_send\<close>, with its two locals
  \<^verbatim>\<open>previous_timeout\<close> and \<^verbatim>\<open>doubled_timeout\<close>.  It returns the receive buffer.
\<close>

function reliable_send_loop ::
  "byte list \<Rightarrow> bool \<Rightarrow> 32 word \<Rightarrow> ReliableSocket \<Rightarrow> byte list result \<times> ReliableSocket" where
  "reliable_send_loop send_seg previous_timeout doubled_timeout s =
     (let (time_sent, s1) = current_msec s;
          s3 = send_checked ''reliable_send send'' send_seg s1
      in case os_recv s3 of
           None \<Rightarrow> (Inl Starved, s3)
         | Some (bytes_received, recv_seg, s4) \<Rightarrow>
             if bytes_received < 0 then
               if errno s4 = EAGAIN then
                 let doubled =
                       (if previous_timeout then doubled_timeout * 2
                        else word_of_int (2 * (estimated_rtt s4 + 4 * dev_rtt s4)))
                 in case set_timeout_length doubled s4 of
                      (Inl e, s5) \<Rightarrow> (Inl e, s5)
                    | (Inr _, s5) \<Rightarrow> reliable_send_loop send_seg True doubled s5
               else (Inl EXIT_FAILURE, perror ''ACK not received'' s4)
             else
               let (now, s5) = current_msec s4
               in (Inr recv_seg, s5\<lparr>current_rtt := now - time_sent\<rparr>))"
  by pat_completeness auto
termination
  by (relation "measure (\<lambda>(send_seg, previous_timeout, doubled_timeout, s). length (inbox s))")
     (auto simp: current_msec_def send_checked_def os_send_def perror_def os_recv_def
            set_timeout_length_def split: list.splits recv_result.splits if_splits prod.splits)

declare reliable_send_loop.simps [simp del]

definition reliable_send ::
  "byte list \<Rightarrow> ReliableSocket \<Rightarrow> byte list result \<times> ReliableSocket" where
  "reliable_send send_seg s =
     (case set_timeout_length (word_of_int (estimated_rtt s + 4 * dev_rtt s)) s of
        (Inl e, s1) \<Rightarrow> (Inl e, s1)
      | (Inr _, s1) \<Rightarrow>
          (case reliable_send_loop send_seg False 0 s1 of
             (Inl e, s2) \<Rightarrow> (Inl e, s2)
           | (Inr recv_seg, s2) \<Rightarrow>
               (case set_estimated_rtt s2 of
                  (Inl e, s3) \<Rightarrow> (Inl e, s3)
                | (Inr _, s3) \<Rightarrow> (Inr recv_seg, s3))))"

function timeout_send :: "byte list \<Rightarrow> ReliableSocket \<Rightarrow> unit result \<times> ReliableSocket" where
  "timeout_send send_seg s =
     (let s2 = send_checked ''timeout_send send'' (take sizeof_RDTHeader send_seg) s
      in case set_timeout_length (word_of_int (estimated_rtt s2 + dev_rtt s2 * 4)) s2 of
           (Inl e, s3) \<Rightarrow> (Inl e, s3)
         | (Inr _, s3) \<Rightarrow>
             (case os_recv s3 of
                None \<Rightarrow> (Inl Starved, s3)
              | Some (n, recv_seg, s4) \<Rightarrow>
                  if n < 0 then
                    if errno s4 = EAGAIN then (Inr (), s4)
                    else (Inl EXIT_FAILURE, perror ''timeout_send recv'' s4)
                  else timeout_send send_seg s4))"
  by pat_completeness auto
termination
  by (relation "measure (\<lambda>(send_seg, s). length (inbox s))")
     (auto simp: send_checked_def os_send_def perror_def os_recv_def set_timeout_length_def
            split: list.splits recv_result.splits if_splits prod.splits)

declare timeout_send.simps [simp del]

text \<open>
  Which fields a transmission touches, and one iteration of the loop of
  \<^verbatim>\<open>reliable_send\<close> for each kind of result of \<^verbatim>\<open>recv\<close>.
\<close>

lemma send_checked_simps [simp]:
  "inbox (send_checked msg seg s) = inbox s"
  "sequence_number (send_checked msg seg s) = sequence_number s"
  "expected_sequence_number (send_checked msg seg s) = expected_sequence_number s"
  "estimated_rtt (send_checked msg seg s) = estimated_rtt s"
  "current_rtt (send_checked msg seg s) = current_rtt s"
  "dev_rtt (send_checked msg seg s) = dev_rtt s"
  "state (send_checked msg seg s) = state s"
  "rcv_timeout (send_checked msg seg s) = rcv_timeout s"
  "send_outcome (send_checked msg seg s) = send_outcome s"
  "n_send (send_checked msg seg s) = Suc (n_send s)"
  "clock (send_checked msg seg s) = clock s"
  "n_clock (send_checked msg seg s) = n_clock s"
  "rejects_timeout (send_checked msg seg s) = rejects_timeout s"
  "syscall_fails (send_checked msg seg s) = syscall_fails s"
  by (simp_all add: send_checked_def os_send_def perror_def)

lemma trace_send_checked:
  "trace (send_checked msg seg s) =
     trace s @ (if send_outcome s (n_send s) = 0 then [Send seg True]
                else [Send seg False, Perror msg])"
  by (simp add: send_checked_def os_send_def perror_def)

lemma rs_loop_Starved:
  "inbox s = [] \<Longrightarrow>
   reliable_send_loop seg p d s =
     (Inl Starved, send_checked ''reliable_send send'' seg (snd (current_msec s)))"
  by (subst reliable_send_loop.simps) (simp add: current_msec_def os_recv_def)

lemma rs_loop_Datagram:
  "inbox s = Datagram dg # rest \<Longrightarrow>
   reliable_send_loop seg p d s =
     (Inr (recv_buffer dg),
      (send_checked ''reliable_send send'' seg (snd (current_msec s)))
        \<lparr>inbox := rest, n_clock := Suc (Suc (n_clock s)),
         current_rtt := clock s (Suc (n_clock s)) - clock s (n_clock s)\<rparr>)"
  by (subst reliable_send_loop.simps) (simp add: current_msec_def os_recv_def)

lemma rs_loop_error:
  "inbox s = Recv_errno e # rest \<Longrightarrow> e \<noteq> EAGAIN \<Longrightarrow>
   reliable_send_loop seg p d s =
     (Inl EXIT_FAILURE,
      perror ''ACK not received''
        ((send_checked ''reliable_send send'' seg (snd (current_msec s)))
           \<lparr>inbox := rest, errno := e\<rparr>))"
  by (subst reliable_send_loop.simps) (simp add: current_msec_def os_recv_def)

lemma rs_loop_timeout:
  "inbox s = Recv_errno EAGAIN # rest \<Longrightarrow>
   reliable_send_loop seg p d s =
     (let s4 = (send_checked ''reliable_send send'' seg (snd (current_msec s)))
                 \<lparr>inbox := rest, errno := EAGAIN\<rparr>;
          doubled = (if p then d * 2 else word_of_int (2 * (estimated_rtt s + 4 * dev_rtt s)))
      in case set_timeout_length doubled s4 of
           (Inl e, s5) \<Rightarrow> (Inl e, s5)
         | (Inr _, s5) \<Rightarrow> reliable_send_loop seg True doubled s5)"
  by (subst reliable_send_loop.simps) (simp add: current_msec_def os_recv_def)

lemma reliable_send_loop_inbox:
  "reliable_send_loop seg p d s = (Inr buf, s') \<Longrightarrow> length (inbox s') < length (inbox s)"
proof (induction "inbox s" arbitrary: s p d)
  case Nil
  then have "inbox s = []" by simp
  with Nil.prems show ?case by (simp add: rs_loop_Starved)
next
  case (Cons r rest)
  from Cons.hyps(2) have ib: "inbox s = r # rest" by simp
  show ?case
  proof (cases r)
    case (Datagram dg)
    with ib Cons.prems show ?thesis by (auto simp: rs_loop_Datagram)
  next
    case (Recv_errno e)
    show ?thesis
    proof (cases "e = EAGAIN")
      case False
      with ib Recv_errno Cons.prems show ?thesis by (simp add: rs_loop_error)
    next
      case True
      let ?dd = "if p then d * 2 else word_of_int (2 * (estimated_rtt s + 4 * dev_rtt s))"
      let ?s4 = "(send_checked ''reliable_send send'' seg (snd (current_msec s)))
                 \<lparr>inbox := rest, errno := EAGAIN\<rparr>"
      from ib Recv_errno True Cons.prems
      have run: "(case set_timeout_length ?dd ?s4 of
           (Inl e, s5) \<Rightarrow> (Inl e, s5)
         | (Inr _, s5) \<Rightarrow> reliable_send_loop seg True ?dd s5) = (Inr buf, s')"
        by (simp add: rs_loop_timeout Let_def)
      obtain r5 s5 where st: "set_timeout_length ?dd ?s4 = (r5, s5)" by force
      with run obtain u where r5: "r5 = Inr u" by (cases r5) auto
      from st r5 have ib5: "inbox s5 = rest"
        by (auto simp: set_timeout_length_def split: if_splits)
      from run st r5 have "reliable_send_loop seg True ?dd s5 = (Inr buf, s')" by simp
      from Cons.hyps(1)[OF ib5[symmetric] this] ib ib5 show ?thesis by simp
    qed
  qed
qed

lemma set_estimated_rtt_inbox:
  "set_estimated_rtt s = (r, s') \<Longrightarrow> inbox s' = inbox s"
  by (auto simp: set_estimated_rtt_def set_timeout_length_def perror_def Let_def split: if_splits)

lemma reliable_send_inbox:
  "reliable_send seg s = (Inr buf, s') \<Longrightarrow> length (inbox s') < length (inbox s)"
  by (auto simp: reliable_send_def set_timeout_length_def split: if_splits prod.splits sum.splits
           dest!: reliable_send_loop_inbox set_estimated_rtt_inbox)


lemma set_timeout_length_inbox:
  "set_timeout_length t s = (r, s') \<Longrightarrow> inbox s' = inbox s"
  by (auto simp: set_timeout_length_def perror_def split: if_splits)

subsection \<open>\<^verbatim>\<open>send_data\<close>\<close>

function send_data_loop :: "byte list \<Rightarrow> ReliableSocket \<Rightarrow> unit result \<times> ReliableSocket" where
  "send_data_loop send_seg s =
     (case reliable_send send_seg s of
        (Inl e, s1) \<Rightarrow> (Inl e, s1)
      | (Inr recv_seg, s1) \<Rightarrow>
          if h_type (hdr_of recv_seg) = RDT_ACK then
            if sequence_number s1 = ntohl (h_ack_number (hdr_of recv_seg)) then (Inr (), s1)
            else send_data_loop send_seg s1
          else send_data_loop send_seg s1)"
  by pat_completeness auto
termination
  by (relation "measure (\<lambda>(send_seg, s). length (inbox s))") (auto dest: reliable_send_inbox [OF sym])

declare send_data_loop.simps [simp del]

text \<open>
  \<^verbatim>\<open>send_data(data, length)\<close>: \<open>data\<close> is the \<^verbatim>\<open>length\<close> bytes the caller passes.
  The segment is built in \<^verbatim>\<open>char send_seg[MAX_SEG_SIZE]\<close>, the payload copied right
  after the header; a payload that does not fit overruns the buffer.
\<close>

definition send_data :: "byte list \<Rightarrow> ReliableSocket \<Rightarrow> unit result \<times> ReliableSocket" where
  "send_data data s =
     (if state s \<noteq> ESTABLISHED then (Inr (), s)
      else if MAX_DATA_SIZE < length data then (Inl Undefined, s)
      else
        let hdr = \<lparr>h_sequence_number = htonl (sequence_number s),
                   h_ack_number = htonl 0, h_type = RDT_DATA\<rparr>
        in case send_data_loop (hdr_bytes hdr @ data) s of
             (Inl e, s1) \<Rightarrow> (Inl e, s1)
           | (Inr _, s1) \<Rightarrow> (Inr (), s1\<lparr>sequence_number := sequence_number s1 + 1\<rparr>))"

subsection \<open>\<^verbatim>\<open>receive_data\<close>\<close>

text \<open>
  The result is the count returned and the bytes copied into the caller's buffer.
  \<^verbatim>\<open>recv_count - sizeof(RDTHeader)\<close> is negative for a datagram shorter than a
  header, and \<^verbatim>\<open>memcpy\<close> with a negative count is undefined.
\<close>

function receive_data_loop :: "ReliableSocket \<Rightarrow> (int \<times> byte list) result \<times> ReliableSocket" where
  "receive_data_loop s =
     (case os_recv s of
        None \<Rightarrow> (Inl Starved, s)
      | Some (recv_count, recv_seg, s1) \<Rightarrow>
          if recv_count < 0 then (Inl EXIT_FAILURE, perror ''receive_data recv'' s1)
          else
            let hdr = hdr_of recv_seg;
                seqnum = h_sequence_number hdr
            in if h_type hdr = RDT_ACK then receive_data_loop s1
               else if h_type hdr = RDT_CLOSE then
                 (case timeout_send
                         (hdr_bytes \<lparr>h_sequence_number = htonl 0, h_ack_number = htonl 0,
                                     h_type = RDT_ACK\<rparr>) s1 of
                    (Inl e, s2) \<Rightarrow> (Inl e, s2)
                  | (Inr _, s2) \<Rightarrow> (Inr (0, []), s2\<lparr>state := FIN\<rparr>))
               else
                 let s2 = send_checked ''receive_data send''
                            (hdr_bytes \<lparr>h_sequence_number = seqnum, h_ack_number = seqnum,
                                        h_type = RDT_ACK\<rparr>) s1
                 in if ntohl seqnum = sequence_number s2 then
                      let recv_data_size = recv_count - int sizeof_RDTHeader;
                          s3 = s2\<lparr>sequence_number := sequence_number s2 + 1\<rparr>
                      in if recv_data_size < 0 then (Inl Undefined, s3)
                         else (Inr (recv_data_size,
                                    take (nat recv_data_size) (drop sizeof_RDTHeader recv_seg)),
                               s3)
                    else receive_data_loop s2)"
  by pat_completeness auto
termination
  by (relation "measure (\<lambda>s. length (inbox s))")
     (auto simp: os_recv_def split: list.splits recv_result.splits)

declare receive_data_loop.simps [simp del]

definition receive_data :: "ReliableSocket \<Rightarrow> (int \<times> byte list) result \<times> ReliableSocket" where
  "receive_data s =
     (case set_timeout_length 0 s of
        (Inl e, s1) \<Rightarrow> (Inl e, s1)
      | (Inr _, s1) \<Rightarrow>
          if state s1 \<noteq> ESTABLISHED then (Inr (0, []), s1)
          else receive_data_loop s1)"

subsection \<open>\<^verbatim>\<open>close_connection\<close>\<close>

text \<open>The three loops of \<^verbatim>\<open>send_close_connection\<close>, in order.\<close>

function close_handshake_loop :: "byte list \<Rightarrow> ReliableSocket \<Rightarrow> unit result \<times> ReliableSocket" where
  "close_handshake_loop send_seg s =
     (case reliable_send (take sizeof_RDTHeader send_seg) s of
        (Inl e, s1) \<Rightarrow> (Inl e, s1)
      | (Inr recv_seg, s1) \<Rightarrow>
          if h_type (hdr_of recv_seg) = RDT_ACK then (Inr (), s1)
          else if h_type (hdr_of recv_seg) = RDT_CLOSE then (Inr (), s1)
          else close_handshake_loop send_seg s1)"
  by pat_completeness auto
termination
  by (relation "measure (\<lambda>(send_seg, s). length (inbox s))") (auto dest: reliable_send_inbox [OF sym])

declare close_handshake_loop.simps [simp del]

function await_close_loop :: "ReliableSocket \<Rightarrow> unit result \<times> ReliableSocket" where
  "await_close_loop s =
     (case os_recv s of
        None \<Rightarrow> (Inl Starved, s)
      | Some (recv_count, recv_seg, s1) \<Rightarrow>
          if recv_count < 0 then await_close_loop s1
          else if recv_count < 0 \<and> errno s1 \<noteq> EAGAIN
          then (Inl EXIT_FAILURE, perror ''recv send_close_connection'' s1)
          else if h_type (hdr_of recv_seg) = RDT_CLOSE then (Inr (), s1)
          else await_close_loop s1)"
  by pat_completeness auto
termination
  by (relation "measure (\<lambda>s. length (inbox s))")
     (auto simp: os_recv_def split: list.splits recv_result.splits)

declare await_close_loop.simps [simp del]

function time_wait_loop :: "byte list \<Rightarrow> ReliableSocket \<Rightarrow> unit result \<times> ReliableSocket" where
  "time_wait_loop send_seg s =
     (let s1 = send_checked ''send_close_connection send'' (take sizeof_RDTHeader send_seg) s
      in case set_timeout_length TIME_WAIT s1 of
           (Inl e, s2) \<Rightarrow> (Inl e, s2)
         | (Inr _, s2) \<Rightarrow>
             (case os_recv s2 of
                None \<Rightarrow> (Inl Starved, s2)
              | Some (n, recv_seg, s3) \<Rightarrow>
                  if 0 < n then
                    (if h_type (hdr_of recv_seg) = RDT_CLOSE then time_wait_loop send_seg s3
                     else time_wait_loop send_seg s3)
                  else if errno s3 = EAGAIN then (Inr (), s3)
                  else (Inl EXIT_FAILURE, perror ''send_close_connection recv'' s3)))"
  by pat_completeness auto
termination
  by (relation "measure (\<lambda>(send_seg, s). length (inbox s))")
     (auto simp: os_recv_def split: list.splits recv_result.splits
           dest!: set_timeout_length_inbox [OF sym])

declare time_wait_loop.simps [simp del]

definition send_close_connection :: "ReliableSocket \<Rightarrow> unit result \<times> ReliableSocket" where
  "send_close_connection s =
     (case close_handshake_loop
             (hdr_bytes \<lparr>h_sequence_number = htonl 0, h_ack_number = htonl 0,
                         h_type = RDT_CLOSE\<rparr>) s of
        (Inl e, s1) \<Rightarrow> (Inl e, s1)
      | (Inr _, s1) \<Rightarrow>
          (case await_close_loop s1 of
             (Inl e, s2) \<Rightarrow> (Inl e, s2)
           | (Inr _, s2) \<Rightarrow>
               time_wait_loop
                 (hdr_bytes \<lparr>h_sequence_number = htonl 0, h_ack_number = htonl 0,
                             h_type = RDT_ACK\<rparr>) s2))"

function close_reply_loop :: "byte list \<Rightarrow> ReliableSocket \<Rightarrow> unit result \<times> ReliableSocket" where
  "close_reply_loop send_seg s =
     (case reliable_send (take sizeof_RDTHeader send_seg) s of
        (Inl e, s1) \<Rightarrow> (Inl e, s1)
      | (Inr recv_seg, s1) \<Rightarrow>
          if h_type (hdr_of recv_seg) = RDT_ACK then (Inr (), s1)
          else close_reply_loop send_seg s1)"
  by pat_completeness auto
termination
  by (relation "measure (\<lambda>(send_seg, s). length (inbox s))") (auto dest: reliable_send_inbox [OF sym])

declare close_reply_loop.simps [simp del]

definition receive_close_connection :: "ReliableSocket \<Rightarrow> unit result \<times> ReliableSocket" where
  "receive_close_connection s =
     (case set_timeout_length (word_of_int (estimated_rtt s + 4 * dev_rtt s)) s of
        (Inl e, s1) \<Rightarrow> (Inl e, s1)
      | (Inr _, s1) \<Rightarrow>
          close_reply_loop
            (hdr_bytes \<lparr>h_sequence_number = htonl 0, h_ack_number = htonl 0,
                        h_type = RDT_CLOSE\<rparr>) s1)"

definition close_connection :: "ReliableSocket \<Rightarrow> unit result \<times> ReliableSocket" where
  "close_connection s =
     (case (if state s \<noteq> FIN then send_close_connection s else receive_close_connection s) of
        (Inl e, s1) \<Rightarrow> (Inl e, s1)
      | (Inr _, s1) \<Rightarrow>
          let s2 = s1\<lparr>state := CLOSED\<rparr>;
              s3 = s2\<lparr>trace := trace s2 @ [Close_fd]\<rparr>
          in (Inr (), if syscall_fails s3 SYS_close
                      then perror ''close_connection close'' s3 else s3))"

subsection \<open>\<^verbatim>\<open>connect_to_remote\<close> and \<^verbatim>\<open>accept_connection\<close>\<close>

text \<open>
  The host name and the port only choose the peer, which the environment stands for;
  they are not arguments of the model.
\<close>

definition connect_to_remote :: "ReliableSocket \<Rightarrow> unit result \<times> ReliableSocket" where
  "connect_to_remote s =
     (if state s \<noteq> INIT then (Inr (), s)
      else
        let s1 = (if syscall_fails s SYS_connect then perror ''connect'' s else s)
        in case set_timeout_length (word_of_int (estimated_rtt s1 + 4 * dev_rtt s1)) s1 of
             (Inl e, s2) \<Rightarrow> (Inl e, s2)
           | (Inr _, s2) \<Rightarrow>
               (case reliable_send
                       (hdr_bytes \<lparr>h_sequence_number = htonl 0, h_ack_number = htonl 0,
                                   h_type = RDT_SYN\<rparr>) s2 of
                  (Inl e, s3) \<Rightarrow> (Inl e, s3)
                | (Inr recv_seg, s3) \<Rightarrow>
                    let s4 = (if h_type (hdr_of recv_seg) \<noteq> RDT_SYNACK
                              then perror ''Message was not a SYNACK'' s3 else s3)
                    in case timeout_send
                              (hdr_bytes \<lparr>h_sequence_number = htonl 0, h_ack_number = htonl 0,
                                          h_type = RDT_ACK\<rparr>) s4 of
                         (Inl e, s5) \<Rightarrow> (Inl e, s5)
                       | (Inr _, s5) \<Rightarrow> (Inr (), s5\<lparr>state := ESTABLISHED\<rparr>)))"

function accept_loop :: "byte list \<Rightarrow> ReliableSocket \<Rightarrow> unit result \<times> ReliableSocket" where
  "accept_loop send_seg s =
     (case set_timeout_length (word_of_int (estimated_rtt s + 4 * dev_rtt s)) s of
        (Inl e, s1) \<Rightarrow> (Inl e, s1)
      | (Inr _, s1) \<Rightarrow>
          (case reliable_send (take sizeof_RDTHeader send_seg) s1 of
             (Inl e, s2) \<Rightarrow> (Inl e, s2)
           | (Inr recv_seg, s2) \<Rightarrow>
               if h_type (hdr_of recv_seg) = RDT_ACK then (Inr (), s2)
               else if h_type (hdr_of recv_seg) = RDT_DATA then (Inr (), s2)
               else accept_loop send_seg s2))"
  by pat_completeness auto
termination
  by (relation "measure (\<lambda>(send_seg, s). length (inbox s))")
     (auto dest!: reliable_send_inbox [OF sym] set_timeout_length_inbox [OF sym])

declare accept_loop.simps [simp del]

definition accept_connection :: "ReliableSocket \<Rightarrow> unit result \<times> ReliableSocket" where
  "accept_connection s =
     (if state s \<noteq> INIT then (Inl EXIT_FAILURE, s)
      else
        let s1 = (if syscall_fails s SYS_bind then perror ''bind'' s else s)
        in case os_recv s1 of
             None \<Rightarrow> (Inl Starved, s1)
           | Some (recv_count, segment, s2) \<Rightarrow>
               if recv_count < 0 then (Inl EXIT_FAILURE, perror ''accept recvfrom'' s2)
               else if syscall_fails s2 SYS_connect
               then (Inl EXIT_FAILURE, perror ''accept connect'' s2)
               else if h_type (hdr_of segment) \<noteq> RDT_SYN then (Inl EXIT_FAILURE, s2)
               else
                 (case accept_loop
                         (hdr_bytes \<lparr>h_sequence_number = htonl 0, h_ack_number = htonl 0,
                                     h_type = RDT_SYNACK\<rparr>) s2 of
                    (Inl e, s3) \<Rightarrow> (Inl e, s3)
                  | (Inr _, s3) \<Rightarrow> (Inr (), s3\<lparr>state := ESTABLISHED\<rparr>)))"

definition get_estimated_rtt :: "ReliableSocket \<Rightarrow> 32 word" where
  "get_estimated_rtt s = word_of_int (estimated_rtt s)"

section \<open>Concrete sockets\<close>

text \<open>
  Storage for an object before its constructor runs, in an environment where every
  system call succeeds, nothing arrives, and the clock advances by 40 ms from one
  reading to the next; and the socket the constructor makes of it.
\<close>

definition quiet :: ReliableSocket where
  "quiet =
     \<lparr>sequence_number = 7, expected_sequence_number = 7, estimated_rtt = 0, current_rtt = 0,
      dev_rtt = 0, state = CLOSED, rcv_timeout = 0, errno = 0, inbox = [],
      send_outcome = (\<lambda>n. 0), n_send = 0, clock = (\<lambda>n. 1000 + 40 * int n), n_clock = 0,
      rejects_timeout = (\<lambda>t. False), syscall_fails = (\<lambda>c. False), trace = []\<rparr>"

definition fresh :: ReliableSocket where
  "fresh = snd (ReliableSocket_ctor quiet)"

lemma fresh_eq:
  "fresh = quiet\<lparr>sequence_number := 0, expected_sequence_number := 0, estimated_rtt := 100,
                 dev_rtt := 10, current_rtt := 0, state := INIT\<rparr>"
  by (simp add: fresh_def ReliableSocket_ctor_def quiet_def)

section \<open>The size of a header\<close>

lemma sizeof_RDTHeader_eq: "sizeof_RDTHeader = 12"
  by (simp add: sizeof_RDTHeader_def struct_sizeof_def RDTHeader_members_def align_up_def)

lemma length_hdr_bytes: "length (hdr_bytes h) = sizeof_RDTHeader"
  by (simp add: hdr_bytes_def le32_def sizeof_RDTHeader_eq)

lemma hdr_bytes_eq:
  "hdr_bytes h = le32 (h_sequence_number h) @ le32 (h_ack_number h) @ [h_type h, 0, 0, 0]"
proof -
  have "replicate (12 - 9) (0::byte) = [0, 0, 0]" by (simp add: numeral_3_eq_3)
  then show ?thesis by (simp add: hdr_bytes_def sizeof_RDTHeader_eq)
qed

text \<open>
  C6, as the code has it.  The header is the memory image of \<^verbatim>\<open>struct RDTHeader\<close>:
  \<^verbatim>\<open>sizeof(RDTHeader)\<close> is 12, not 9.  The sequence number is at offset 0, the
  acknowledgment number at offset 4, the type byte at offset 8, followed by three bytes
  of padding; every header on the wire is 12 bytes long, and
  \<^verbatim>\<open>MAX_DATA_SIZE = MAX_SEG_SIZE - sizeof(RDTHeader)\<close> is 1388 for a segment size of 1400.
\<close>

theorem header_size:
  "sizeof_RDTHeader = 12
   \<and> member_offsets 0 RDTHeader_members = [0, 4, 8]
   \<and> length (hdr_bytes h) = 12
   \<and> take 4 (hdr_bytes h) = le32 (h_sequence_number h)
   \<and> take 4 (drop 4 (hdr_bytes h)) = le32 (h_ack_number h)
   \<and> hdr_bytes h ! 8 = h_type h
   \<and> drop 9 (hdr_bytes h) = [0, 0, 0]
   \<and> MAX_DATA_SIZE = MAX_SEG_SIZE - sizeof_RDTHeader
   \<and> MAX_DATA_SIZE = 1388"
  by (simp add: sizeof_RDTHeader_eq RDTHeader_members_def align_up_def hdr_bytes_eq le32_def
                MAX_DATA_SIZE_def MAX_SEG_SIZE_def)

text \<open>
  C6 as stated fails: the header of a DATA segment is not 9 bytes long, and the largest
  payload is not 1391 bytes.
\<close>

theorem header_size_counterexample:
  "length (hdr_bytes \<lparr>h_sequence_number = 0, h_ack_number = 0, h_type = RDT_DATA\<rparr>) \<noteq> 9
   \<and> MAX_DATA_SIZE \<noteq> 1391"
  by (simp add: length_hdr_bytes sizeof_RDTHeader_eq MAX_DATA_SIZE_def MAX_SEG_SIZE_def)

section \<open>The estimator\<close>

text \<open>
  For durations that are not negative, the conversions back to \<^verbatim>\<open>int\<close> round down,
  and the update of \<^verbatim>\<open>set_estimated_rtt\<close> is integer arithmetic.
\<close>

definition next_estimated_rtt :: "int \<Rightarrow> int \<Rightarrow> int" where
  "next_estimated_rtt e c = 7 * e div 8 + c div 8"

definition next_dev_rtt :: "int \<Rightarrow> int \<Rightarrow> int \<Rightarrow> int" where
  "next_dev_rtt e d c = 3 * d div 4 + \<bar>c - next_estimated_rtt e c\<bar> div 4"

lemma c_trunc_nonneg: "0 \<le> x \<Longrightarrow> c_trunc x = \<lfloor>x\<rfloor>"
  by (simp add: c_trunc_def)

lemma floor_int_div: "\<lfloor>real_of_int a / real_of_int b\<rfloor> = a div b"
  by (simp add: floor_divide_of_int_eq)

lemma scale_7_8: "0 \<le> e \<Longrightarrow> c_trunc (of_int e * (1 - 0.125)) = 7 * e div 8"
proof -
  assume e: "0 \<le> e"
  have "real_of_int e * (1 - 0.125) = real_of_int (7 * e) / real_of_int 8" by simp
  then have "\<lfloor>real_of_int e * (1 - 0.125)\<rfloor> = 7 * e div 8"
    by (simp only: floor_int_div)
  with e show ?thesis by (simp add: c_trunc_def)
qed

lemma scale_3_4: "0 \<le> e \<Longrightarrow> c_trunc (of_int e * (1 - 0.25)) = 3 * e div 4"
proof -
  assume e: "0 \<le> e"
  have "real_of_int e * (1 - 0.25) = real_of_int (3 * e) / real_of_int 4" by simp
  then have "\<lfloor>real_of_int e * (1 - 0.25)\<rfloor> = 3 * e div 4"
    by (simp only: floor_int_div)
  with e show ?thesis by (simp add: c_trunc_def)
qed

lemma add_eighth: "0 \<le> a \<Longrightarrow> 0 \<le> c \<Longrightarrow> c_trunc (of_int a + of_int c * 0.125) = a + c div 8"
proof -
  assume a: "0 \<le> a" and c: "0 \<le> c"
  have "real_of_int a + real_of_int c * 0.125 = real_of_int (8 * a + c) / real_of_int 8" by simp
  then have "\<lfloor>real_of_int a + real_of_int c * 0.125\<rfloor> = (8 * a + c) div 8"
    by (simp only: floor_int_div)
  moreover have "(8 * a + c) div 8 = a + c div 8" by simp
  moreover from a c have "0 \<le> real_of_int a + real_of_int c * 0.125" by simp
  ultimately show ?thesis by (simp only: c_trunc_nonneg)
qed

lemma add_quarter: "0 \<le> a \<Longrightarrow> 0 \<le> c \<Longrightarrow> c_trunc (of_int a + of_int c * 0.25) = a + c div 4"
proof -
  assume a: "0 \<le> a" and c: "0 \<le> c"
  have "real_of_int a + real_of_int c * 0.25 = real_of_int (4 * a + c) / real_of_int 4" by simp
  then have "\<lfloor>real_of_int a + real_of_int c * 0.25\<rfloor> = (4 * a + c) div 4"
    by (simp only: floor_int_div)
  moreover have "(4 * a + c) div 4 = a + c div 4" by simp
  moreover from a c have "0 \<le> real_of_int a + real_of_int c * 0.25" by simp
  ultimately show ?thesis by (simp only: c_trunc_nonneg)
qed

lemma set_estimated_rtt_fields:
  assumes "0 \<le> estimated_rtt s" "0 \<le> dev_rtt s" "0 \<le> current_rtt s"
  shows "estimated_rtt (snd (set_estimated_rtt s)) =
           next_estimated_rtt (estimated_rtt s) (current_rtt s)"
    and "dev_rtt (snd (set_estimated_rtt s)) =
           next_dev_rtt (estimated_rtt s) (dev_rtt s) (current_rtt s)"
proof -
  define e1 where "e1 = c_trunc (of_int (estimated_rtt s) * (1 - 0.125))"
  define e2 where "e2 = c_trunc (of_int e1 + of_int (current_rtt s) * 0.125)"
  define d1 where "d1 = c_trunc (of_int (dev_rtt s) * (1 - 0.25))"
  define a where "a = (if current_rtt s - e2 < 0 then (current_rtt s - e2) * (- 1)
                       else current_rtt s - e2)"
  define d2 where "d2 = c_trunc (of_int d1 + of_int a * 0.25)"
  have e1: "e1 = 7 * estimated_rtt s div 8"
    unfolding e1_def by (rule scale_7_8) (rule assms)
  have d1: "d1 = 3 * dev_rtt s div 4"
    unfolding d1_def by (rule scale_3_4) (rule assms)
  have "0 \<le> e1" using e1 assms(1) by simp
  then have e2: "e2 = e1 + current_rtt s div 8"
    unfolding e2_def using assms(3) by (rule add_eighth)
  have a: "a = \<bar>current_rtt s - e2\<bar>" by (simp add: a_def abs_if)
  have "0 \<le> d1" using d1 assms(2) by simp
  moreover have "0 \<le> a" using a by simp
  ultimately have d2: "d2 = d1 + a div 4"
    unfolding d2_def by (rule add_quarter)
  have "estimated_rtt (snd (set_estimated_rtt s)) = e2"
    by (simp add: set_estimated_rtt_def set_timeout_length_def perror_def Let_def
                  e1_def e2_def)
  then show "estimated_rtt (snd (set_estimated_rtt s)) =
           next_estimated_rtt (estimated_rtt s) (current_rtt s)"
    by (simp add: e2 e1 next_estimated_rtt_def)
  have "dev_rtt (snd (set_estimated_rtt s)) = d2"
    by (simp add: set_estimated_rtt_def set_timeout_length_def perror_def Let_def
                  e1_def e2_def d1_def d2_def a_def)
  then show "dev_rtt (snd (set_estimated_rtt s)) =
           next_dev_rtt (estimated_rtt s) (dev_rtt s) (current_rtt s)"
    by (simp add: d2 d1 a e2 e1 next_dev_rtt_def next_estimated_rtt_def)
qed


lemma set_estimated_rtt_timeout:
  "let s' = snd (set_estimated_rtt s);
       t = word_of_int (estimated_rtt s' + 4 * dev_rtt s')
   in if rejects_timeout s t then fst (set_estimated_rtt s) = Inl EXIT_FAILURE
      else fst (set_estimated_rtt s) = Inr () \<and> rcv_timeout s' = t"
  by (simp add: set_estimated_rtt_def set_timeout_length_def perror_def Let_def)

text \<open>A socket whose last exchange took as long as the estimate: 100 ms.\<close>

definition rtt_probe :: ReliableSocket where
  "rtt_probe = fresh\<lparr>current_rtt := 100\<rparr>"

lemma rtt_probe_fields:
  "estimated_rtt rtt_probe = 100" "dev_rtt rtt_probe = 10" "current_rtt rtt_probe = 100"
  "rejects_timeout rtt_probe t = False"
  by (simp_all add: rtt_probe_def fresh_eq quiet_def)

text \<open>
  C3, as the code has it.  The members are integers, so each of the two products is
  rounded down to whole milliseconds, and the deviation is taken against the estimate
  already updated:
  \<open>estimated_rtt' = \<lfloor>7/8 * estimated_rtt\<rfloor> + \<lfloor>1/8 * current_rtt\<rfloor>\<close> and
  \<open>dev_rtt' = \<lfloor>3/4 * dev_rtt\<rfloor> + \<lfloor>1/4 * \<bar>current_rtt - estimated_rtt'\<bar>\<rfloor>\<close>,
  for an estimate, a deviation and a sample that are not negative.  The receive timeout
  then set is \<open>estimated_rtt' + 4 * dev_rtt'\<close> (as a \<^verbatim>\<open>uint32_t\<close>), and the constructor
  sets the three members to 100, 10 and 0.
\<close>

theorem set_estimated_rtt_integer:
  assumes "0 \<le> estimated_rtt s" and "0 \<le> dev_rtt s" and "0 \<le> current_rtt s"
    and "e' = 7 * estimated_rtt s div 8 + current_rtt s div 8"
    and "d' = 3 * dev_rtt s div 4 + \<bar>current_rtt s - e'\<bar> div 4"
    and "\<not> rejects_timeout s (word_of_int (e' + 4 * d'))"
  shows "fst (set_estimated_rtt s) = Inr ()
     \<and> estimated_rtt (snd (set_estimated_rtt s)) = e'
     \<and> dev_rtt (snd (set_estimated_rtt s)) = d'
     \<and> rcv_timeout (snd (set_estimated_rtt s)) = word_of_int (e' + 4 * d')
     \<and> estimated_rtt (snd (ReliableSocket_ctor s0)) = 100
     \<and> dev_rtt (snd (ReliableSocket_ctor s0)) = 10
     \<and> current_rtt (snd (ReliableSocket_ctor s0)) = 0"
proof -
  have e: "estimated_rtt (snd (set_estimated_rtt s)) = e'"
    using set_estimated_rtt_fields(1) [OF assms(1-3)] assms(4)
    by (simp add: next_estimated_rtt_def)
  have d: "dev_rtt (snd (set_estimated_rtt s)) = d'"
    using set_estimated_rtt_fields(2) [OF assms(1-3)] assms(4,5)
    by (simp add: next_dev_rtt_def next_estimated_rtt_def)
  from set_estimated_rtt_timeout [of s] assms(6)
  have "fst (set_estimated_rtt s) = Inr ()
      \<and> rcv_timeout (snd (set_estimated_rtt s)) = word_of_int (e' + 4 * d')"
    by (simp only: e d Let_def if_False)
  with e d show ?thesis by (simp add: ReliableSocket_ctor_def perror_def Let_def)
qed

lemma rtt_probe_estimate: "(99::int) = 7 * estimated_rtt rtt_probe div 8 + current_rtt rtt_probe div 8"
  by (simp add: rtt_probe_fields)
lemma rtt_probe_deviation: "(7::int) = 3 * dev_rtt rtt_probe div 4 + \<bar>current_rtt rtt_probe - 99\<bar> div 4"
  by (simp add: rtt_probe_fields)
lemma rtt_probe_accepted: "\<not> rejects_timeout rtt_probe (word_of_int (99 + 4 * 7))"
  by (simp add: rtt_probe_fields)
lemma rtt_probe_nonneg: "0 \<le> estimated_rtt rtt_probe" "0 \<le> dev_rtt rtt_probe" "0 \<le> current_rtt rtt_probe"
  by (simp_all add: rtt_probe_fields)
lemma rtt_probe_timeout: "word_of_int (99 + 4 * 7) = (127 :: 32 word)"
  by simp
text \<open>
  C3 as stated fails: with an estimate of 100 ms and a sample of 100 ms the formula of
  the claim keeps the estimate at 100, and the code lowers it to 99.
\<close>


theorem set_estimated_rtt_integer_witness:
  "0 \<le> estimated_rtt rtt_probe \<and> 0 \<le> dev_rtt rtt_probe \<and> 0 \<le> current_rtt rtt_probe
   \<and> \<not> rejects_timeout rtt_probe 127
   \<and> fst (set_estimated_rtt rtt_probe) = Inr ()
   \<and> estimated_rtt (snd (set_estimated_rtt rtt_probe)) = 99
   \<and> dev_rtt (snd (set_estimated_rtt rtt_probe)) = 7
   \<and> rcv_timeout (snd (set_estimated_rtt rtt_probe)) = 127"
  using set_estimated_rtt_integer [OF rtt_probe_nonneg rtt_probe_estimate rtt_probe_deviation rtt_probe_accepted, of fresh]
    rtt_probe_nonneg rtt_probe_accepted
  by (simp only: rtt_probe_timeout simp_thms)


lemma rtt_probe_update:
  "estimated_rtt (snd (set_estimated_rtt rtt_probe)) = 99"
  using set_estimated_rtt_fields(1) [of rtt_probe]
  by (simp add: rtt_probe_fields next_estimated_rtt_def)

theorem set_estimated_rtt_counterexample:
  "real_of_int (estimated_rtt (snd (set_estimated_rtt rtt_probe)))
     \<noteq> (1 - 0.125) * real_of_int (estimated_rtt rtt_probe)
         + 0.125 * real_of_int (current_rtt rtt_probe)
   \<and> estimated_rtt (snd (set_estimated_rtt rtt_probe)) = 99
   \<and> estimated_rtt rtt_probe = 100 \<and> current_rtt rtt_probe = 100"
  by (simp add: rtt_probe_update rtt_probe_fields)

section \<open>What a run shows\<close>

text \<open>The segments passed to \<^verbatim>\<open>send\<close>, the timeouts set and the messages of \<^verbatim>\<open>perror\<close>, in order.\<close>

fun sends_of :: "event list \<Rightarrow> byte list list" where
  "sends_of [] = []"
| "sends_of (Send seg ok # es) = seg # sends_of es"
| "sends_of (e # es) = sends_of es"

fun timeouts_of :: "event list \<Rightarrow> 32 word list" where
  "timeouts_of [] = []"
| "timeouts_of (Set_timeout t # es) = t # timeouts_of es"
| "timeouts_of (e # es) = timeouts_of es"

fun perrors_of :: "event list \<Rightarrow> string list" where
  "perrors_of [] = []"
| "perrors_of (Perror msg # es) = msg # perrors_of es"
| "perrors_of (e # es) = perrors_of es"

lemma sends_of_append [simp]: "sends_of (xs @ ys) = sends_of xs @ sends_of ys"
  by (induction xs rule: sends_of.induct) simp_all

lemma timeouts_of_append [simp]: "timeouts_of (xs @ ys) = timeouts_of xs @ timeouts_of ys"
  by (induction xs rule: timeouts_of.induct) simp_all

lemma perrors_of_append [simp]: "perrors_of (xs @ ys) = perrors_of xs @ perrors_of ys"
  by (induction xs rule: perrors_of.induct) simp_all

definition timeout_step :: "byte list \<Rightarrow> 32 word \<Rightarrow> ReliableSocket \<Rightarrow> ReliableSocket" where
  "timeout_step seg t s =
     (send_checked ''reliable_send send'' seg (snd (current_msec s)))
       \<lparr>inbox := tl (inbox s), errno := EAGAIN, rcv_timeout := t,
        trace := trace (send_checked ''reliable_send send'' seg (snd (current_msec s)))
                 @ [Set_timeout t]\<rparr>"

fun after_timeouts :: "byte list \<Rightarrow> 32 word \<Rightarrow> nat \<Rightarrow> ReliableSocket \<Rightarrow> ReliableSocket" where
  "after_timeouts seg t 0 s = s"
| "after_timeouts seg t (Suc k) s = timeout_step seg (2 ^ k * t) (after_timeouts seg t k s)"

lemma timeout_step_simps [simp]:
  "inbox (timeout_step seg t s) = tl (inbox s)"
  "sequence_number (timeout_step seg t s) = sequence_number s"
  "expected_sequence_number (timeout_step seg t s) = expected_sequence_number s"
  "estimated_rtt (timeout_step seg t s) = estimated_rtt s"
  "current_rtt (timeout_step seg t s) = current_rtt s"
  "dev_rtt (timeout_step seg t s) = dev_rtt s"
  "state (timeout_step seg t s) = state s"
  "rcv_timeout (timeout_step seg t s) = t"
  "errno (timeout_step seg t s) = EAGAIN"
  "send_outcome (timeout_step seg t s) = send_outcome s"
  "n_send (timeout_step seg t s) = Suc (n_send s)"
  "clock (timeout_step seg t s) = clock s"
  "n_clock (timeout_step seg t s) = Suc (n_clock s)"
  "rejects_timeout (timeout_step seg t s) = rejects_timeout s"
  "syscall_fails (timeout_step seg t s) = syscall_fails s"
  by (simp_all add: timeout_step_def current_msec_def)

lemma trace_timeout_step:
  "trace (timeout_step seg t s) =
     trace s @ (if send_outcome s (n_send s) = 0 then [Send seg True]
                else [Send seg False, Perror ''reliable_send send'']) @ [Set_timeout t]"
  by (simp add: timeout_step_def current_msec_def trace_send_checked)

lemma rs_loop_timeout_step:
  assumes "inbox s = Recv_errno EAGAIN # rest"
    and "\<not> rejects_timeout s (if p then d * 2 else word_of_int (2 * (estimated_rtt s + 4 * dev_rtt s)))"
  shows "reliable_send_loop seg p d s =
     reliable_send_loop seg True
       (if p then d * 2 else word_of_int (2 * (estimated_rtt s + 4 * dev_rtt s)))
       (timeout_step seg
          (if p then d * 2 else word_of_int (2 * (estimated_rtt s + 4 * dev_rtt s))) s)"
  using assms
  by (simp add: rs_loop_timeout [OF assms(1)] Let_def set_timeout_length_def timeout_step_def
                current_msec_def)

lemma after_timeouts_simps [simp]:
  "sequence_number (after_timeouts seg t k s) = sequence_number s"
  "expected_sequence_number (after_timeouts seg t k s) = expected_sequence_number s"
  "estimated_rtt (after_timeouts seg t k s) = estimated_rtt s"
  "current_rtt (after_timeouts seg t k s) = current_rtt s"
  "dev_rtt (after_timeouts seg t k s) = dev_rtt s"
  "state (after_timeouts seg t k s) = state s"
  "send_outcome (after_timeouts seg t k s) = send_outcome s"
  "clock (after_timeouts seg t k s) = clock s"
  "rejects_timeout (after_timeouts seg t k s) = rejects_timeout s"
  "syscall_fails (after_timeouts seg t k s) = syscall_fails s"
  "n_send (after_timeouts seg t k s) = n_send s + k"
  "n_clock (after_timeouts seg t k s) = n_clock s + k"
  "inbox (after_timeouts seg t k s) = drop k (inbox s)"
  by (induction k; simp add: drop_Suc tl_drop)+

lemma sends_after_timeouts:
  "sends_of (trace (after_timeouts seg t k s)) = sends_of (trace s) @ replicate k seg"
  by (induction k) (simp_all add: trace_timeout_step replicate_append_same)

lemma timeouts_after_timeouts:
  "timeouts_of (trace (after_timeouts seg t k s)) =
     timeouts_of (trace s) @ map (\<lambda>i. 2 ^ i * t) [0..<k]"
  by (induction k) (simp_all add: trace_timeout_step)

lemma map_upt_Suc_shift: "map f [0..<Suc k] = f 0 # map (\<lambda>i. f (Suc i)) [0..<k]"
  by (simp only: map_upt_Suc)

text \<open>
  The first \<open>k\<close> receives time out.  Only the timeouts that the loop applies on the way
  have to be accepted: \<open>D\<close> after the first timeout, and twice the last one after each
  of the others.
\<close>

lemma rs_loop_unroll:
  assumes D: "D = word_of_int (2 * (estimated_rtt s + 4 * dev_rtt s))"
  shows "inbox s = replicate k (Recv_errno EAGAIN) @ rest \<Longrightarrow>
     \<forall>i<k. \<not> rejects_timeout s (2 ^ i * D) \<Longrightarrow>
     reliable_send_loop seg False d s =
     reliable_send_loop seg (0 < k) (if k = 0 then d else 2 ^ (k - 1) * D)
       (after_timeouts seg D k s)"
proof (induction k arbitrary: rest)
  case 0
  show ?case by simp
next
  case (Suc k)
  let ?sk = "after_timeouts seg D k s"
  let ?dk = "if k = 0 then d else 2 ^ (k - 1) * D"
  let ?dd = "if 0 < k then ?dk * 2 else word_of_int (2 * (estimated_rtt ?sk + 4 * dev_rtt ?sk))"
  from Suc.prems(1) have ib: "inbox s = replicate k (Recv_errno EAGAIN) @ (Recv_errno EAGAIN # rest)"
    by (simp add: replicate_app_Cons_same)
  from Suc.prems(2) have acck: "\<forall>i<k. \<not> rejects_timeout s (2 ^ i * D)" by simp
  from Suc.IH [OF ib acck]
  have 1: "reliable_send_loop seg False d s = reliable_send_loop seg (0 < k) ?dk ?sk" .
  from ib have ibk: "inbox ?sk = Recv_errno EAGAIN # rest" by simp
  have dbl: "?dd = 2 ^ k * D"
  proof (cases k)
    case 0
    then show ?thesis by (simp add: D)
  next
    case (Suc j)
    then show ?thesis by (simp add: mult.commute mult.left_commute)
  qed
  from Suc.prems(2) have a: "\<not> rejects_timeout ?sk (2 ^ k * D)" by simp
  have acc': "\<not> rejects_timeout ?sk ?dd"
    unfolding dbl by (rule a)
  have 2: "reliable_send_loop seg (0 < k) ?dk ?sk =
        reliable_send_loop seg True (2 ^ k * D) (timeout_step seg (2 ^ k * D) ?sk)"
    using rs_loop_timeout_step [OF ibk acc', of seg] by (simp only: dbl)
  have 3: "(if Suc k = 0 then d else 2 ^ (Suc k - 1) * D) = 2 ^ k * D" by simp
  show ?case
    by (simp only: 1 2 3 after_timeouts.simps zero_less_Suc)
qed

lemma perrors_after_timeouts:
  "perrors_of (trace (after_timeouts seg t k s)) =
     perrors_of (trace s)
     @ map (\<lambda>i. ''reliable_send send'')
         (filter (\<lambda>i. send_outcome s (n_send s + i) \<noteq> 0) [0..<k])"
  by (induction k) (simp_all add: trace_timeout_step)

text \<open>The estimate and the deviation that \<^verbatim>\<open>set_estimated_rtt\<close> computes.\<close>

definition estimate_of :: "int \<Rightarrow> int \<Rightarrow> int" where
  "estimate_of e c =
     c_trunc (of_int (c_trunc (of_int e * (1 - 0.125))) + of_int c * 0.125)"

definition deviation_of :: "int \<Rightarrow> int \<Rightarrow> int \<Rightarrow> int" where
  "deviation_of e d c =
     c_trunc (of_int (c_trunc (of_int d * (1 - 0.25))) + of_int \<bar>c - estimate_of e c\<bar> * 0.25)"

lemma set_estimated_rtt_eq:
  "set_estimated_rtt s =
     set_timeout_length
       (word_of_int (estimate_of (estimated_rtt s) (current_rtt s)
                     + 4 * deviation_of (estimated_rtt s) (dev_rtt s) (current_rtt s)))
       (s\<lparr>estimated_rtt := estimate_of (estimated_rtt s) (current_rtt s),
          dev_rtt := deviation_of (estimated_rtt s) (dev_rtt s) (current_rtt s)\<rparr>)"
  by (simp add: set_estimated_rtt_def estimate_of_def deviation_of_def Let_def abs_if)

text \<open>
  The timeout \<^verbatim>\<open>set_estimated_rtt\<close> applies, whether or not \<^verbatim>\<open>setsockopt\<close> accepts it.
\<close>

definition estimator_timeout :: "ReliableSocket \<Rightarrow> 32 word" where
  "estimator_timeout s =
     word_of_int (estimated_rtt (snd (set_estimated_rtt s))
                  + 4 * dev_rtt (snd (set_estimated_rtt s)))"

lemma estimator_timeout_eq:
  "estimator_timeout s =
     word_of_int (estimate_of (estimated_rtt s) (current_rtt s)
                  + 4 * deviation_of (estimated_rtt s) (dev_rtt s) (current_rtt s))"
  by (simp add: estimator_timeout_def set_estimated_rtt_eq set_timeout_length_def perror_def)

lemma set_estimated_rtt_accepting:
  assumes "\<not> rejects_timeout s (estimator_timeout s)"
  shows "set_estimated_rtt s =
     (Inr (),
      s\<lparr>estimated_rtt := estimate_of (estimated_rtt s) (current_rtt s),
        dev_rtt := deviation_of (estimated_rtt s) (dev_rtt s) (current_rtt s),
        rcv_timeout := estimator_timeout s,
        trace := trace s @ [Set_timeout (estimator_timeout s)]\<rparr>)"
  using assms by (simp add: estimator_timeout_eq set_estimated_rtt_eq set_timeout_length_def)

lemma set_estimated_rtt_rejecting:
  assumes "rejects_timeout s (estimator_timeout s)"
  shows "set_estimated_rtt s =
     (Inl EXIT_FAILURE,
      perror ''setsockopt''
        (s\<lparr>estimated_rtt := estimate_of (estimated_rtt s) (current_rtt s),
           dev_rtt := deviation_of (estimated_rtt s) (dev_rtt s) (current_rtt s)\<rparr>))"
  using assms by (simp add: estimator_timeout_eq set_estimated_rtt_eq set_timeout_length_def)

text \<open>
  The state in which the loop of \<^verbatim>\<open>reliable_send\<close> meets the first result that is
  not a timeout, after \<open>k\<close> timeouts; \<open>T\<close> is the timeout the call starts with.
\<close>

definition before_reply :: "byte list \<Rightarrow> 32 word \<Rightarrow> nat \<Rightarrow> ReliableSocket \<Rightarrow> ReliableSocket" where
  "before_reply seg T k s =
     after_timeouts seg (2 * T) k (s\<lparr>rcv_timeout := T, trace := trace s @ [Set_timeout T]\<rparr>)"

lemma before_reply_simps [simp]:
  "sequence_number (before_reply seg T k s) = sequence_number s"
  "expected_sequence_number (before_reply seg T k s) = expected_sequence_number s"
  "estimated_rtt (before_reply seg T k s) = estimated_rtt s"
  "current_rtt (before_reply seg T k s) = current_rtt s"
  "dev_rtt (before_reply seg T k s) = dev_rtt s"
  "state (before_reply seg T k s) = state s"
  "send_outcome (before_reply seg T k s) = send_outcome s"
  "clock (before_reply seg T k s) = clock s"
  "rejects_timeout (before_reply seg T k s) = rejects_timeout s"
  "syscall_fails (before_reply seg T k s) = syscall_fails s"
  "n_send (before_reply seg T k s) = n_send s + k"
  "n_clock (before_reply seg T k s) = n_clock s + k"
  "inbox (before_reply seg T k s) = drop k (inbox s)"
  by (simp_all add: before_reply_def)

lemma sends_before_reply:
  "sends_of (trace (before_reply seg T k s)) = sends_of (trace s) @ replicate k seg"
  by (simp add: before_reply_def sends_after_timeouts)

lemma timeouts_before_reply:
  "timeouts_of (trace (before_reply seg T k s)) =
     timeouts_of (trace s) @ map (\<lambda>i. 2 ^ i * T) [0..<Suc k]"
proof -
  have "map (\<lambda>i. 2 ^ i * (2 * T)) [0..<k] = map (\<lambda>i. 2 ^ Suc i * T) [0..<k]"
    by (simp add: mult.commute mult.left_commute)
  then show ?thesis
    by (simp only: before_reply_def timeouts_after_timeouts map_upt_Suc_shift) simp
qed

lemma perrors_before_reply:
  "perrors_of (trace (before_reply seg T k s)) =
     perrors_of (trace s)
     @ map (\<lambda>i. ''reliable_send send'')
         (filter (\<lambda>i. send_outcome s (n_send s + i) \<noteq> 0) [0..<k])"
  by (simp add: before_reply_def perrors_after_timeouts)

lemma rcv_timeout_before_reply:
  "rcv_timeout (before_reply seg T k s) = 2 ^ k * T"
  by (cases k) (simp_all add: before_reply_def mult.commute mult.left_commute)

text \<open>
  The timeouts a call of \<^verbatim>\<open>reliable_send\<close> applies while its first \<open>k\<close> receives time
  out: \<open>T\<close> before the first transmission, then \<open>2 * T\<close>, up to \<open>2 ^ k * T\<close>.
\<close>

lemma doubled_accepted:
  "(\<forall>t\<in>set (map (\<lambda>i. 2 ^ i * T) [0..<Suc k]). \<not> rejects_timeout s t)
   \<longleftrightarrow> (\<forall>i\<le>k. \<not> rejects_timeout s (2 ^ i * T))"
  by (auto simp: less_Suc_eq_le simp del: upt_Suc)

lemma reliable_send_unroll:
  assumes ib: "inbox s = replicate k (Recv_errno EAGAIN) @ rest"
    and acc: "\<forall>i\<le>k. \<not> rejects_timeout s (2 ^ i * T)"
    and T: "T = word_of_int (estimated_rtt s + 4 * dev_rtt s)"
  shows "reliable_send seg s =
     (case reliable_send_loop seg (0 < k) (if k = 0 then 0 else 2 ^ (k - 1) * (2 * T))
             (before_reply seg T k s) of
        (Inl e, s2) \<Rightarrow> (Inl e, s2)
      | (Inr recv_seg, s2) \<Rightarrow>
          (case set_estimated_rtt s2 of
             (Inl e, s3) \<Rightarrow> (Inl e, s3)
           | (Inr _, s3) \<Rightarrow> (Inr recv_seg, s3)))"
proof -
  let ?s1 = "s\<lparr>rcv_timeout := T, trace := trace s @ [Set_timeout T]\<rparr>"
  from acc have "\<not> rejects_timeout s (2 ^ 0 * T)" by blast
  then have 1: "set_timeout_length (word_of_int (estimated_rtt s + 4 * dev_rtt s)) s = (Inr (), ?s1)"
    by (simp add: set_timeout_length_def T)
  have ib1: "inbox ?s1 = replicate k (Recv_errno EAGAIN) @ rest" using ib by simp
  have "\<not> rejects_timeout s (2 ^ i * (2 * T))" if "i < k" for i
  proof -
    from that have "Suc i \<le> k" by simp
    with acc have "\<not> rejects_timeout s (2 ^ Suc i * T)" by blast
    moreover have "2 ^ Suc i * T = 2 ^ i * (2 * T)" by (simp add: ac_simps)
    ultimately show ?thesis by (simp only: simp_thms)
  qed
  then have acc1: "\<forall>i<k. \<not> rejects_timeout ?s1 (2 ^ i * (2 * T))" by simp
  have D: "2 * T = word_of_int (2 * (estimated_rtt ?s1 + 4 * dev_rtt ?s1))"
    by (simp add: T)
  from rs_loop_unroll [OF D ib1 acc1, of seg 0]
  have 2: "reliable_send_loop seg False 0 ?s1 =
      reliable_send_loop seg (0 < k) (if k = 0 then 0 else 2 ^ (k - 1) * (2 * T))
        (before_reply seg T k s)"
    by (simp only: before_reply_def)
  show ?thesis
    unfolding reliable_send_def by (simp only: 1 2 prod.case sum.case)
qed

lemma current_msec_simps [simp]:
  "fst (current_msec s) = clock s (n_clock s)"
  "snd (current_msec s) = s\<lparr>n_clock := Suc (n_clock s)\<rparr>"
  by (simp_all add: current_msec_def)

lemma reliable_send_starved:
  assumes "inbox s = replicate k (Recv_errno EAGAIN)"
    and "\<forall>i\<le>k. \<not> rejects_timeout s (2 ^ i * T)"
    and "T = word_of_int (estimated_rtt s + 4 * dev_rtt s)"
  shows "reliable_send seg s =
     (Inl Starved,
      send_checked ''reliable_send send'' seg (snd (current_msec (before_reply seg T k s))))"
proof -
  from assms(1) have ib: "inbox s = replicate k (Recv_errno EAGAIN) @ []" by simp
  from assms(1) have "inbox (before_reply seg T k s) = []" by simp
  from rs_loop_Starved [OF this]
  show ?thesis
    by (simp only: reliable_send_unroll [OF ib assms(2,3)] prod.case sum.case)
qed

lemma reliable_send_fatal:
  assumes "inbox s = replicate k (Recv_errno EAGAIN) @ Recv_errno e # rest"
    and "e \<noteq> EAGAIN"
    and "\<forall>i\<le>k. \<not> rejects_timeout s (2 ^ i * T)"
    and "T = word_of_int (estimated_rtt s + 4 * dev_rtt s)"
  shows "reliable_send seg s =
     (Inl EXIT_FAILURE,
      perror ''ACK not received''
        ((send_checked ''reliable_send send'' seg (snd (current_msec (before_reply seg T k s))))
           \<lparr>inbox := rest, errno := e\<rparr>))"
proof -
  from assms(1) have "inbox (before_reply seg T k s) = Recv_errno e # rest" by simp
  from rs_loop_error [OF this assms(2)]
  show ?thesis
    by (simp only: reliable_send_unroll [OF assms(1,3,4)] prod.case sum.case)
qed

text \<open>
  The doubled timeout is refused: the first \<open>j\<close> timeouts \<open>T\<close>, up to \<open>2 ^ (j - 1) * T\<close>,
  were accepted, and \<open>2 ^ j * T\<close> is not.  For \<open>j = 0\<close> the call exits before it
  transmits anything; otherwise it exits after the \<open>j\<close>-th receive has timed out.
\<close>

lemma reliable_send_refused_at_once:
  assumes "rejects_timeout s (word_of_int (estimated_rtt s + 4 * dev_rtt s))"
  shows "reliable_send seg s = (Inl EXIT_FAILURE, perror ''setsockopt'' s)"
  using assms by (simp add: reliable_send_def set_timeout_length_def)

lemma reliable_send_refused:
  assumes "inbox s = replicate j (Recv_errno EAGAIN) @ Recv_errno EAGAIN # rest"
    and "\<forall>i\<le>j. \<not> rejects_timeout s (2 ^ i * T)"
    and "rejects_timeout s (2 ^ Suc j * T)"
    and "T = word_of_int (estimated_rtt s + 4 * dev_rtt s)"
  shows "reliable_send seg s =
     (Inl EXIT_FAILURE,
      perror ''setsockopt''
        ((send_checked ''reliable_send send'' seg (snd (current_msec (before_reply seg T j s))))
           \<lparr>inbox := rest, errno := EAGAIN\<rparr>))"
proof -
  let ?b = "before_reply seg T j s"
  let ?d = "if j = 0 then 0 else 2 ^ (j - 1) * (2 * T) :: 32 word"
  let ?dd = "if 0 < j then ?d * 2 else word_of_int (2 * (estimated_rtt ?b + 4 * dev_rtt ?b))"
  from assms(1) have ib: "inbox ?b = Recv_errno EAGAIN # rest" by simp
  have dbl: "?dd = 2 ^ Suc j * T"
  proof (cases j)
    case 0
    then show ?thesis by (simp add: assms(4))
  next
    case (Suc i)
    then show ?thesis by (simp add: mult.commute mult.left_commute)
  qed
  have "reliable_send_loop seg (0 < j) ?d ?b =
      (Inl EXIT_FAILURE,
       perror ''setsockopt''
         ((send_checked ''reliable_send send'' seg (snd (current_msec ?b)))
            \<lparr>inbox := rest, errno := EAGAIN\<rparr>))"
    using assms(3)
    by (simp only: rs_loop_timeout [OF ib] Let_def dbl)
       (simp add: set_timeout_length_def)
  then show ?thesis
    by (simp only: reliable_send_unroll [OF assms(1,2,4)] prod.case sum.case)
qed

text \<open>The state in which \<^verbatim>\<open>reliable_send\<close> calls \<^verbatim>\<open>set_estimated_rtt\<close>.\<close>

definition at_reply :: "byte list \<Rightarrow> 32 word \<Rightarrow> nat \<Rightarrow> ReliableSocket \<Rightarrow> ReliableSocket" where
  "at_reply seg T k s =
     (send_checked ''reliable_send send'' seg (snd (current_msec (before_reply seg T k s))))
       \<lparr>inbox := drop (Suc k) (inbox s), n_clock := Suc (Suc (n_clock s + k)),
        current_rtt := clock s (Suc (n_clock s + k)) - clock s (n_clock s + k)\<rparr>"

lemma at_reply_simps [simp]:
  "sequence_number (at_reply seg T k s) = sequence_number s"
  "expected_sequence_number (at_reply seg T k s) = expected_sequence_number s"
  "estimated_rtt (at_reply seg T k s) = estimated_rtt s"
  "current_rtt (at_reply seg T k s) = clock s (Suc (n_clock s + k)) - clock s (n_clock s + k)"
  "dev_rtt (at_reply seg T k s) = dev_rtt s"
  "state (at_reply seg T k s) = state s"
  "send_outcome (at_reply seg T k s) = send_outcome s"
  "clock (at_reply seg T k s) = clock s"
  "rejects_timeout (at_reply seg T k s) = rejects_timeout s"
  "syscall_fails (at_reply seg T k s) = syscall_fails s"
  "n_send (at_reply seg T k s) = Suc (n_send s + k)"
  "n_clock (at_reply seg T k s) = Suc (Suc (n_clock s + k))"
  "inbox (at_reply seg T k s) = drop (Suc k) (inbox s)"
  by (simp_all add: at_reply_def)

text \<open>
  The timeout the estimator asks for when the reply comes after \<open>k\<close> timeouts: the
  sample is the time from the last transmission to the reply.
\<close>

definition timeout_after :: "nat \<Rightarrow> ReliableSocket \<Rightarrow> 32 word" where
  "timeout_after k s =
     estimator_timeout
       (s\<lparr>current_rtt := clock s (n_clock s + k + 1) - clock s (n_clock s + k)\<rparr>)"

lemma estimator_timeout_at_reply:
  "estimator_timeout (at_reply seg T k s) = timeout_after k s"
  by (simp add: estimator_timeout_eq timeout_after_def)

lemma reliable_send_replied:
  assumes "inbox s = replicate k (Recv_errno EAGAIN) @ Datagram dg # rest"
    and "\<forall>i\<le>k. \<not> rejects_timeout s (2 ^ i * T)"
    and "T = word_of_int (estimated_rtt s + 4 * dev_rtt s)"
  shows "reliable_send seg s =
     (if rejects_timeout s (timeout_after k s) then Inl EXIT_FAILURE else Inr (recv_buffer dg),
      snd (set_estimated_rtt (at_reply seg T k s)))"
proof -
  from assms(1) have ib: "inbox (before_reply seg T k s) = Datagram dg # rest" by simp
  from assms(1) have dr: "drop (Suc k) (inbox s) = rest" by simp
  have l: "reliable_send_loop seg (0 < k) (if k = 0 then 0 else 2 ^ (k - 1) * (2 * T))
          (before_reply seg T k s) = (Inr (recv_buffer dg), at_reply seg T k s)"
    by (simp add: rs_loop_Datagram [OF ib] at_reply_def dr)
  show ?thesis
  proof (cases "rejects_timeout s (timeout_after k s)")
    case True
    then have "rejects_timeout (at_reply seg T k s) (estimator_timeout (at_reply seg T k s))"
      by (simp add: estimator_timeout_at_reply)
    from set_estimated_rtt_rejecting [OF this] True show ?thesis
      by (simp only: reliable_send_unroll [OF assms] l prod.case sum.case snd_conv if_True)
  next
    case False
    then have "\<not> rejects_timeout (at_reply seg T k s) (estimator_timeout (at_reply seg T k s))"
      by (simp add: estimator_timeout_at_reply)
    from set_estimated_rtt_accepting [OF this] False show ?thesis
      by (simp only: reliable_send_unroll [OF assms] l prod.case sum.case snd_conv if_False)
  qed
qed

lemma reliable_send_reply:
  assumes "inbox s = replicate k (Recv_errno EAGAIN) @ Datagram dg # rest"
    and "\<forall>i\<le>k. \<not> rejects_timeout s (2 ^ i * T)"
    and "T = word_of_int (estimated_rtt s + 4 * dev_rtt s)"
    and "\<not> rejects_timeout s (timeout_after k s)"
  shows "reliable_send seg s = (Inr (recv_buffer dg), snd (set_estimated_rtt (at_reply seg T k s)))"
  using reliable_send_replied [OF assms(1,2,3), of seg] assms(4) by simp

lemma observed_send_checked [simp]:
  "sends_of (trace (send_checked msg seg s)) = sends_of (trace s) @ [seg]"
  "timeouts_of (trace (send_checked msg seg s)) = timeouts_of (trace s)"
  "perrors_of (trace (send_checked msg seg s)) =
     perrors_of (trace s) @ (if send_outcome s (n_send s) = 0 then [] else [msg])"
  by (simp_all add: trace_send_checked)

lemma fresh_fields:
  "sequence_number fresh = 0" "estimated_rtt fresh = 100" "dev_rtt fresh = 10"
  "current_rtt fresh = 0" "state fresh = INIT" "inbox fresh = []" "trace fresh = []"
  "rejects_timeout fresh t = False" "send_outcome fresh n = 0" "n_send fresh = 0"
  "n_clock fresh = 0" "clock fresh n = 1000 + 40 * int n" "syscall_fails fresh c = False"
  "errno fresh = 0"
  by (simp_all add: fresh_eq quiet_def)

lemma unat_doubling:
  fixes T :: "32 word"
  assumes "2 ^ n * unat T < 2 ^ 32"
  shows "unat (2 ^ n * T) = 2 ^ n * unat T"
proof -
  have "2 ^ n * T = (of_nat (2 ^ n * unat T) :: 32 word)" by simp
  then have "unat (2 ^ n * T) = (2 ^ n * unat T) mod 2 ^ LENGTH(32)"
    by (simp only: unat_of_nat)
  with assms show ?thesis by simp
qed

lemma set_estimated_rtt_simps [simp]:
  "estimated_rtt (snd (set_estimated_rtt s)) = estimate_of (estimated_rtt s) (current_rtt s)"
  "dev_rtt (snd (set_estimated_rtt s)) =
     deviation_of (estimated_rtt s) (dev_rtt s) (current_rtt s)"
  "current_rtt (snd (set_estimated_rtt s)) = current_rtt s"
  "sequence_number (snd (set_estimated_rtt s)) = sequence_number s"
  "expected_sequence_number (snd (set_estimated_rtt s)) = expected_sequence_number s"
  "state (snd (set_estimated_rtt s)) = state s"
  "inbox (snd (set_estimated_rtt s)) = inbox s"
  "send_outcome (snd (set_estimated_rtt s)) = send_outcome s"
  "n_send (snd (set_estimated_rtt s)) = n_send s"
  "clock (snd (set_estimated_rtt s)) = clock s"
  "n_clock (snd (set_estimated_rtt s)) = n_clock s"
  "rejects_timeout (snd (set_estimated_rtt s)) = rejects_timeout s"
  "syscall_fails (snd (set_estimated_rtt s)) = syscall_fails s"
  "errno (snd (set_estimated_rtt s)) = errno s"
  "sends_of (trace (snd (set_estimated_rtt s))) = sends_of (trace s)"
  by (simp_all add: set_estimated_rtt_eq set_timeout_length_def perror_def)

lemma perrors_set_estimated_rtt:
  "perrors_of (trace (snd (set_estimated_rtt s))) =
     perrors_of (trace s) @ (if rejects_timeout s (estimator_timeout s) then [''setsockopt''] else [])"
  by (simp add: estimator_timeout_eq set_estimated_rtt_eq set_timeout_length_def perror_def)

lemma timeouts_set_estimated_rtt:
  "timeouts_of (trace (snd (set_estimated_rtt s))) =
     timeouts_of (trace s) @ (if rejects_timeout s (estimator_timeout s) then [] else [estimator_timeout s])"
  by (simp add: estimator_timeout_eq set_estimated_rtt_eq set_timeout_length_def perror_def)

lemma rcv_timeout_set_estimated_rtt:
  "\<not> rejects_timeout s (estimator_timeout s) \<Longrightarrow>
   rcv_timeout (snd (set_estimated_rtt s)) = estimator_timeout s"
  by (simp add: estimator_timeout_eq set_estimated_rtt_eq set_timeout_length_def)

lemma sends_at_reply:
  "sends_of (trace (at_reply seg T k s)) = sends_of (trace s) @ replicate (Suc k) seg"
  by (simp add: at_reply_def sends_before_reply replicate_append_same)

lemma perrors_at_reply:
  "perrors_of (trace (at_reply seg T k s)) =
     perrors_of (trace s)
     @ map (\<lambda>i. ''reliable_send send'')
         (filter (\<lambda>i. send_outcome s (n_send s + i) \<noteq> 0) [0..<Suc k])"
  by (simp add: at_reply_def perrors_before_reply)

lemma timeouts_at_reply:
  "timeouts_of (trace (at_reply seg T k s)) =
     timeouts_of (trace s) @ map (\<lambda>i. 2 ^ i * T) [0..<Suc k]"
  by (simp add: at_reply_def timeouts_before_reply del: upt_Suc)

lemma timeout_after_eq:
  "timeout_after k s =
     word_of_int
       (estimated_rtt (snd (set_estimated_rtt
          (s\<lparr>current_rtt := clock s (n_clock s + k + 1) - clock s (n_clock s + k)\<rparr>)))
        + 4 * dev_rtt (snd (set_estimated_rtt
          (s\<lparr>current_rtt := clock s (n_clock s + k + 1) - clock s (n_clock s + k)\<rparr>))))"
  by (simp only: timeout_after_def estimator_timeout_def)

lemma reliable_send_after_timeouts:
  assumes "inbox s = replicate k (Recv_errno EAGAIN) @ Datagram dg # rest"
    and "T = word_of_int (estimated_rtt s + 4 * dev_rtt s)"
    and "sample = clock s (n_clock s + k + 1) - clock s (n_clock s + k)"
    and "u = snd (set_estimated_rtt (s\<lparr>current_rtt := sample\<rparr>))"
    and "T' = word_of_int (estimated_rtt u + 4 * dev_rtt u)"
    and "\<forall>t\<in>set (map (\<lambda>i. 2 ^ i * T) [0..<Suc k] @ [T']). \<not> rejects_timeout s t"
    and "s' = snd (reliable_send seg s)"
  shows "fst (reliable_send seg s) = Inr (recv_buffer dg)
     \<and> sends_of (trace s') = sends_of (trace s) @ replicate (Suc k) seg
     \<and> timeouts_of (trace s') = timeouts_of (trace s) @ map (\<lambda>i. 2 ^ i * T) [0..<Suc k] @ [T']
     \<and> current_rtt s' = sample
     \<and> estimated_rtt s' = estimated_rtt u
     \<and> dev_rtt s' = dev_rtt u
     \<and> inbox s' = rest"
proof -
  have T': "T' = timeout_after k s"
    by (simp only: assms(3,4,5) timeout_after_eq)
  from assms(6) have acc: "\<forall>i\<le>k. \<not> rejects_timeout s (2 ^ i * T)"
    by (auto simp: less_Suc_eq_le simp del: upt_Suc)
  from assms(6) have acc': "\<not> rejects_timeout s (timeout_after k s)"
    by (simp add: T' del: upt_Suc)
  note run = reliable_send_reply [OF assms(1) acc assms(2) acc', of seg]
  have et: "estimator_timeout (at_reply seg T k s) = T'"
    by (simp only: estimator_timeout_at_reply T')
  have r: "\<not> rejects_timeout (at_reply seg T k s) T'"
    using acc' by (simp add: T')
  show ?thesis
    unfolding assms(7) run
    using assms(1) r
    by (simp add: assms(3,4) sends_at_reply timeouts_set_estimated_rtt timeouts_at_reply et
             del: upt_Suc)
qed

text \<open>Without a reply the estimator is not touched, whatever \<^verbatim>\<open>setsockopt\<close> does.\<close>

lemma rs_loop_estimator:
  "estimated_rtt (snd (reliable_send_loop seg p d s)) = estimated_rtt s
   \<and> dev_rtt (snd (reliable_send_loop seg p d s)) = dev_rtt s
   \<and> (\<forall>buf. fst (reliable_send_loop seg p d s) = Inr buf \<longrightarrow> (\<exists>dg. Datagram dg \<in> set (inbox s)))"
proof (induction "inbox s" arbitrary: s p d)
  case Nil
  then have ib: "inbox s = []" by simp
  show ?case by (simp add: rs_loop_Starved [OF ib])
next
  case (Cons r rest)
  then have ib: "inbox s = r # rest" by simp
  show ?case
  proof (cases r)
    case (Datagram dg)
    with ib have ib': "inbox s = Datagram dg # rest" by simp
    show ?thesis by (simp add: rs_loop_Datagram [OF ib']) (auto simp: ib')
  next
    case (Recv_errno e)
    show ?thesis
    proof (cases "e = EAGAIN")
      case False
      from ib Recv_errno have ib': "inbox s = Recv_errno e # rest" by simp
      show ?thesis by (simp add: rs_loop_error [OF ib' False] perror_def)
    next
      case True
      with ib Recv_errno have ib': "inbox s = Recv_errno EAGAIN # rest" by simp
      let ?D = "if p then d * 2 else word_of_int (2 * (estimated_rtt s + 4 * dev_rtt s)) :: 32 word"
      show ?thesis
      proof (cases "rejects_timeout s ?D")
        case True
        then show ?thesis
          by (simp add: rs_loop_timeout [OF ib'] Let_def set_timeout_length_def perror_def)
      next
        case False
        let ?s5 = "timeout_step seg ?D s"
        have step: "reliable_send_loop seg p d s = reliable_send_loop seg True ?D ?s5"
          by (rule rs_loop_timeout_step [OF ib' False])
        have ib5: "rest = inbox ?s5" using ib' by simp
        from Cons.hyps(1) [OF ib5, of True ?D] show ?thesis
          unfolding step by (simp add: ib')
      qed
    qed
  qed
qed

lemma reliable_send_no_reply:
  assumes "inbox s = replicate n (Recv_errno EAGAIN)"
  shows "estimated_rtt (snd (reliable_send seg s)) = estimated_rtt s
     \<and> dev_rtt (snd (reliable_send seg s)) = dev_rtt s"
proof (cases "rejects_timeout s (word_of_int (estimated_rtt s + 4 * dev_rtt s))")
  case True
  then show ?thesis by (simp add: reliable_send_refused_at_once perror_def)
next
  case False
  let ?T = "word_of_int (estimated_rtt s + 4 * dev_rtt s) :: 32 word"
  let ?s1 = "s\<lparr>rcv_timeout := ?T, trace := trace s @ [Set_timeout ?T]\<rparr>"
  obtain r2 s2 where l: "reliable_send_loop seg False 0 ?s1 = (r2, s2)" by force
  note fr = rs_loop_estimator [of seg False 0 ?s1, unfolded l fst_conv snd_conv]
  have "\<not> (\<exists>dg. Datagram dg \<in> set (inbox ?s1))" using assms by simp
  with fr obtain e where e: "r2 = Inl e" by (cases r2) auto
  have st: "set_timeout_length ?T s = (Inr (), ?s1)"
    using False by (simp add: set_timeout_length_def)
  have "reliable_send seg s = (Inl e, s2)"
    unfolding reliable_send_def by (simp only: st l e prod.case sum.case)
  with fr show ?thesis by simp
qed

lemma reliable_send_outcome:
  assumes "inbox s = replicate k (Recv_errno EAGAIN) @ r # rest"
    and "r \<noteq> Recv_errno EAGAIN"
    and "T = word_of_int (estimated_rtt s + 4 * dev_rtt s)"
    and "applied = map (\<lambda>i. 2 ^ i * T) [0..<Suc k]
                   @ (case r of Datagram dg \<Rightarrow> [timeout_after k s] | Recv_errno e \<Rightarrow> [])"
    and "\<forall>t\<in>set applied. \<not> rejects_timeout s t"
    and "s' = snd (reliable_send seg s)"
  shows "fst (reliable_send seg s) =
       (case r of Datagram dg \<Rightarrow> Inr (recv_buffer dg) | Recv_errno e \<Rightarrow> Inl EXIT_FAILURE)
     \<and> sends_of (trace s') = sends_of (trace s) @ replicate (Suc k) seg
     \<and> perrors_of (trace s') =
         perrors_of (trace s)
         @ map (\<lambda>i. ''reliable_send send'')
             (filter (\<lambda>i. send_outcome s (n_send s + i) \<noteq> 0) [0..<Suc k])
         @ (case r of Datagram dg \<Rightarrow> [] | Recv_errno e \<Rightarrow> [''ACK not received''])
     \<and> timeouts_of (trace s') = timeouts_of (trace s) @ applied
     \<and> inbox s' = rest"
proof -
  from assms(5) have acc: "\<forall>i\<le>k. \<not> rejects_timeout s (2 ^ i * T)"
    unfolding assms(4) by (auto simp: less_Suc_eq_le simp del: upt_Suc)
  show ?thesis
  proof (cases r)
    case (Datagram dg)
    from assms(5) have acc': "\<not> rejects_timeout s (timeout_after k s)"
      unfolding assms(4) Datagram by (simp del: upt_Suc)
    then have r: "\<not> rejects_timeout (at_reply seg T k s) (estimator_timeout (at_reply seg T k s))"
      by (simp add: estimator_timeout_at_reply)
    note run = reliable_send_reply [OF assms(1) [unfolded Datagram] acc assms(3) acc', of seg]
    show ?thesis
      unfolding assms(6) run assms(4) Datagram
      using r
      by (simp add: sends_at_reply perrors_set_estimated_rtt perrors_at_reply assms(1) Datagram
                    timeouts_set_estimated_rtt timeouts_at_reply estimator_timeout_at_reply
               del: upt_Suc)
  next
    case (Recv_errno e)
    with assms(2) have e: "e \<noteq> EAGAIN" by simp
    note run = reliable_send_fatal [OF assms(1) [unfolded Recv_errno] e acc assms(3), of seg]
    show ?thesis
      unfolding assms(6) run assms(4) Recv_errno
      by (simp add: perror_def sends_before_reply perrors_before_reply timeouts_before_reply
                    replicate_append_same)
  qed
qed

lemma reliable_send_refused_run:
  assumes "inbox s = replicate (Suc j) (Recv_errno EAGAIN) @ rest"
    and "T = word_of_int (estimated_rtt s + 4 * dev_rtt s)"
    and "\<forall>i\<le>j. \<not> rejects_timeout s (2 ^ i * T)"
    and "rejects_timeout s (2 ^ Suc j * T)"
    and "s' = snd (reliable_send seg s)"
  shows "fst (reliable_send seg s) = Inl EXIT_FAILURE
     \<and> sends_of (trace s') = sends_of (trace s) @ replicate (Suc j) seg
     \<and> timeouts_of (trace s') = timeouts_of (trace s) @ map (\<lambda>i. 2 ^ i * T) [0..<Suc j]
     \<and> perrors_of (trace s') =
         perrors_of (trace s)
         @ map (\<lambda>i. ''reliable_send send'')
             (filter (\<lambda>i. send_outcome s (n_send s + i) \<noteq> 0) [0..<Suc j])
         @ [''setsockopt'']
     \<and> inbox s' = rest"
proof -
  from assms(1) have ib: "inbox s = replicate j (Recv_errno EAGAIN) @ Recv_errno EAGAIN # rest"
    by (simp add: replicate_app_Cons_same)
  note run = reliable_send_refused [OF ib assms(3,4,2), of seg]
  show ?thesis
    unfolding assms(5) run
    by (simp add: perror_def sends_before_reply perrors_before_reply timeouts_before_reply
                  replicate_append_same)
qed

subsection \<open>A system that refuses negative timeouts\<close>

text \<open>
  \<^verbatim>\<open>set_timeout_length\<close> hands its \<^verbatim>\<open>uint32_t\<close> to \<^verbatim>\<open>msec_to_timeval(int millis, ...)\<close>.
  A value from \<open>2 ^ 31\<close> up is a negative \<^verbatim>\<open>int\<close> and gives a negative \<^verbatim>\<open>timeval\<close>,
  which \<^verbatim>\<open>setsockopt\<close> refuses.  \<open>opened\<close> is a socket just constructed on such a
  system.
\<close>

definition refuses_negative :: "32 word \<Rightarrow> bool" where
  "refuses_negative t \<longleftrightarrow> 2 ^ 31 \<le> t"

definition opened :: ReliableSocket where
  "opened = fresh\<lparr>rejects_timeout := refuses_negative\<rparr>"

lemma opened_fields:
  "sequence_number opened = 0" "estimated_rtt opened = 100" "dev_rtt opened = 10"
  "current_rtt opened = 0" "state opened = INIT" "inbox opened = []" "trace opened = []"
  "rejects_timeout opened = refuses_negative" "send_outcome opened n = 0" "n_send opened = 0"
  "n_clock opened = 0" "clock opened n = 1000 + 40 * int n" "syscall_fails opened c = False"
  "errno opened = 0"
  by (simp_all add: opened_def fresh_fields)

lemma doubling_140: "map (\<lambda>i. 2 ^ i * (140 :: 32 word)) [0..<Suc 3] = [140, 280, 560, 1120]"
  by (simp add: upt_rec)

lemma doubling_140_accepted:
  assumes "i \<le> 23"
  shows "\<not> refuses_negative (2 ^ i * 140)"
proof -
  from assms have "(2 :: nat) ^ i \<le> 2 ^ 23" by (intro power_increasing) simp_all
  then have "2 ^ i * (140 :: nat) \<le> 2 ^ 23 * 140" by (rule mult_right_mono) simp
  then have b: "2 ^ i * (140 :: nat) < 2 ^ 31" by simp
  then have "2 ^ i * unat (140 :: 32 word) < 2 ^ 32" by simp
  from unat_doubling [OF this] have "unat (2 ^ i * (140 :: 32 word)) = 2 ^ i * 140" by simp
  with b have "unat (2 ^ i * (140 :: 32 word)) < unat (2 ^ 31 :: 32 word)" by simp
  then have "2 ^ i * (140 :: 32 word) < 2 ^ 31" by (simp only: word_less_nat_alt)
  then show ?thesis by (simp add: refuses_negative_def not_le)
qed

lemma doubling_140_refused: "refuses_negative (2 ^ Suc 23 * 140)"
  by (simp add: refuses_negative_def)

lemma doubling_140_last: "2 ^ 23 * (140 :: 32 word) = 1174405120"
  by simp

section \<open>Timeouts in \<^verbatim>\<open>reliable_send\<close>\<close>

text \<open>
  The peer never answers: three receives time out, and 24 of them.
\<close>

definition silent_peer :: ReliableSocket where
  "silent_peer = opened\<lparr>inbox := replicate 3 (Recv_errno EAGAIN)\<rparr>"

definition stalled :: ReliableSocket where
  "stalled = opened\<lparr>inbox := replicate (Suc 23) (Recv_errno EAGAIN)\<rparr>"

lemma doubling_140_fits:
  "\<forall>t\<in>set (map (\<lambda>i. 2 ^ i * (140 :: 32 word)) [0..<Suc 3]). \<not> refuses_negative t"
  by (simp only: doubling_140) (simp add: refuses_negative_def)

lemma silent_peer_fields:
  "inbox silent_peer = replicate 3 (Recv_errno EAGAIN)"
  "word_of_int (estimated_rtt silent_peer + 4 * dev_rtt silent_peer) = (140 :: 32 word)"
  "\<forall>t\<in>set (map (\<lambda>i. 2 ^ i * (140 :: 32 word)) [0..<Suc 3]). \<not> rejects_timeout silent_peer t"
  "trace silent_peer = []"
  using doubling_140_fits
  by (simp_all add: silent_peer_def opened_fields del: upt_Suc)

lemma stalled_fields:
  "inbox stalled = replicate (Suc 23) (Recv_errno EAGAIN) @ []"
  "word_of_int (estimated_rtt stalled + 4 * dev_rtt stalled) = (140 :: 32 word)"
  "\<forall>i\<le>23. \<not> rejects_timeout stalled (2 ^ i * 140)"
  "rejects_timeout stalled (2 ^ Suc 23 * 140)"
  "trace stalled = []" "send_outcome stalled n = 0"
  using doubling_140_accepted doubling_140_refused
  by (simp_all add: stalled_def opened_fields)

lemma last_doubled: "last (map f [0..<Suc n]) = f n"
  by simp

lemma stalled_observed:
  assumes "sends_of (trace S) = sends_of (trace stalled) @ replicate (Suc 23) [1, 2, 3]"
    and "timeouts_of (trace S)
         = timeouts_of (trace stalled) @ map (\<lambda>i. 2 ^ i * 140) [0..<Suc 23]"
    and "perrors_of (trace S)
         = perrors_of (trace stalled)
           @ map (\<lambda>i. ''reliable_send send'')
               (filter (\<lambda>i. send_outcome stalled (n_send stalled + i) \<noteq> 0) [0..<Suc 23])
           @ [''setsockopt'']"
  shows "sends_of (trace S) = replicate 24 [1, 2, 3]
     \<and> last (timeouts_of (trace S)) = 1174405120
     \<and> perrors_of (trace S) = [''setsockopt'']"
proof -
  have s: "sends_of (trace S) = replicate 24 [1, 2, 3]"
    unfolding assms(1) by (simp add: stalled_fields(5))
  have t: "last (timeouts_of (trace S)) = 1174405120"
    unfolding assms(2)
    by (simp only: stalled_fields(5) timeouts_of.simps append_Nil last_doubled doubling_140_last)
  have p: "perrors_of (trace S) = [''setsockopt'']"
    unfolding assms(3) by (simp add: stalled_fields(5,6) del: upt_Suc)
  from s t p show ?thesis by blast
qed

lemma stalled_input: "inbox stalled = replicate 24 (Recv_errno EAGAIN)"
  by (simp add: stalled_def)

lemma stalled_run:
  "fst (reliable_send [1, 2, 3] stalled) = Inl EXIT_FAILURE
   \<and> sends_of (trace (snd (reliable_send [1, 2, 3] stalled))) = replicate 24 [1, 2, 3]
   \<and> last (timeouts_of (trace (snd (reliable_send [1, 2, 3] stalled)))) = 1174405120
   \<and> perrors_of (trace (snd (reliable_send [1, 2, 3] stalled))) = [''setsockopt'']"
proof -
  note run = reliable_send_refused_run
               [OF stalled_fields(1) stalled_fields(2) [symmetric] stalled_fields(3,4) refl,
                of "[1, 2, 3]"]
  from run stalled_observed [of "snd (reliable_send [1, 2, 3] stalled)"]
  show ?thesis by blast
qed

text \<open>
  C5, as the code has it.  While the receives of a call of \<^verbatim>\<open>reliable_send\<close> time out,
  the same segment is transmitted again and the timeout applied is twice the one applied
  last: \<open>T\<close>, the estimator's timeout, then \<open>2 * T\<close>, \<open>4 * T\<close>, in \<^verbatim>\<open>uint32_t\<close>
  arithmetic.
  \<^item> If \<^verbatim>\<open>setsockopt\<close> accepts these timeouts up to \<open>2 ^ n * T\<close>, then after \<open>n\<close>
    timeouts the segment has been transmitted \<open>n + 1\<close> times, the estimator is untouched,
    and the call is waiting in \<^verbatim>\<open>recv\<close> once more.  The timeout is the number
    \<open>2 ^ n * T\<close> itself as long as that is below \<open>2 ^ 32\<close>.
  \<^item> The first doubled timeout that \<^verbatim>\<open>setsockopt\<close> refuses ends the call: if that is
    \<open>2 ^ (j + 1) * T\<close>, the call reports \<^verbatim>\<open>perror("setsockopt")\<close> and exits after
    \<open>j + 1\<close> transmissions and as many timeouts.  So timeouts are retried only as long
    as the doubled timeout is accepted.
\<close>

theorem reliable_send_doubles_timeout:
  assumes "inbox s = replicate n (Recv_errno EAGAIN)"
    and "T = word_of_int (estimated_rtt s + 4 * dev_rtt s)"
    and "\<forall>t\<in>set (map (\<lambda>i. 2 ^ i * T) [0..<Suc n]). \<not> rejects_timeout s t"
    and "s' = snd (reliable_send seg s)"
  shows "fst (reliable_send seg s) = Inl Starved
     \<and> sends_of (trace s') = sends_of (trace s) @ replicate (Suc n) seg
     \<and> timeouts_of (trace s') = timeouts_of (trace s) @ map (\<lambda>i. 2 ^ i * T) [0..<Suc n]
     \<and> rcv_timeout s' = 2 ^ n * T
     \<and> estimated_rtt s' = estimated_rtt s \<and> dev_rtt s' = dev_rtt s
     \<and> (2 ^ n * unat T < 2 ^ 32 \<longrightarrow> unat (rcv_timeout s') = 2 ^ n * unat T)
     \<and> (\<forall>u U j rest.
          inbox u = replicate (Suc j) (Recv_errno EAGAIN) @ rest
        \<and> U = word_of_int (estimated_rtt u + 4 * dev_rtt u)
        \<and> (\<forall>i\<le>j. \<not> rejects_timeout u (2 ^ i * U))
        \<and> rejects_timeout u (2 ^ Suc j * U) \<longrightarrow>
          fst (reliable_send seg u) = Inl EXIT_FAILURE
        \<and> sends_of (trace (snd (reliable_send seg u))) = sends_of (trace u) @ replicate (Suc j) seg
        \<and> timeouts_of (trace (snd (reliable_send seg u)))
            = timeouts_of (trace u) @ map (\<lambda>i. 2 ^ i * U) [0..<Suc j]
        \<and> perrors_of (trace (snd (reliable_send seg u)))
            = perrors_of (trace u)
              @ map (\<lambda>i. ''reliable_send send'')
                  (filter (\<lambda>i. send_outcome u (n_send u + i) \<noteq> 0) [0..<Suc j])
              @ [''setsockopt'']
        \<and> inbox (snd (reliable_send seg u)) = rest)"
proof -
  from assms(3) have acc: "\<forall>i\<le>n. \<not> rejects_timeout s (2 ^ i * T)"
    by (simp only: doubled_accepted)
  note run = reliable_send_starved [OF assms(1) acc assms(2), of seg]
  have main: "fst (reliable_send seg s) = Inl Starved
     \<and> sends_of (trace s') = sends_of (trace s) @ replicate (Suc n) seg
     \<and> timeouts_of (trace s') = timeouts_of (trace s) @ map (\<lambda>i. 2 ^ i * T) [0..<Suc n]
     \<and> rcv_timeout s' = 2 ^ n * T
     \<and> estimated_rtt s' = estimated_rtt s \<and> dev_rtt s' = dev_rtt s"
    unfolding assms(4) run
    by (simp add: sends_before_reply timeouts_before_reply rcv_timeout_before_reply
                  replicate_append_same del: upt_Suc)
  then have "rcv_timeout s' = 2 ^ n * T" by blast
  then have size: "2 ^ n * unat T < 2 ^ 32 \<longrightarrow> unat (rcv_timeout s') = 2 ^ n * unat T"
    using unat_doubling [of n T] by (simp only:) blast
  have refused: "fst (reliable_send seg u) = Inl EXIT_FAILURE
        \<and> sends_of (trace (snd (reliable_send seg u))) = sends_of (trace u) @ replicate (Suc j) seg
        \<and> timeouts_of (trace (snd (reliable_send seg u)))
            = timeouts_of (trace u) @ map (\<lambda>i. 2 ^ i * U) [0..<Suc j]
        \<and> perrors_of (trace (snd (reliable_send seg u)))
            = perrors_of (trace u)
              @ map (\<lambda>i. ''reliable_send send'')
                  (filter (\<lambda>i. send_outcome u (n_send u + i) \<noteq> 0) [0..<Suc j])
              @ [''setsockopt'']
        \<and> inbox (snd (reliable_send seg u)) = rest"
    if "inbox u = replicate (Suc j) (Recv_errno EAGAIN) @ rest"
      "U = word_of_int (estimated_rtt u + 4 * dev_rtt u)"
      "\<forall>i\<le>j. \<not> rejects_timeout u (2 ^ i * U)"
      "rejects_timeout u (2 ^ Suc j * U)" for u U j rest
    using reliable_send_refused_run [OF that refl] .
  from main size refused show ?thesis by blast
qed

theorem reliable_send_doubles_timeout_witness:
  "inbox silent_peer = replicate 3 (Recv_errno EAGAIN)
   \<and> fst (reliable_send [1, 2, 3] silent_peer) = Inl Starved
   \<and> sends_of (trace (snd (reliable_send [1, 2, 3] silent_peer)))
       = [[1, 2, 3], [1, 2, 3], [1, 2, 3], [1, 2, 3]]
   \<and> timeouts_of (trace (snd (reliable_send [1, 2, 3] silent_peer))) = [140, 280, 560, 1120]
   \<and> rcv_timeout (snd (reliable_send [1, 2, 3] silent_peer)) = 1120
   \<and> inbox stalled = replicate 24 (Recv_errno EAGAIN)
   \<and> fst (reliable_send [1, 2, 3] stalled) = Inl EXIT_FAILURE
   \<and> sends_of (trace (snd (reliable_send [1, 2, 3] stalled))) = replicate 24 [1, 2, 3]
   \<and> last (timeouts_of (trace (snd (reliable_send [1, 2, 3] stalled)))) = 1174405120
   \<and> perrors_of (trace (snd (reliable_send [1, 2, 3] stalled))) = [''setsockopt'']"
proof -
  have r: "replicate (Suc 3) [1, 2, 3 :: byte] = [[1, 2, 3], [1, 2, 3], [1, 2, 3], [1, 2, 3]]"
    by (simp add: numeral_3_eq_3)
  have p: "2 ^ 3 * (140 :: 32 word) = 1120" by simp
  note all = reliable_send_doubles_timeout
         [OF silent_peer_fields(1) silent_peer_fields(2) [symmetric] silent_peer_fields(3) refl,
          of "[1, 2, 3]"]
  from all have a:
    "fst (reliable_send [1, 2, 3] silent_peer) = Inl Starved
     \<and> sends_of (trace (snd (reliable_send [1, 2, 3] silent_peer)))
         = [[1, 2, 3], [1, 2, 3], [1, 2, 3], [1, 2, 3]]
     \<and> timeouts_of (trace (snd (reliable_send [1, 2, 3] silent_peer))) = [140, 280, 560, 1120]
     \<and> rcv_timeout (snd (reliable_send [1, 2, 3] silent_peer)) = 1120"
    by (simp only: silent_peer_fields(4) doubling_140 r p sends_of.simps timeouts_of.simps
                   append_Nil simp_thms)
  from all stalled_fields(1,3,4) stalled_fields(2) [symmetric] have b:
    "fst (reliable_send [1, 2, 3] stalled) = Inl EXIT_FAILURE
     \<and> sends_of (trace (snd (reliable_send [1, 2, 3] stalled)))
         = sends_of (trace stalled) @ replicate (Suc 23) [1, 2, 3]
     \<and> timeouts_of (trace (snd (reliable_send [1, 2, 3] stalled)))
         = timeouts_of (trace stalled) @ map (\<lambda>i. 2 ^ i * 140) [0..<Suc 23]
     \<and> perrors_of (trace (snd (reliable_send [1, 2, 3] stalled)))
         = perrors_of (trace stalled)
           @ map (\<lambda>i. ''reliable_send send'')
               (filter (\<lambda>i. send_outcome stalled (n_send stalled + i) \<noteq> 0) [0..<Suc 23])
           @ [''setsockopt'']"
    by blast
  from b stalled_observed [of "snd (reliable_send [1, 2, 3] stalled)"] have c:
    "fst (reliable_send [1, 2, 3] stalled) = Inl EXIT_FAILURE
     \<and> sends_of (trace (snd (reliable_send [1, 2, 3] stalled))) = replicate 24 [1, 2, 3]
     \<and> last (timeouts_of (trace (snd (reliable_send [1, 2, 3] stalled)))) = 1174405120
     \<and> perrors_of (trace (snd (reliable_send [1, 2, 3] stalled))) = [''setsockopt'']"
    by blast
  note i = stalled_input
  from a c i silent_peer_fields(1) show ?thesis by (simp only: simp_thms)
qed

text \<open>
  C5 as stated fails: timeouts do end the call.  On a socket whose estimator asks for
  140 ms, the doubled timeout after the 24th timeout is \<open>2 ^ 24 * 140\<close>, more than
  \<open>2 ^ 31\<close>; \<^verbatim>\<open>setsockopt\<close> refuses it and the call exits.
\<close>

theorem reliable_send_doubles_timeout_counterexample:
  "inbox stalled = replicate 24 (Recv_errno EAGAIN)
   \<and> fst (reliable_send [1, 2, 3] stalled) = Inl EXIT_FAILURE
   \<and> sends_of (trace (snd (reliable_send [1, 2, 3] stalled))) = replicate 24 [1, 2, 3]
   \<and> last (timeouts_of (trace (snd (reliable_send [1, 2, 3] stalled)))) = 1174405120
   \<and> perrors_of (trace (snd (reliable_send [1, 2, 3] stalled))) = [''setsockopt'']"
  using stalled_run stalled_input by (simp only: simp_thms)

text \<open>
  A socket whose peer answers only after the first timeout; the datagram is a SYNACK
  header.  And one whose peer has not answered yet, after two timeouts.
\<close>

definition late_reply :: ReliableSocket where
  "late_reply =
     opened\<lparr>inbox := [Recv_errno EAGAIN,
                       Datagram (hdr_bytes \<lparr>h_sequence_number = 0, h_ack_number = 0,
                                            h_type = RDT_SYNACK\<rparr>)]\<rparr>"

definition no_reply :: ReliableSocket where
  "no_reply = opened\<lparr>inbox := [Recv_errno EAGAIN, Recv_errno EAGAIN]\<rparr>"

lemma estimate_of_100_40: "estimate_of 100 40 = 92"
  by (simp add: estimate_of_def c_trunc_def)

lemma deviation_of_100_10_40: "deviation_of 100 10 40 = 20"
  by (simp add: deviation_of_def estimate_of_100_40 c_trunc_def)

lemma late_reply_fields:
  "inbox late_reply =
     replicate 1 (Recv_errno EAGAIN)
     @ Datagram (hdr_bytes \<lparr>h_sequence_number = 0, h_ack_number = 0, h_type = RDT_SYNACK\<rparr>) # []"
  "word_of_int (estimated_rtt late_reply + 4 * dev_rtt late_reply) = (140 :: 32 word)"
  "clock late_reply (n_clock late_reply + 1 + 1) - clock late_reply (n_clock late_reply + 1) = 40"
  "estimated_rtt late_reply = 100" "dev_rtt late_reply = 10" "trace late_reply = []"
  "rejects_timeout late_reply = refuses_negative"
  by (simp_all add: late_reply_def opened_fields)

lemma late_reply_estimator:
  "estimated_rtt (snd (set_estimated_rtt (late_reply\<lparr>current_rtt := 40\<rparr>))) = 92"
  "dev_rtt (snd (set_estimated_rtt (late_reply\<lparr>current_rtt := 40\<rparr>))) = 20"
  "word_of_int (estimated_rtt (snd (set_estimated_rtt (late_reply\<lparr>current_rtt := 40\<rparr>)))
                + 4 * dev_rtt (snd (set_estimated_rtt (late_reply\<lparr>current_rtt := 40\<rparr>))))
   = (172 :: 32 word)"
  by (simp_all add: late_reply_fields estimate_of_100_40 deviation_of_100_10_40)

lemma late_reply_timeouts:
  "map (\<lambda>i. 2 ^ i * (140 :: 32 word)) [0..<Suc 1] @ [172] = [140, 280, 172]"
  "\<forall>t\<in>set (map (\<lambda>i. 2 ^ i * (140 :: 32 word)) [0..<Suc 1] @ [172]).
      \<not> rejects_timeout late_reply t"
  by (simp_all add: late_reply_fields(7) refuses_negative_def)

lemma no_reply_fields:
  "inbox no_reply = replicate 2 (Recv_errno EAGAIN)"
  "estimated_rtt no_reply = 100" "dev_rtt no_reply = 10"
  by (simp_all add: no_reply_def opened_fields numeral_2_eq_2)

text \<open>
  C4, as the code has it.  Every call of \<^verbatim>\<open>reliable_send\<close> that receives a reply feeds
  one sample to the estimator, whether or not the segment timed out and was
  retransmitted before the reply came: after \<open>k\<close> timeouts (any \<open>k\<close>, zero included)
  and \<open>k + 1\<close> transmissions, the sample is the time between the last transmission and
  the reply, the estimate and the deviation are those \<^verbatim>\<open>set_estimated_rtt\<close>
  computes from it, and the estimator's new timeout \<open>T'\<close> is applied once.  The only
  timeouts that have to be accepted are those the call applies: \<open>T\<close>, its doubles up to
  \<open>2 ^ k * T\<close>, and \<open>T'\<close>.

  And as long as every receive times out, no sample is fed: the estimate and the
  deviation stay what they were, whatever \<^verbatim>\<open>setsockopt\<close> accepts.
\<close>

theorem reliable_send_samples_every_reply:
  assumes "inbox s = replicate k (Recv_errno EAGAIN) @ Datagram dg # rest"
    and "T = word_of_int (estimated_rtt s + 4 * dev_rtt s)"
    and "sample = clock s (n_clock s + k + 1) - clock s (n_clock s + k)"
    and "u = snd (set_estimated_rtt (s\<lparr>current_rtt := sample\<rparr>))"
    and "T' = word_of_int (estimated_rtt u + 4 * dev_rtt u)"
    and "\<forall>t\<in>set (map (\<lambda>i. 2 ^ i * T) [0..<Suc k] @ [T']). \<not> rejects_timeout s t"
    and "s' = snd (reliable_send seg s)"
  shows "fst (reliable_send seg s) = Inr (recv_buffer dg)
     \<and> sends_of (trace s') = sends_of (trace s) @ replicate (Suc k) seg
     \<and> timeouts_of (trace s') = timeouts_of (trace s) @ map (\<lambda>i. 2 ^ i * T) [0..<Suc k] @ [T']
     \<and> current_rtt s' = sample
     \<and> estimated_rtt s' = estimated_rtt u
     \<and> dev_rtt s' = dev_rtt u
     \<and> (\<forall>v n. inbox v = replicate n (Recv_errno EAGAIN) \<longrightarrow>
            estimated_rtt (snd (reliable_send seg v)) = estimated_rtt v
          \<and> dev_rtt (snd (reliable_send seg v)) = dev_rtt v)"
proof -
  note run = reliable_send_after_timeouts [OF assms]
  have "estimated_rtt (snd (reliable_send seg v)) = estimated_rtt v
          \<and> dev_rtt (snd (reliable_send seg v)) = dev_rtt v"
    if "inbox v = replicate n (Recv_errno EAGAIN)" for v n
    using that by (rule reliable_send_no_reply)
  with run show ?thesis by blast
qed

theorem reliable_send_samples_every_reply_witness:
  "inbox late_reply =
     [Recv_errno EAGAIN,
      Datagram (hdr_bytes \<lparr>h_sequence_number = 0, h_ack_number = 0, h_type = RDT_SYNACK\<rparr>)]
   \<and> sends_of (trace (snd (reliable_send [1, 2, 3] late_reply))) = [[1, 2, 3], [1, 2, 3]]
   \<and> timeouts_of (trace (snd (reliable_send [1, 2, 3] late_reply))) = [140, 280, 172]
   \<and> current_rtt (snd (reliable_send [1, 2, 3] late_reply)) = 40
   \<and> estimated_rtt (snd (reliable_send [1, 2, 3] late_reply)) = 92
   \<and> dev_rtt (snd (reliable_send [1, 2, 3] late_reply)) = 20
   \<and> inbox no_reply = [Recv_errno EAGAIN, Recv_errno EAGAIN]
   \<and> estimated_rtt (snd (reliable_send [1, 2, 3] no_reply)) = 100
   \<and> dev_rtt (snd (reliable_send [1, 2, 3] no_reply)) = 10"
proof -
  have r: "replicate (Suc 1) [1, 2, 3 :: byte] = [[1, 2, 3], [1, 2, 3]]" by simp
  have i: "inbox late_reply =
     [Recv_errno EAGAIN,
      Datagram (hdr_bytes \<lparr>h_sequence_number = 0, h_ack_number = 0, h_type = RDT_SYNACK\<rparr>)]"
    by (simp add: late_reply_fields(1))
  have j: "inbox no_reply = [Recv_errno EAGAIN, Recv_errno EAGAIN]"
    by (simp add: no_reply_def)
  note all = reliable_send_samples_every_reply
         [OF late_reply_fields(1) late_reply_fields(2) [symmetric]
             late_reply_fields(3) [symmetric] refl late_reply_estimator(3) [symmetric]
             late_reply_timeouts(2) refl, of "[1, 2, 3]"]
  from all no_reply_fields(1) have
    "estimated_rtt (snd (reliable_send [1, 2, 3] no_reply)) = estimated_rtt no_reply
     \<and> dev_rtt (snd (reliable_send [1, 2, 3] no_reply)) = dev_rtt no_reply"
    by blast
  with all show ?thesis
    by (simp only: i j r late_reply_estimator(1,2) late_reply_timeouts(1) late_reply_fields(6)
                   no_reply_fields(2,3) sends_of.simps timeouts_of.simps append_Nil simp_thms)
qed

text \<open>
  C4 as stated fails: the first receive times out, the segment is sent again, the reply
  comes, and the estimate moves from 100 to 92 and the deviation from 10 to 20.
\<close>

theorem reliable_send_samples_counterexample:
  "inbox late_reply =
     [Recv_errno EAGAIN,
      Datagram (hdr_bytes \<lparr>h_sequence_number = 0, h_ack_number = 0, h_type = RDT_SYNACK\<rparr>)]
   \<and> sends_of (trace (snd (reliable_send [1, 2, 3] late_reply))) = [[1, 2, 3], [1, 2, 3]]
   \<and> estimated_rtt late_reply = 100
   \<and> estimated_rtt (snd (reliable_send [1, 2, 3] late_reply)) = 92
   \<and> dev_rtt late_reply = 10
   \<and> dev_rtt (snd (reliable_send [1, 2, 3] late_reply)) = 20"
proof -
  have r: "replicate (Suc 1) [1, 2, 3 :: byte] = [[1, 2, 3], [1, 2, 3]]" by simp
  have i: "inbox late_reply =
     [Recv_errno EAGAIN,
      Datagram (hdr_bytes \<lparr>h_sequence_number = 0, h_ack_number = 0, h_type = RDT_SYNACK\<rparr>)]"
    by (simp add: late_reply_fields(1))
  from reliable_send_after_timeouts
         [OF late_reply_fields(1) late_reply_fields(2) [symmetric]
             late_reply_fields(3) [symmetric] refl late_reply_estimator(3) [symmetric]
             late_reply_timeouts(2) refl, of "[1, 2, 3]"]
  show ?thesis
    by (simp only: i r late_reply_estimator(1,2) late_reply_fields(4,5,6) sends_of.simps
                   append_Nil simp_thms)
qed

text \<open>
  The same exchange on a socket every \<^verbatim>\<open>send\<close> of which fails with \<^verbatim>\<open>EPIPE\<close> (32).
\<close>

definition broken_pipe :: ReliableSocket where
  "broken_pipe = late_reply\<lparr>send_outcome := (\<lambda>n. 32)\<rparr>"

lemma broken_pipe_fields:
  "inbox broken_pipe =
     replicate 1 (Recv_errno EAGAIN)
     @ Datagram (hdr_bytes \<lparr>h_sequence_number = 0, h_ack_number = 0, h_type = RDT_SYNACK\<rparr>) # []"
  "Datagram (hdr_bytes \<lparr>h_sequence_number = 0, h_ack_number = 0, h_type = RDT_SYNACK\<rparr>)
     \<noteq> Recv_errno EAGAIN"
  "word_of_int (estimated_rtt broken_pipe + 4 * dev_rtt broken_pipe) = (140 :: 32 word)"
  "trace broken_pipe = []"
  "send_outcome broken_pipe n = 32"
  "rejects_timeout broken_pipe = refuses_negative"
  by (simp_all add: broken_pipe_def late_reply_def opened_fields)

lemma broken_pipe_timeout: "timeout_after 1 broken_pipe = 172"
  by (simp add: timeout_after_def estimator_timeout_eq broken_pipe_def late_reply_def opened_fields
                estimate_of_100_40 deviation_of_100_10_40)

lemma broken_pipe_applied:
  "map (\<lambda>i. 2 ^ i * (140 :: 32 word)) [0..<Suc 1]
   @ (case Datagram (hdr_bytes \<lparr>h_sequence_number = 0, h_ack_number = 0, h_type = RDT_SYNACK\<rparr>)
      of Datagram dg \<Rightarrow> [timeout_after 1 broken_pipe] | Recv_errno e \<Rightarrow> [])
   = [140, 280, 172]"
proof -
  have a: "map (\<lambda>i. 2 ^ i * (140 :: 32 word)) [0..<Suc 1] = [140, 280]" by simp
  show ?thesis by (simp only: a broken_pipe_timeout recv_result.case append.simps)
qed

lemma broken_pipe_accepted: "\<forall>t\<in>set [140, 280, 172]. \<not> rejects_timeout broken_pipe t"
  by (simp add: broken_pipe_fields(6) refuses_negative_def)

lemma broken_pipe_perrors:
  "map (\<lambda>i. ''reliable_send send'')
     (filter (\<lambda>i. send_outcome broken_pipe (n_send broken_pipe + i) \<noteq> 0) [0..<Suc 1])
   = [''reliable_send send'', ''reliable_send send'']"
  by (simp add: broken_pipe_fields)

text \<open>
  C7, as the code has it.  In \<^verbatim>\<open>reliable_send\<close> only a failing \<^verbatim>\<open>recv\<close> can end the
  call.  Let the first result of \<^verbatim>\<open>recv\<close> that is not a timeout come after \<open>k\<close>
  timeouts, and let \<^verbatim>\<open>setsockopt\<close> accept the timeouts the call applies (\<open>T\<close> and its
  doubles up to \<open>2 ^ k * T\<close>, and after a datagram the estimator's new timeout).  If
  that result is an error, the call reports it (\<^verbatim>\<open>perror("ACK not received")\<close>) and
  exits, reading nothing more.  If it is a datagram, the call returns it.  Either way the
  segment was transmitted \<open>k + 1\<close> times, and each \<^verbatim>\<open>send\<close> that failed was reported by
  \<^verbatim>\<open>perror("reliable_send send")\<close> and by nothing else: a transmit failure does not end
  the call and does not change its result.
\<close>

theorem reliable_send_channel_errors:
  assumes "inbox s = replicate k (Recv_errno EAGAIN) @ r # rest"
    and "r \<noteq> Recv_errno EAGAIN"
    and "T = word_of_int (estimated_rtt s + 4 * dev_rtt s)"
    and "applied = map (\<lambda>i. 2 ^ i * T) [0..<Suc k]
                   @ (case r of Datagram dg \<Rightarrow> [timeout_after k s] | Recv_errno e \<Rightarrow> [])"
    and "\<forall>t\<in>set applied. \<not> rejects_timeout s t"
    and "s' = snd (reliable_send seg s)"
  shows "fst (reliable_send seg s) =
       (case r of Datagram dg \<Rightarrow> Inr (recv_buffer dg) | Recv_errno e \<Rightarrow> Inl EXIT_FAILURE)
     \<and> sends_of (trace s') = sends_of (trace s) @ replicate (Suc k) seg
     \<and> perrors_of (trace s') =
         perrors_of (trace s)
         @ map (\<lambda>i. ''reliable_send send'')
             (filter (\<lambda>i. send_outcome s (n_send s + i) \<noteq> 0) [0..<Suc k])
         @ (case r of Datagram dg \<Rightarrow> [] | Recv_errno e \<Rightarrow> [''ACK not received''])
     \<and> timeouts_of (trace s') = timeouts_of (trace s) @ applied
     \<and> inbox s' = rest"
  using assms by (rule reliable_send_outcome)

theorem reliable_send_channel_errors_witness:
  "send_outcome broken_pipe 0 \<noteq> 0 \<and> send_outcome broken_pipe 1 \<noteq> 0
   \<and> fst (reliable_send [1, 2, 3] broken_pipe) =
       Inr (recv_buffer (hdr_bytes \<lparr>h_sequence_number = 0, h_ack_number = 0,
                                    h_type = RDT_SYNACK\<rparr>))
   \<and> sends_of (trace (snd (reliable_send [1, 2, 3] broken_pipe))) = [[1, 2, 3], [1, 2, 3]]
   \<and> perrors_of (trace (snd (reliable_send [1, 2, 3] broken_pipe)))
       = [''reliable_send send'', ''reliable_send send'']
   \<and> timeouts_of (trace (snd (reliable_send [1, 2, 3] broken_pipe))) = [140, 280, 172]
   \<and> inbox (snd (reliable_send [1, 2, 3] broken_pipe)) = []"
proof -
  have r: "replicate (Suc 1) [1, 2, 3 :: byte] = [[1, 2, 3], [1, 2, 3]]" by simp
  have o: "send_outcome broken_pipe 0 \<noteq> 0" "send_outcome broken_pipe 1 \<noteq> 0"
    by (simp_all add: broken_pipe_fields)
  from reliable_send_channel_errors
         [OF broken_pipe_fields(1,2) broken_pipe_fields(3) [symmetric]
             broken_pipe_applied [symmetric] broken_pipe_accepted refl, of "[1, 2, 3]"] o
  show ?thesis
    by (simp only: r broken_pipe_perrors broken_pipe_fields(4) sends_of.simps perrors_of.simps
                   timeouts_of.simps recv_result.case append_Nil append_Nil2 simp_thms)
qed

text \<open>
  C7 as stated fails: both transmissions fail, and the call is not ended by it; it
  transmits again after the timeout and returns the reply.
\<close>

theorem reliable_send_channel_errors_counterexample:
  "send_outcome broken_pipe 0 \<noteq> 0 \<and> send_outcome broken_pipe 1 \<noteq> 0
   \<and> fst (reliable_send [1, 2, 3] broken_pipe) \<noteq> Inl EXIT_FAILURE
   \<and> fst (reliable_send [1, 2, 3] broken_pipe) =
       Inr (recv_buffer (hdr_bytes \<lparr>h_sequence_number = 0, h_ack_number = 0,
                                    h_type = RDT_SYNACK\<rparr>))
   \<and> sends_of (trace (snd (reliable_send [1, 2, 3] broken_pipe))) = [[1, 2, 3], [1, 2, 3]]"
proof -
  have r: "replicate (Suc 1) [1, 2, 3 :: byte] = [[1, 2, 3], [1, 2, 3]]" by simp
  have o: "send_outcome broken_pipe 0 \<noteq> 0" "send_outcome broken_pipe 1 \<noteq> 0"
    by (simp_all add: broken_pipe_fields)
  from reliable_send_outcome
         [OF broken_pipe_fields(1,2) broken_pipe_fields(3) [symmetric]
             broken_pipe_applied [symmetric] broken_pipe_accepted refl, of "[1, 2, 3]"] o
  show ?thesis
    by (simp add: r broken_pipe_fields(4))
qed

section \<open>Headers on the wire and back\<close>

lemma low_byte: "(ucast (ucast x :: byte) :: 32 word) = take_bit 8 x"
  by (rule bit_word_eqI) (simp add: bit_simps)

lemma split_byte: "take_bit 8 x + 256 * drop_bit 8 x = (x :: 32 word)"
  using bits_ident [of 8 x] by (simp add: push_bit_eq_mult ac_simps)

lemma word_le_le32: "word_le (le32 w) = w"
proof -
  have 3: "drop_bit 24 w = take_bit 8 (drop_bit 24 w)"
    using split_byte [of "drop_bit 24 w"] by (simp add: drop_bit_drop_bit)
  have 2: "drop_bit 16 w = take_bit 8 (drop_bit 16 w) + 256 * drop_bit 24 w"
    using split_byte [of "drop_bit 16 w"] by (simp add: drop_bit_drop_bit)
  have 1: "drop_bit 8 w = take_bit 8 (drop_bit 8 w) + 256 * drop_bit 16 w"
    using split_byte [of "drop_bit 8 w"] by (simp add: drop_bit_drop_bit)
  have 0: "w = take_bit 8 w + 256 * drop_bit 8 w"
    using split_byte [of w] by simp
  have "word_le (le32 w) = take_bit 8 w + 256 * (take_bit 8 (drop_bit 8 w)
        + 256 * (take_bit 8 (drop_bit 16 w) + 256 * take_bit 8 (drop_bit 24 w)))"
    by (simp add: le32_def low_byte)
  also have "\<dots> = take_bit 8 w + 256 * (take_bit 8 (drop_bit 8 w)
        + 256 * (take_bit 8 (drop_bit 16 w) + 256 * drop_bit 24 w))"
    using 3 by simp
  also have "\<dots> = take_bit 8 w + 256 * (take_bit 8 (drop_bit 8 w) + 256 * drop_bit 16 w)"
    using 2 by simp
  also have "\<dots> = take_bit 8 w + 256 * drop_bit 8 w"
    using 1 by simp
  also have "\<dots> = w" using 0 by simp
  finally show ?thesis .
qed

lemma length_le32 [simp]: "length (le32 w) = 4"
  by (simp add: le32_def)

lemma hdr_of_segment: "hdr_of (recv_buffer (hdr_bytes h @ payload)) = h"
proof -
  have 1: "take 4 (recv_buffer (hdr_bytes h @ payload)) = le32 (h_sequence_number h)"
    by (simp add: recv_buffer_def hdr_bytes_eq MAX_SEG_SIZE_def)
  have 2: "take 4 (drop 4 (recv_buffer (hdr_bytes h @ payload))) = le32 (h_ack_number h)"
    by (simp add: recv_buffer_def hdr_bytes_eq MAX_SEG_SIZE_def)
  have 3: "recv_buffer (hdr_bytes h @ payload) ! 8 = h_type h"
    by (simp add: recv_buffer_def hdr_bytes_eq MAX_SEG_SIZE_def le32_def)
  show ?thesis
    by (simp add: hdr_of_def 1 2 3 word_le_le32)
qed

lemma payload_of_buffer:
  "take (nat (int (length (take MAX_SEG_SIZE d)) - int sizeof_RDTHeader))
        (drop sizeof_RDTHeader (recv_buffer d))
   = drop sizeof_RDTHeader (take MAX_SEG_SIZE d)"
  by (simp add: recv_buffer_def sizeof_RDTHeader_eq nat_diff_distrib' flip: of_nat_diff)

section \<open>Receiving data\<close>



lemma rd_loop_ignore_ACK:
  "inbox s = Datagram d # rest \<Longrightarrow> h_type (hdr_of (recv_buffer d)) = RDT_ACK \<Longrightarrow>
   receive_data_loop s = receive_data_loop (s\<lparr>inbox := rest\<rparr>)"
  by (subst receive_data_loop.simps) (simp add: os_recv_def)

















section \<open>Closing\<close>

fun closes_of :: "event list \<Rightarrow> nat" where
  "closes_of [] = 0"
| "closes_of (Close_fd # es) = Suc (closes_of es)"
| "closes_of (e # es) = closes_of es"

lemma closes_of_append [simp]: "closes_of (xs @ ys) = closes_of xs + closes_of ys"
  by (induction xs rule: closes_of.induct) simp_all

lemma closes_send_checked [simp]:
  "closes_of (trace (send_checked msg seg s)) = closes_of (trace s)"
  by (simp add: trace_send_checked)

lemma closes_after_timeouts [simp]:
  "closes_of (trace (after_timeouts seg t k s)) = closes_of (trace s)"
  by (induction k) (simp_all add: trace_timeout_step)

lemma closes_before_reply [simp]:
  "closes_of (trace (before_reply seg T k s)) = closes_of (trace s)"
  by (simp add: before_reply_def)

lemma closes_at_reply [simp]:
  "closes_of (trace (at_reply seg T k s)) = closes_of (trace s)"
  by (simp add: at_reply_def)

lemma closes_set_estimated_rtt [simp]:
  "closes_of (trace (snd (set_estimated_rtt s))) = closes_of (trace s)"
  by (simp add: set_estimated_rtt_eq set_timeout_length_def perror_def)

text \<open>One round of the last loop of \<^verbatim>\<open>send_close_connection\<close>, up to its \<^verbatim>\<open>recv\<close>.\<close>

definition time_wait_round :: "byte list \<Rightarrow> ReliableSocket \<Rightarrow> ReliableSocket" where
  "time_wait_round seg s =
     (send_checked ''send_close_connection send'' (take sizeof_RDTHeader seg) s)
       \<lparr>rcv_timeout := TIME_WAIT,
        trace := trace (send_checked ''send_close_connection send'' (take sizeof_RDTHeader seg) s)
                 @ [Set_timeout TIME_WAIT]\<rparr>"

lemma time_wait_round_simps [simp]:
  "inbox (time_wait_round seg s) = inbox s"
  "sequence_number (time_wait_round seg s) = sequence_number s"
  "state (time_wait_round seg s) = state s"
  "rcv_timeout (time_wait_round seg s) = TIME_WAIT"
  "send_outcome (time_wait_round seg s) = send_outcome s"
  "n_send (time_wait_round seg s) = Suc (n_send s)"
  "rejects_timeout (time_wait_round seg s) = rejects_timeout s"
  "syscall_fails (time_wait_round seg s) = syscall_fails s"
  "sends_of (trace (time_wait_round seg s)) = sends_of (trace s) @ [take sizeof_RDTHeader seg]"
  "timeouts_of (trace (time_wait_round seg s)) = timeouts_of (trace s) @ [TIME_WAIT]"
  by (simp_all add: time_wait_round_def)

lemma closes_time_wait_round [simp]:
  "closes_of (trace (time_wait_round seg s)) = closes_of (trace s)"
  by (simp add: time_wait_round_def)

lemma tw_loop_Starved:
  "inbox s = [] \<Longrightarrow> \<not> rejects_timeout s TIME_WAIT \<Longrightarrow>
   time_wait_loop seg s = (Inl Starved, time_wait_round seg s)"
  by (subst time_wait_loop.simps)
     (simp add: os_recv_def set_timeout_length_def time_wait_round_def Let_def)

lemma tw_loop_again:
  "inbox s = Datagram d # rest \<Longrightarrow> d \<noteq> [] \<Longrightarrow> \<not> rejects_timeout s TIME_WAIT \<Longrightarrow>
   time_wait_loop seg s = time_wait_loop seg ((time_wait_round seg s)\<lparr>inbox := rest\<rparr>)"
  by (subst time_wait_loop.simps)
     (simp add: os_recv_def set_timeout_length_def time_wait_round_def Let_def MAX_SEG_SIZE_def)

lemma tw_loop_elapsed:
  "inbox s = Recv_errno EAGAIN # rest \<Longrightarrow> \<not> rejects_timeout s TIME_WAIT \<Longrightarrow>
   time_wait_loop seg s = (Inr (), (time_wait_round seg s)\<lparr>inbox := rest, errno := EAGAIN\<rparr>)"
  by (subst time_wait_loop.simps)
     (simp add: os_recv_def set_timeout_length_def time_wait_round_def Let_def)

lemma tw_loop_error:
  "inbox s = Recv_errno e # rest \<Longrightarrow> e \<noteq> EAGAIN \<Longrightarrow> \<not> rejects_timeout s TIME_WAIT \<Longrightarrow>
   time_wait_loop seg s =
     (Inl EXIT_FAILURE,
      perror ''send_close_connection recv'' ((time_wait_round seg s)\<lparr>inbox := rest, errno := e\<rparr>))"
  by (subst time_wait_loop.simps)
     (simp add: os_recv_def set_timeout_length_def time_wait_round_def Let_def)

lemma tw_loop_rejected:
  "rejects_timeout s TIME_WAIT \<Longrightarrow> fst (time_wait_loop seg s) = Inl EXIT_FAILURE"
  by (subst time_wait_loop.simps) (simp add: set_timeout_length_def Let_def)

lemma tw_loop_restarts:
  assumes "\<not> rejects_timeout s TIME_WAIT" and "\<forall>d\<in>set ds. d \<noteq> []"
  shows "inbox s = map Datagram ds @ later \<Longrightarrow>
     \<exists>s1. time_wait_loop seg s = time_wait_loop seg s1
        \<and> inbox s1 = later
        \<and> state s1 = state s
        \<and> rejects_timeout s1 = rejects_timeout s
        \<and> syscall_fails s1 = syscall_fails s
        \<and> closes_of (trace s1) = closes_of (trace s)
        \<and> sends_of (trace s1) = sends_of (trace s) @ replicate (length ds) (take sizeof_RDTHeader seg)
        \<and> timeouts_of (trace s1) = timeouts_of (trace s) @ replicate (length ds) TIME_WAIT"
  using assms
proof (induction ds arbitrary: s)
  case Nil
  then show ?case by auto
next
  case (Cons d ds)
  let ?s2 = "(time_wait_round seg s)\<lparr>inbox := map Datagram ds @ later\<rparr>"
  from Cons.prems have ib: "inbox s = Datagram d # (map Datagram ds @ later)" by simp
  from Cons.prems have d: "d \<noteq> []" by simp
  have 1: "time_wait_loop seg s = time_wait_loop seg ?s2"
    by (rule tw_loop_again [OF ib d Cons.prems(2)])
  have ib2: "inbox ?s2 = map Datagram ds @ later" by simp
  have acc2: "\<not> rejects_timeout ?s2 TIME_WAIT" using Cons.prems(2) by simp
  have ne2: "\<forall>d\<in>set ds. d \<noteq> []" using Cons.prems(3) by simp
  from Cons.IH [OF ib2 acc2 ne2] obtain s1 where
    "time_wait_loop seg ?s2 = time_wait_loop seg s1" "inbox s1 = later"
    "state s1 = state ?s2" "rejects_timeout s1 = rejects_timeout ?s2"
    "syscall_fails s1 = syscall_fails ?s2"
    "closes_of (trace s1) = closes_of (trace ?s2)"
    "sends_of (trace s1) = sends_of (trace ?s2) @ replicate (length ds) (take sizeof_RDTHeader seg)"
    "timeouts_of (trace s1) = timeouts_of (trace ?s2) @ replicate (length ds) TIME_WAIT"
    by blast
  with 1 show ?case
    by (intro exI [of _ s1]) (simp add: replicate_app_Cons_same)
qed

text \<open>The loop is left by a return only through a receive that timed out.\<close>

lemma tw_loop_returns:
  assumes "\<forall>d. Datagram d \<in> set (inbox s) \<longrightarrow> d \<noteq> []"
  shows "time_wait_loop seg s = (Inr (), s') \<Longrightarrow>
     \<exists>ds. inbox s = map Datagram ds @ Recv_errno EAGAIN # inbox s'"
  using assms
proof (induction "inbox s" arbitrary: s)
  case Nil
  then have ib: "inbox s = []" by simp
  show ?case
  proof (cases "rejects_timeout s TIME_WAIT")
    case True
    from tw_loop_rejected [OF this, of seg] Nil.prems(1) show ?thesis by simp
  next
    case False
    from tw_loop_Starved [OF ib this, of seg] Nil.prems(1) show ?thesis by simp
  qed
next
  case (Cons r rest)
  then have ib: "inbox s = r # rest" by simp
  show ?case
  proof (cases "rejects_timeout s TIME_WAIT")
    case True
    from tw_loop_rejected [OF this, of seg] Cons.prems(1) show ?thesis by simp
  next
    case False
    show ?thesis
    proof (cases r)
      case (Datagram d)
      with ib Cons.prems(2) have d: "d \<noteq> []" by simp
      let ?s2 = "(time_wait_round seg s)\<lparr>inbox := rest\<rparr>"
      from ib Datagram have ib': "inbox s = Datagram d # rest" by simp
      from tw_loop_again [OF ib' d False, of seg] Cons.prems(1)
      have run: "time_wait_loop seg ?s2 = (Inr (), s')" by simp
      have ib2: "rest = inbox ?s2" by simp
      have ne2: "\<forall>d. Datagram d \<in> set (inbox ?s2) \<longrightarrow> d \<noteq> []"
        using Cons.prems(2) ib by simp
      from Cons.hyps(1) [OF ib2 run ne2] obtain ds where
        "inbox ?s2 = map Datagram ds @ Recv_errno EAGAIN # inbox s'" by blast
      then have "inbox s = map Datagram (d # ds) @ Recv_errno EAGAIN # inbox s'"
        using ib' by simp
      then show ?thesis by blast
    next
      case (Recv_errno e)
      show ?thesis
      proof (cases "e = EAGAIN")
        case True
        with ib Recv_errno have ib': "inbox s = Recv_errno EAGAIN # rest" by simp
        from tw_loop_elapsed [OF ib' False, of seg] Cons.prems(1)
        have "inbox s' = rest" by auto
        with ib' have "inbox s = map Datagram [] @ Recv_errno EAGAIN # inbox s'" by simp
        then show ?thesis by blast
      next
        case False
        from ib Recv_errno have ib': "inbox s = Recv_errno e # rest" by simp
        from tw_loop_error [OF ib' False \<open>\<not> rejects_timeout s TIME_WAIT\<close>, of seg] Cons.prems(1)
        show ?thesis by simp
      qed
    qed
  qed
qed

lemma type_of_empty: "h_type (hdr_of (recv_buffer [])) = 0"
  by (simp add: hdr_of_def recv_buffer_def MAX_SEG_SIZE_def)

lemma close_is_not_empty: "h_type (hdr_of (recv_buffer d)) = RDT_CLOSE \<Longrightarrow> d \<noteq> []"
  using type_of_empty by (auto simp: RDT_defs)

lemma await_close_found:
  "inbox s = Datagram d # rest \<Longrightarrow> h_type (hdr_of (recv_buffer d)) = RDT_CLOSE \<Longrightarrow>
   await_close_loop s = (Inr (), s\<lparr>inbox := rest\<rparr>)"
  by (subst await_close_loop.simps) (simp add: os_recv_def)

lemma take_hdr_bytes [simp]: "take sizeof_RDTHeader (hdr_bytes h) = hdr_bytes h"
  by (simp add: length_hdr_bytes)

lemma close_handshake_reply:
  assumes "inbox s = Datagram reply # rest"
    and "h_type (hdr_of (recv_buffer reply)) = RDT_ACK
         \<or> h_type (hdr_of (recv_buffer reply)) = RDT_CLOSE"
    and "T = word_of_int (estimated_rtt s + 4 * dev_rtt s)"
    and "\<not> rejects_timeout s T" and "\<not> rejects_timeout s (timeout_after 0 s)"
  shows "close_handshake_loop (hdr_bytes h) s =
     (Inr (), snd (set_estimated_rtt (at_reply (hdr_bytes h) T 0 s)))"
proof -
  from assms(1) have ib: "inbox s = replicate 0 (Recv_errno EAGAIN) @ Datagram reply # rest"
    by simp
  from assms(4) have acc: "\<forall>i\<le>0. \<not> rejects_timeout s (2 ^ i * T)" by simp
  note run = reliable_send_reply [OF ib acc assms(3,5), of "hdr_bytes h"]
  show ?thesis
    using assms(2) by (subst close_handshake_loop.simps) (auto simp: run)
qed

text \<open>
  While it waits for the peer's \<^verbatim>\<open>CLOSE\<close>, the socket reads past every failed receive,
  a timeout or not; the last one leaves its \<^verbatim>\<open>errno\<close>.
\<close>

lemma await_close_failed:
  "inbox s = Recv_errno e # rest \<Longrightarrow>
   await_close_loop s = await_close_loop (s\<lparr>inbox := rest, errno := e\<rparr>)"
  by (subst await_close_loop.simps) (simp add: os_recv_def)

lemma await_close_skips:
  "inbox s = map Recv_errno es @ later \<Longrightarrow>
   await_close_loop s =
     await_close_loop (s\<lparr>inbox := later, errno := (if es = [] then errno s else last es)\<rparr>)"
proof (induction es arbitrary: s)
  case Nil
  then have "s\<lparr>inbox := later, errno := errno s\<rparr> = s" by simp
  then show ?case by simp
next
  case (Cons e es)
  let ?s1 = "s\<lparr>inbox := map Recv_errno es @ later, errno := e\<rparr>"
  from Cons.prems have ib: "inbox s = Recv_errno e # (map Recv_errno es @ later)" by simp
  have ib1: "inbox ?s1 = map Recv_errno es @ later" by simp
  show ?case
    by (simp only: await_close_failed [OF ib] Cons.IH [OF ib1]) simp
qed

text \<open>
  The state in which a self-initiated teardown enters its wait: the reply to
  \<^verbatim>\<open>CLOSE\<close> has been read at once, then the receives that failed with the values \<open>es\<close>
  of \<^verbatim>\<open>errno\<close>, and the peer's \<^verbatim>\<open>CLOSE\<close>.
\<close>

definition at_time_wait :: "int list \<Rightarrow> ReliableSocket \<Rightarrow> ReliableSocket" where
  "at_time_wait es s =
     (let s1 = snd (set_estimated_rtt
                 (at_reply (hdr_bytes \<lparr>h_sequence_number = htonl 0, h_ack_number = htonl 0,
                                        h_type = RDT_CLOSE\<rparr>)
                           (word_of_int (estimated_rtt s + 4 * dev_rtt s)) 0 s))
      in s1\<lparr>inbox := drop (2 + length es) (inbox s),
            errno := (if es = [] then errno s1 else last es)\<rparr>)"

lemma send_close_connection_enters_wait:
  assumes "inbox s = Datagram reply # map Recv_errno es @ Datagram fin # rest"
    and "h_type (hdr_of (recv_buffer reply)) = RDT_ACK
         \<or> h_type (hdr_of (recv_buffer reply)) = RDT_CLOSE"
    and "h_type (hdr_of (recv_buffer fin)) = RDT_CLOSE"
    and "\<not> rejects_timeout s (word_of_int (estimated_rtt s + 4 * dev_rtt s))"
    and "\<not> rejects_timeout s (timeout_after 0 s)"
  shows "send_close_connection s =
     time_wait_loop (hdr_bytes \<lparr>h_sequence_number = htonl 0, h_ack_number = htonl 0,
                                 h_type = RDT_ACK\<rparr>) (at_time_wait es s)"
proof -
  let ?c = "hdr_bytes \<lparr>h_sequence_number = htonl 0, h_ack_number = htonl 0, h_type = RDT_CLOSE\<rparr>"
  let ?s1 = "snd (set_estimated_rtt (at_reply ?c (word_of_int (estimated_rtt s + 4 * dev_rtt s)) 0 s))"
  let ?s2 = "?s1\<lparr>inbox := Datagram fin # rest, errno := (if es = [] then errno ?s1 else last es)\<rparr>"
  have 1: "close_handshake_loop ?c s = (Inr (), ?s1)"
    by (rule close_handshake_reply [OF assms(1,2) refl assms(4,5)])
  have ib1: "inbox ?s1 = map Recv_errno es @ Datagram fin # rest" using assms(1) by simp
  have ib2: "inbox ?s2 = Datagram fin # rest" by simp
  have 2: "await_close_loop ?s1 = (Inr (), ?s2\<lparr>inbox := rest\<rparr>)"
    by (simp only: await_close_skips [OF ib1] await_close_found [OF ib2 assms(3)])
  have 3: "?s2\<lparr>inbox := rest\<rparr> = at_time_wait es s"
    using assms(1) by (simp add: at_time_wait_def Let_def)
  show ?thesis
    unfolding send_close_connection_def by (simp only: 1 2 3 prod.case sum.case)
qed

lemma errno_at_reply:
  "errno (at_reply seg T 0 s) =
     (if send_outcome s (n_send s) = 0 then errno s else send_outcome s (n_send s))"
  by (simp add: at_reply_def before_reply_def send_checked_def os_send_def perror_def)

lemma at_time_wait_simps [simp]:
  "inbox (at_time_wait es s) = drop (2 + length es) (inbox s)"
  "state (at_time_wait es s) = state s"
  "rejects_timeout (at_time_wait es s) = rejects_timeout s"
  "syscall_fails (at_time_wait es s) = syscall_fails s"
  "send_outcome (at_time_wait es s) = send_outcome s"
  "n_send (at_time_wait es s) = Suc (n_send s)"
  "closes_of (trace (at_time_wait es s)) = closes_of (trace s)"
  "sends_of (trace (at_time_wait es s)) =
     sends_of (trace s)
     @ [hdr_bytes \<lparr>h_sequence_number = htonl 0, h_ack_number = htonl 0, h_type = RDT_CLOSE\<rparr>]"
  "errno (at_time_wait es s) =
     (if es = [] then (if send_outcome s (n_send s) = 0 then errno s else send_outcome s (n_send s))
      else last es)"
  by (simp_all add: at_time_wait_def Let_def sends_at_reply errno_at_reply)

lemma timeouts_at_time_wait:
  "\<not> rejects_timeout s (timeout_after 0 s) \<Longrightarrow>
   timeouts_of (trace (at_time_wait es s)) =
     timeouts_of (trace s)
     @ [word_of_int (estimated_rtt s + 4 * dev_rtt s), timeout_after 0 s]"
  by (simp add: at_time_wait_def Let_def timeouts_set_estimated_rtt timeouts_at_reply
                estimator_timeout_at_reply)

lemma perrors_at_time_wait:
  "\<not> rejects_timeout s (timeout_after 0 s) \<Longrightarrow> send_outcome s (n_send s) = 0 \<Longrightarrow>
   perrors_of (trace (at_time_wait es s)) = perrors_of (trace s)"
  by (simp add: at_time_wait_def Let_def perrors_set_estimated_rtt perrors_at_reply
                estimator_timeout_at_reply)

lemma close_connection_initiator:
  "state s \<noteq> FIN \<Longrightarrow>
   close_connection s =
     (case send_close_connection s of
        (Inl e, s1) \<Rightarrow> (Inl e, s1)
      | (Inr _, s1) \<Rightarrow>
          (Inr (),
           if syscall_fails s1 SYS_close
           then perror ''close_connection close'' (s1\<lparr>state := CLOSED, trace := trace s1 @ [Close_fd]\<rparr>)
           else s1\<lparr>state := CLOSED, trace := trace s1 @ [Close_fd]\<rparr>))"
  by (simp add: close_connection_def Let_def perror_def split: prod.splits sum.splits)

text \<open>
  The teardown as it is meant to run.  The timeouts applied are the estimator's, before
  and after the reply to \<^verbatim>\<open>CLOSE\<close>, and then \<^verbatim>\<open>TIME_WAIT\<close> once for the final \<^verbatim>\<open>ACK\<close> and
  once more for each further \<^verbatim>\<open>CLOSE\<close>.
\<close>

lemma close_connection_run:
  assumes "state s \<noteq> FIN"
    and "inbox s = Datagram reply # map Recv_errno es @ Datagram fin # map Datagram ds @ later"
    and "h_type (hdr_of (recv_buffer reply)) = RDT_ACK
         \<or> h_type (hdr_of (recv_buffer reply)) = RDT_CLOSE"
    and "h_type (hdr_of (recv_buffer fin)) = RDT_CLOSE"
    and "\<forall>d\<in>set ds. h_type (hdr_of (recv_buffer d)) = RDT_CLOSE"
    and "applied = [word_of_int (estimated_rtt s + 4 * dev_rtt s), timeout_after 0 s]
                   @ replicate (Suc (length ds)) TIME_WAIT"
    and "\<forall>t\<in>set applied. \<not> rejects_timeout s t"
    and "close_seg = hdr_bytes \<lparr>h_sequence_number = htonl 0, h_ack_number = htonl 0,
                                 h_type = RDT_CLOSE\<rparr>"
    and "ack_seg = hdr_bytes \<lparr>h_sequence_number = htonl 0, h_ack_number = htonl 0,
                               h_type = RDT_ACK\<rparr>"
    and "s' = snd (close_connection s)"
  shows "(later = [] \<longrightarrow>
            fst (close_connection s) = Inl Starved
          \<and> state s' = state s
          \<and> closes_of (trace s') = closes_of (trace s))
     \<and> (\<forall>rest. later = Recv_errno EAGAIN # rest \<longrightarrow>
            fst (close_connection s) = Inr ()
          \<and> state s' = CLOSED
          \<and> closes_of (trace s') = Suc (closes_of (trace s))
          \<and> inbox s' = rest)
     \<and> (later = [] \<or> (\<exists>rest. later = Recv_errno EAGAIN # rest) \<longrightarrow>
            sends_of (trace s') = sends_of (trace s) @ close_seg # replicate (Suc (length ds)) ack_seg
          \<and> timeouts_of (trace s') = timeouts_of (trace s) @ applied
          \<and> rcv_timeout s' = TIME_WAIT)"
proof -
  let ?w = "at_time_wait es s"
  from assms(7) have accT: "\<not> rejects_timeout s (word_of_int (estimated_rtt s + 4 * dev_rtt s))"
    and accT': "\<not> rejects_timeout s (timeout_after 0 s)"
    and accW: "\<not> rejects_timeout s TIME_WAIT"
    unfolding assms(6) by simp_all
  have enter: "send_close_connection s = time_wait_loop ack_seg ?w"
    unfolding assms(9)
    by (rule send_close_connection_enters_wait [OF assms(2,3,4) accT accT'])
  have ibw: "inbox ?w = map Datagram ds @ later" using assms(2) by simp
  have accw: "\<not> rejects_timeout ?w TIME_WAIT" using accW by simp
  have ne: "\<forall>d\<in>set ds. d \<noteq> []" using assms(5) close_is_not_empty by blast
  from tw_loop_restarts [OF accw ne ibw, of ack_seg] obtain s1 where s1:
    "time_wait_loop ack_seg ?w = time_wait_loop ack_seg s1" "inbox s1 = later"
    "state s1 = state ?w" "rejects_timeout s1 = rejects_timeout ?w"
    "syscall_fails s1 = syscall_fails ?w"
    "closes_of (trace s1) = closes_of (trace ?w)"
    "sends_of (trace s1) = sends_of (trace ?w) @ replicate (length ds) (take sizeof_RDTHeader ack_seg)"
    "timeouts_of (trace s1) = timeouts_of (trace ?w) @ replicate (length ds) TIME_WAIT"
    by blast
  have tk: "take sizeof_RDTHeader ack_seg = ack_seg" by (simp add: assms(9))
  have acc1: "\<not> rejects_timeout s1 TIME_WAIT" using s1(4) accW by simp
  note tw = timeouts_at_time_wait [OF accT', of es]
  have a: "fst (close_connection s) = Inl Starved
          \<and> state s' = state s
          \<and> closes_of (trace s') = closes_of (trace s)
          \<and> sends_of (trace s') = sends_of (trace s) @ close_seg # replicate (Suc (length ds)) ack_seg
          \<and> timeouts_of (trace s') = timeouts_of (trace s) @ applied
          \<and> rcv_timeout s' = TIME_WAIT" if "later = []"
  proof -
    from that s1(2) have "inbox s1 = []" by simp
    from tw_loop_Starved [OF this acc1, of ack_seg]
    have "send_close_connection s = (Inl Starved, time_wait_round ack_seg s1)"
      by (simp only: enter s1(1))
    then have cc: "close_connection s = (Inl Starved, time_wait_round ack_seg s1)"
      by (simp add: close_connection_initiator [OF assms(1)])
    show ?thesis
      unfolding assms(10) cc
      by (simp add: s1(3,6,7,8) tw tk assms(6,8) replicate_append_same)
  qed
  have b: "fst (close_connection s) = Inr ()
          \<and> state s' = CLOSED
          \<and> closes_of (trace s') = Suc (closes_of (trace s))
          \<and> inbox s' = rest
          \<and> sends_of (trace s') = sends_of (trace s) @ close_seg # replicate (Suc (length ds)) ack_seg
          \<and> timeouts_of (trace s') = timeouts_of (trace s) @ applied
          \<and> rcv_timeout s' = TIME_WAIT" if "later = Recv_errno EAGAIN # rest" for rest
  proof -
    let ?s2 = "(time_wait_round ack_seg s1)\<lparr>inbox := rest, errno := EAGAIN\<rparr>"
    from that s1(2) have "inbox s1 = Recv_errno EAGAIN # rest" by simp
    from tw_loop_elapsed [OF this acc1, of ack_seg]
    have "send_close_connection s = (Inr (), ?s2)"
      by (simp only: enter s1(1))
    then have cc: "close_connection s =
        (Inr (),
         if syscall_fails ?s2 SYS_close
         then perror ''close_connection close'' (?s2\<lparr>state := CLOSED, trace := trace ?s2 @ [Close_fd]\<rparr>)
         else ?s2\<lparr>state := CLOSED, trace := trace ?s2 @ [Close_fd]\<rparr>)"
      by (simp only: close_connection_initiator [OF assms(1)] prod.case sum.case)
    show ?thesis
      unfolding assms(10) cc
      by (simp add: s1(3,6,7,8) tw tk assms(6,8) replicate_append_same perror_def)
  qed
  from a b show ?thesis by blast
qed

lemma hdr_of_header [simp]: "hdr_of (recv_buffer (hdr_bytes h)) = h"
  using hdr_of_segment [of h "[]"] by simp

text \<open>
  A datagram without any byte: \<^verbatim>\<open>recv\<close> returns 0, and the wait tests
  \<^verbatim>\<open>recv(...) > 0\<close>, so the datagram goes to the branch that reads \<^verbatim>\<open>errno\<close>.  No call
  has failed, and \<^verbatim>\<open>errno\<close> is what the last failure left there.
\<close>

lemma tw_loop_empty_datagram:
  "inbox s = Datagram [] # rest \<Longrightarrow> \<not> rejects_timeout s TIME_WAIT \<Longrightarrow>
   time_wait_loop seg s =
     (if errno (time_wait_round seg s) = EAGAIN
      then (Inr (), (time_wait_round seg s)\<lparr>inbox := rest\<rparr>)
      else (Inl EXIT_FAILURE,
            perror ''send_close_connection recv'' ((time_wait_round seg s)\<lparr>inbox := rest\<rparr>)))"
  by (subst time_wait_loop.simps)
     (simp add: os_recv_def set_timeout_length_def time_wait_round_def Let_def)

lemma errno_time_wait_round:
  "errno (time_wait_round seg s) =
     (if send_outcome s (n_send s) = 0 then errno s else send_outcome s (n_send s))"
  by (simp add: time_wait_round_def send_checked_def os_send_def perror_def)

lemma perrors_time_wait_round:
  "send_outcome s (n_send s) = 0 \<Longrightarrow>
   perrors_of (trace (time_wait_round seg s)) = perrors_of (trace s)"
  by (simp add: time_wait_round_def)

lemma close_connection_empty_datagram_run:
  assumes "state s \<noteq> FIN"
    and "inbox s = Datagram reply # map Recv_errno es @ Datagram fin # Datagram [] # rest"
    and "h_type (hdr_of (recv_buffer reply)) = RDT_ACK
         \<or> h_type (hdr_of (recv_buffer reply)) = RDT_CLOSE"
    and "h_type (hdr_of (recv_buffer fin)) = RDT_CLOSE"
    and "applied = [word_of_int (estimated_rtt s + 4 * dev_rtt s), timeout_after 0 s, TIME_WAIT]"
    and "\<forall>t\<in>set applied. \<not> rejects_timeout s t"
    and "send_outcome s (n_send s) = 0" and "send_outcome s (Suc (n_send s)) = 0"
    and "stale = (if es = [] then errno s else last es)"
    and "close_seg = hdr_bytes \<lparr>h_sequence_number = htonl 0, h_ack_number = htonl 0,
                                 h_type = RDT_CLOSE\<rparr>"
    and "ack_seg = hdr_bytes \<lparr>h_sequence_number = htonl 0, h_ack_number = htonl 0,
                               h_type = RDT_ACK\<rparr>"
    and "s' = snd (close_connection s)"
  shows "(stale = EAGAIN \<longrightarrow>
            fst (close_connection s) = Inr ()
          \<and> state s' = CLOSED
          \<and> closes_of (trace s') = Suc (closes_of (trace s))
          \<and> perrors_of (trace s')
              = perrors_of (trace s)
                @ (if syscall_fails s SYS_close then [''close_connection close''] else []))
     \<and> (stale \<noteq> EAGAIN \<longrightarrow>
            fst (close_connection s) = Inl EXIT_FAILURE
          \<and> state s' = state s
          \<and> closes_of (trace s') = closes_of (trace s)
          \<and> perrors_of (trace s') = perrors_of (trace s) @ [''send_close_connection recv''])
     \<and> sends_of (trace s') = sends_of (trace s) @ [close_seg, ack_seg]
     \<and> timeouts_of (trace s') = timeouts_of (trace s) @ applied
     \<and> inbox s' = rest"
proof -
  let ?w = "at_time_wait es s"
  let ?r = "time_wait_round ack_seg ?w"
  from assms(6) have accT: "\<not> rejects_timeout s (word_of_int (estimated_rtt s + 4 * dev_rtt s))"
    and accT': "\<not> rejects_timeout s (timeout_after 0 s)"
    and accW: "\<not> rejects_timeout s TIME_WAIT"
    unfolding assms(5) by simp_all
  have enter: "send_close_connection s = time_wait_loop ack_seg ?w"
    unfolding assms(11)
    by (rule send_close_connection_enters_wait [OF assms(2,3,4) accT accT'])
  have ibw: "inbox ?w = Datagram [] # rest" using assms(2) by simp
  have accw: "\<not> rejects_timeout ?w TIME_WAIT" using accW by simp
  have er: "errno ?r = stale"
    by (simp add: errno_time_wait_round assms(7,8,9))
  have tk: "take sizeof_RDTHeader ack_seg = ack_seg" by (simp add: assms(11))
  note tw = timeouts_at_time_wait [OF accT', of es]
  note pw = perrors_at_time_wait [OF accT' assms(7), of es]
  have pr: "perrors_of (trace ?r) = perrors_of (trace s)"
    by (simp add: perrors_time_wait_round assms(8) pw)
  note step = tw_loop_empty_datagram [OF ibw accw, of ack_seg, unfolded er]
  show ?thesis
  proof (cases "stale = EAGAIN")
    case True
    let ?s2 = "?r\<lparr>inbox := rest\<rparr>"
    from step True have "send_close_connection s = (Inr (), ?s2)"
      by (simp only: enter simp_thms if_True)
    then have cc: "close_connection s =
        (Inr (),
         if syscall_fails ?s2 SYS_close
         then perror ''close_connection close'' (?s2\<lparr>state := CLOSED, trace := trace ?s2 @ [Close_fd]\<rparr>)
         else ?s2\<lparr>state := CLOSED, trace := trace ?s2 @ [Close_fd]\<rparr>)"
      by (simp only: close_connection_initiator [OF assms(1)] prod.case sum.case)
    show ?thesis
      unfolding assms(12) cc using True
      by (simp add: tw pr tk assms(5,10) perror_def)
  next
    case False
    let ?s2 = "perror ''send_close_connection recv'' (?r\<lparr>inbox := rest\<rparr>)"
    from step False have "send_close_connection s = (Inl EXIT_FAILURE, ?s2)"
      by (simp only: enter simp_thms if_False)
    then have cc: "close_connection s = (Inl EXIT_FAILURE, ?s2)"
      by (simp add: close_connection_initiator [OF assms(1)])
    show ?thesis
      unfolding assms(12) cc using False
      by (simp add: tw pr tk assms(5,10) perror_def)
  qed
qed

text \<open>
  Two established sockets that close, on a system that refuses negative timeouts.  The
  peer acknowledges the \<^verbatim>\<open>CLOSE\<close> and sends its own, and then a datagram without any
  byte arrives.  On the first socket the peer's \<^verbatim>\<open>CLOSE\<close> came late: one receive timed
  out while the socket was waiting for it.
\<close>

definition cut_short :: ReliableSocket where
  "cut_short =
     opened\<lparr>state := ESTABLISHED,
            inbox := [Datagram (hdr_bytes \<lparr>h_sequence_number = htonl 0, h_ack_number = htonl 0,
                                            h_type = RDT_ACK\<rparr>),
                      Recv_errno EAGAIN,
                      Datagram (hdr_bytes \<lparr>h_sequence_number = htonl 0, h_ack_number = htonl 0,
                                            h_type = RDT_CLOSE\<rparr>),
                      Datagram []]\<rparr>"

definition given_up :: ReliableSocket where
  "given_up =
     opened\<lparr>state := ESTABLISHED,
            inbox := [Datagram (hdr_bytes \<lparr>h_sequence_number = htonl 0, h_ack_number = htonl 0,
                                            h_type = RDT_ACK\<rparr>),
                      Datagram (hdr_bytes \<lparr>h_sequence_number = htonl 0, h_ack_number = htonl 0,
                                            h_type = RDT_CLOSE\<rparr>),
                      Datagram []]\<rparr>"

lemma cut_short_timeout: "timeout_after 0 cut_short = 172"
  by (simp add: timeout_after_def estimator_timeout_eq cut_short_def opened_fields
                estimate_of_100_40 deviation_of_100_10_40)

lemma given_up_timeout: "timeout_after 0 given_up = 172"
  by (simp add: timeout_after_def estimator_timeout_eq given_up_def opened_fields
                estimate_of_100_40 deviation_of_100_10_40)

lemma cut_short_fields:
  "state cut_short \<noteq> FIN"
  "inbox cut_short =
     Datagram (hdr_bytes \<lparr>h_sequence_number = htonl 0, h_ack_number = htonl 0, h_type = RDT_ACK\<rparr>)
     # map Recv_errno [EAGAIN]
     @ Datagram (hdr_bytes \<lparr>h_sequence_number = htonl 0, h_ack_number = htonl 0,
                            h_type = RDT_CLOSE\<rparr>)
     # Datagram [] # []"
  "h_type (hdr_of (recv_buffer (hdr_bytes \<lparr>h_sequence_number = htonl 0, h_ack_number = htonl 0,
                                             h_type = RDT_ACK\<rparr>))) = RDT_ACK
   \<or> h_type (hdr_of (recv_buffer (hdr_bytes \<lparr>h_sequence_number = htonl 0, h_ack_number = htonl 0,
                                               h_type = RDT_ACK\<rparr>))) = RDT_CLOSE"
  "h_type (hdr_of (recv_buffer (hdr_bytes \<lparr>h_sequence_number = htonl 0, h_ack_number = htonl 0,
                                             h_type = RDT_CLOSE\<rparr>))) = RDT_CLOSE"
  "[140, 172, 4000] = [word_of_int (estimated_rtt cut_short + 4 * dev_rtt cut_short),
                       timeout_after 0 cut_short, TIME_WAIT]"
  "\<forall>t\<in>set [140, 172, 4000]. \<not> rejects_timeout cut_short t"
  "send_outcome cut_short (n_send cut_short) = 0"
  "send_outcome cut_short (Suc (n_send cut_short)) = 0"
  "EAGAIN = (if [EAGAIN] = [] then errno cut_short else last [EAGAIN])"
  by (simp_all add: cut_short_timeout)
     (simp_all add: cut_short_def opened_fields refuses_negative_def TIME_WAIT_def)

lemma given_up_fields:
  "state given_up \<noteq> FIN"
  "inbox given_up =
     Datagram (hdr_bytes \<lparr>h_sequence_number = htonl 0, h_ack_number = htonl 0, h_type = RDT_ACK\<rparr>)
     # map Recv_errno []
     @ Datagram (hdr_bytes \<lparr>h_sequence_number = htonl 0, h_ack_number = htonl 0,
                            h_type = RDT_CLOSE\<rparr>)
     # Datagram [] # []"
  "h_type (hdr_of (recv_buffer (hdr_bytes \<lparr>h_sequence_number = htonl 0, h_ack_number = htonl 0,
                                             h_type = RDT_ACK\<rparr>))) = RDT_ACK
   \<or> h_type (hdr_of (recv_buffer (hdr_bytes \<lparr>h_sequence_number = htonl 0, h_ack_number = htonl 0,
                                               h_type = RDT_ACK\<rparr>))) = RDT_CLOSE"
  "h_type (hdr_of (recv_buffer (hdr_bytes \<lparr>h_sequence_number = htonl 0, h_ack_number = htonl 0,
                                             h_type = RDT_CLOSE\<rparr>))) = RDT_CLOSE"
  "[140, 172, 4000] = [word_of_int (estimated_rtt given_up + 4 * dev_rtt given_up),
                       timeout_after 0 given_up, TIME_WAIT]"
  "\<forall>t\<in>set [140, 172, 4000]. \<not> rejects_timeout given_up t"
  "send_outcome given_up (n_send given_up) = 0"
  "send_outcome given_up (Suc (n_send given_up)) = 0"
  "0 = (if ([] :: int list) = [] then errno given_up else last [])"
  by (simp_all add: given_up_timeout)
     (simp_all add: given_up_def opened_fields refuses_negative_def TIME_WAIT_def)

lemma empty_datagram_before:
  "state cut_short = ESTABLISHED" "trace cut_short = []" "syscall_fails cut_short c = False"
  "state given_up = ESTABLISHED" "trace given_up = []"
  "inbox cut_short =
     [Datagram (hdr_bytes \<lparr>h_sequence_number = htonl 0, h_ack_number = htonl 0, h_type = RDT_ACK\<rparr>),
      Recv_errno EAGAIN,
      Datagram (hdr_bytes \<lparr>h_sequence_number = htonl 0, h_ack_number = htonl 0,
                             h_type = RDT_CLOSE\<rparr>),
      Datagram []]"
  "inbox given_up =
     [Datagram (hdr_bytes \<lparr>h_sequence_number = htonl 0, h_ack_number = htonl 0, h_type = RDT_ACK\<rparr>),
      Datagram (hdr_bytes \<lparr>h_sequence_number = htonl 0, h_ack_number = htonl 0,
                             h_type = RDT_CLOSE\<rparr>),
      Datagram []]"
  by (simp_all add: cut_short_def given_up_def opened_fields)

text \<open>
  C8 holds of the wait as it is meant to run (\<open>close_connection_run\<close>,
  \<open>tw_loop_returns\<close>), and fails where a datagram without any byte arrives in the wait.
  On the first socket the final \<^verbatim>\<open>ACK\<close> is sent, the timeout is set to 4000 ms, the
  empty datagram is read, and \<^verbatim>\<open>errno\<close> is still \<^verbatim>\<open>EAGAIN\<close> from the timeout before the
  peer's \<^verbatim>\<open>CLOSE\<close>: the call returns at once with the state \<^verbatim>\<open>CLOSED\<close> and the descriptor
  closed, and no receive has timed out in the wait.  On the second socket \<^verbatim>\<open>errno\<close> is
  0: the call reports \<^verbatim>\<open>perror("send_close_connection recv")\<close> and exits.
\<close>

theorem close_connection_empty_datagram:
  "state cut_short = ESTABLISHED
   \<and> inbox cut_short =
       [Datagram (hdr_bytes \<lparr>h_sequence_number = htonl 0, h_ack_number = htonl 0,
                              h_type = RDT_ACK\<rparr>),
        Recv_errno EAGAIN,
        Datagram (hdr_bytes \<lparr>h_sequence_number = htonl 0, h_ack_number = htonl 0,
                              h_type = RDT_CLOSE\<rparr>),
        Datagram []]
   \<and> fst (close_connection cut_short) = Inr ()
   \<and> state (snd (close_connection cut_short)) = CLOSED
   \<and> closes_of (trace (snd (close_connection cut_short))) = 1
   \<and> sends_of (trace (snd (close_connection cut_short)))
       = [hdr_bytes \<lparr>h_sequence_number = htonl 0, h_ack_number = htonl 0, h_type = RDT_CLOSE\<rparr>,
          hdr_bytes \<lparr>h_sequence_number = htonl 0, h_ack_number = htonl 0, h_type = RDT_ACK\<rparr>]
   \<and> timeouts_of (trace (snd (close_connection cut_short))) = [140, 172, 4000]
   \<and> inbox (snd (close_connection cut_short)) = []
   \<and> state given_up = ESTABLISHED
   \<and> inbox given_up =
       [Datagram (hdr_bytes \<lparr>h_sequence_number = htonl 0, h_ack_number = htonl 0,
                              h_type = RDT_ACK\<rparr>),
        Datagram (hdr_bytes \<lparr>h_sequence_number = htonl 0, h_ack_number = htonl 0,
                              h_type = RDT_CLOSE\<rparr>),
        Datagram []]
   \<and> fst (close_connection given_up) = Inl EXIT_FAILURE
   \<and> state (snd (close_connection given_up)) = ESTABLISHED
   \<and> closes_of (trace (snd (close_connection given_up))) = 0
   \<and> perrors_of (trace (snd (close_connection given_up))) = [''send_close_connection recv'']
   \<and> timeouts_of (trace (snd (close_connection given_up))) = [140, 172, 4000]"
proof -
  note a = close_connection_empty_datagram_run [OF cut_short_fields refl refl refl]
  note b = close_connection_empty_datagram_run [OF given_up_fields refl refl refl]
  have z: "(0 :: int) \<noteq> EAGAIN" by (simp add: EAGAIN_def)
  from a have a': "fst (close_connection cut_short) = Inr ()
   \<and> state (snd (close_connection cut_short)) = CLOSED
   \<and> closes_of (trace (snd (close_connection cut_short))) = Suc (closes_of (trace cut_short))
   \<and> sends_of (trace (snd (close_connection cut_short)))
       = sends_of (trace cut_short)
         @ [hdr_bytes \<lparr>h_sequence_number = htonl 0, h_ack_number = htonl 0, h_type = RDT_CLOSE\<rparr>,
            hdr_bytes \<lparr>h_sequence_number = htonl 0, h_ack_number = htonl 0, h_type = RDT_ACK\<rparr>]
   \<and> timeouts_of (trace (snd (close_connection cut_short)))
       = timeouts_of (trace cut_short) @ [140, 172, 4000]
   \<and> inbox (snd (close_connection cut_short)) = []"
    by blast
  from b z have b': "fst (close_connection given_up) = Inl EXIT_FAILURE
   \<and> state (snd (close_connection given_up)) = state given_up
   \<and> closes_of (trace (snd (close_connection given_up))) = closes_of (trace given_up)
   \<and> perrors_of (trace (snd (close_connection given_up)))
       = perrors_of (trace given_up) @ [''send_close_connection recv'']
   \<and> timeouts_of (trace (snd (close_connection given_up)))
       = timeouts_of (trace given_up) @ [140, 172, 4000]"
    by blast
  from a' b' show ?thesis
    by (simp add: empty_datagram_before)
qed

section \<open>Connecting\<close>

text \<open>One round of \<^verbatim>\<open>timeout_send\<close>, up to its \<^verbatim>\<open>recv\<close>.\<close>

definition timeout_send_round :: "byte list \<Rightarrow> ReliableSocket \<Rightarrow> ReliableSocket" where
  "timeout_send_round seg s =
     (send_checked ''timeout_send send'' (take sizeof_RDTHeader seg) s)
       \<lparr>rcv_timeout := word_of_int (estimated_rtt s + dev_rtt s * 4),
        trace := trace (send_checked ''timeout_send send'' (take sizeof_RDTHeader seg) s)
                 @ [Set_timeout (word_of_int (estimated_rtt s + dev_rtt s * 4))]\<rparr>"

lemma timeout_send_round_simps [simp]:
  "inbox (timeout_send_round seg s) = inbox s"
  "sequence_number (timeout_send_round seg s) = sequence_number s"
  "estimated_rtt (timeout_send_round seg s) = estimated_rtt s"
  "dev_rtt (timeout_send_round seg s) = dev_rtt s"
  "state (timeout_send_round seg s) = state s"
  "send_outcome (timeout_send_round seg s) = send_outcome s"
  "n_send (timeout_send_round seg s) = Suc (n_send s)"
  "rejects_timeout (timeout_send_round seg s) = rejects_timeout s"
  "syscall_fails (timeout_send_round seg s) = syscall_fails s"
  "sends_of (trace (timeout_send_round seg s)) = sends_of (trace s) @ [take sizeof_RDTHeader seg]"
  "closes_of (trace (timeout_send_round seg s)) = closes_of (trace s)"
  "perrors_of (trace (timeout_send_round seg s)) =
     perrors_of (trace s) @ (if send_outcome s (n_send s) = 0 then [] else [''timeout_send send''])"
  by (simp_all add: timeout_send_round_def)




lemma ts_error:
  "inbox s = Recv_errno e # rest \<Longrightarrow> e \<noteq> EAGAIN \<Longrightarrow>
   \<not> rejects_timeout s (word_of_int (estimated_rtt s + dev_rtt s * 4)) \<Longrightarrow>
   timeout_send seg s =
     (Inl EXIT_FAILURE,
      perror ''timeout_send recv'' ((timeout_send_round seg s)\<lparr>inbox := rest, errno := e\<rparr>))"
  by (subst timeout_send.simps)
     (simp add: os_recv_def set_timeout_length_def timeout_send_round_def Let_def)














section \<open>Sending data\<close>

text \<open>
  What \<^verbatim>\<open>reliable_send\<close> leaves alone and what it adds, whatever arrives and however
  the call ends.
\<close>

definition same_connection :: "ReliableSocket \<Rightarrow> ReliableSocket \<Rightarrow> bool" where
  "same_connection s s' \<longleftrightarrow>
     sequence_number s' = sequence_number s \<and> state s' = state s
     \<and> rejects_timeout s' = rejects_timeout s \<and> syscall_fails s' = syscall_fails s
     \<and> closes_of (trace s') = closes_of (trace s)"

lemma same_connection_refl [simp]: "same_connection s s"
  by (simp add: same_connection_def)

lemma same_connection_trans:
  "same_connection s t \<Longrightarrow> same_connection t u \<Longrightarrow> same_connection s u"
  by (simp add: same_connection_def)

lemma rs_loop_frame:
  "same_connection s (snd (reliable_send_loop seg p d s))
   \<and> estimated_rtt (snd (reliable_send_loop seg p d s)) = estimated_rtt s
   \<and> dev_rtt (snd (reliable_send_loop seg p d s)) = dev_rtt s
   \<and> (\<exists>n. sends_of (trace (snd (reliable_send_loop seg p d s)))
            = sends_of (trace s) @ replicate (Suc n) seg)
   \<and> (\<forall>buf. fst (reliable_send_loop seg p d s) = Inr buf \<longrightarrow>
        (\<exists>k dg. inbox s = replicate k (Recv_errno EAGAIN) @ Datagram dg
                   # inbox (snd (reliable_send_loop seg p d s))
               \<and> buf = recv_buffer dg))"
proof (induction "inbox s" arbitrary: s p d)
  case Nil
  then have ib: "inbox s = []" by simp
  show ?case
    by (simp add: rs_loop_Starved [OF ib] same_connection_def exI [of _ 0])
next
  case (Cons r rest)
  then have ib: "inbox s = r # rest" by simp
  show ?case
  proof (cases r)
    case (Datagram dg)
    with ib have ib': "inbox s = Datagram dg # rest" by simp
    have "inbox s = replicate 0 (Recv_errno EAGAIN) @ Datagram dg # rest" using ib' by simp
    then show ?thesis
      by (simp add: rs_loop_Datagram [OF ib'] same_connection_def exI [of _ 0])
  next
    case (Recv_errno e)
    show ?thesis
    proof (cases "e = EAGAIN")
      case False
      from ib Recv_errno have ib': "inbox s = Recv_errno e # rest" by simp
      show ?thesis
        by (simp add: rs_loop_error [OF ib' False] same_connection_def perror_def exI [of _ 0])
    next
      case True
      with ib Recv_errno have ib': "inbox s = Recv_errno EAGAIN # rest" by simp
      let ?D = "if p then d * 2 else word_of_int (2 * (estimated_rtt s + 4 * dev_rtt s)) :: 32 word"
      show ?thesis
      proof (cases "rejects_timeout s ?D")
        case True
        then show ?thesis
          by (simp add: rs_loop_timeout [OF ib'] Let_def set_timeout_length_def
                        same_connection_def perror_def exI [of _ 0])
      next
        case False
        let ?s5 = "timeout_step seg ?D s"
        let ?r = "reliable_send_loop seg True ?D ?s5"
        have step: "reliable_send_loop seg p d s = ?r"
          by (rule rs_loop_timeout_step [OF ib' False])
        have ib5: "rest = inbox ?s5" using ib' by simp
        note IH = Cons.hyps(1) [OF ib5, of True ?D]
        from IH obtain n where n:
          "sends_of (trace (snd ?r)) = sends_of (trace ?s5) @ replicate (Suc n) seg"
          by blast
        have sends: "sends_of (trace (snd ?r)) = sends_of (trace s) @ replicate (Suc (Suc n)) seg"
          using n by (simp add: trace_timeout_step)
        have inb: "\<exists>k dg. inbox s = replicate k (Recv_errno EAGAIN) @ Datagram dg # inbox (snd ?r)
               \<and> buf = recv_buffer dg" if "fst ?r = Inr buf" for buf
        proof -
          from IH that obtain k dg where
            "inbox ?s5 = replicate k (Recv_errno EAGAIN) @ Datagram dg # inbox (snd ?r)"
            "buf = recv_buffer dg" by blast
          then have "inbox s = replicate (Suc k) (Recv_errno EAGAIN) @ Datagram dg # inbox (snd ?r)
               \<and> buf = recv_buffer dg"
            using ib' by simp
          then show ?thesis by blast
        qed
        from IH have fr: "same_connection s (snd ?r)" "estimated_rtt (snd ?r) = estimated_rtt s"
          "dev_rtt (snd ?r) = dev_rtt s"
          by (simp_all add: same_connection_def trace_timeout_step)
        show ?thesis
          unfolding step using fr sends inb by blast
      qed
    qed
  qed
qed

lemma set_estimated_rtt_same [simp]: "same_connection s (snd (set_estimated_rtt s))"
  by (simp add: same_connection_def)

lemma fst_set_estimated_rtt:
  "fst (set_estimated_rtt s) = Inr () \<or> fst (set_estimated_rtt s) = Inl EXIT_FAILURE"
  by (simp add: set_estimated_rtt_eq set_timeout_length_def)

lemma reliable_send_frame:
  "same_connection s (snd (reliable_send seg s))
   \<and> (\<exists>n. sends_of (trace (snd (reliable_send seg s))) = sends_of (trace s) @ replicate n seg)
   \<and> (\<not> rejects_timeout s (word_of_int (estimated_rtt s + 4 * dev_rtt s)) \<longrightarrow>
        (\<exists>n. sends_of (trace (snd (reliable_send seg s)))
              = sends_of (trace s) @ replicate (Suc n) seg))
   \<and> (\<forall>buf. fst (reliable_send seg s) = Inr buf \<longrightarrow>
        (\<exists>k dg. inbox s = replicate k (Recv_errno EAGAIN) @ Datagram dg
                   # inbox (snd (reliable_send seg s))
               \<and> buf = recv_buffer dg))"
proof (cases "rejects_timeout s (word_of_int (estimated_rtt s + 4 * dev_rtt s))")
  case True
  then have "reliable_send seg s = (Inl EXIT_FAILURE, perror ''setsockopt'' s)"
    by (simp add: reliable_send_def set_timeout_length_def)
  with True show ?thesis
    by (simp add: same_connection_def perror_def exI [of _ 0])
next
  case False
  let ?T = "word_of_int (estimated_rtt s + 4 * dev_rtt s) :: 32 word"
  let ?s1 = "s\<lparr>rcv_timeout := ?T, trace := trace s @ [Set_timeout ?T]\<rparr>"
  let ?l = "reliable_send_loop seg False 0 ?s1"
  have st: "set_timeout_length ?T s = (Inr (), ?s1)"
    using False by (simp add: set_timeout_length_def)
  have rs: "reliable_send seg s =
      (case ?l of (Inl e, s2) \<Rightarrow> (Inl e, s2)
       | (Inr recv_seg, s2) \<Rightarrow>
           (case set_estimated_rtt s2 of (Inl e, s3) \<Rightarrow> (Inl e, s3)
            | (Inr _, s3) \<Rightarrow> (Inr recv_seg, s3)))"
    unfolding reliable_send_def by (simp only: st prod.case sum.case)
  obtain r2 s2 where l: "?l = (r2, s2)" by force
  note fr = rs_loop_frame [of ?s1 seg False 0, unfolded l fst_conv snd_conv]
  from fr obtain n where n:
    "sends_of (trace s2) = sends_of (trace s) @ replicate (Suc n) seg"
    by auto
  from fr have same: "same_connection s s2" by (simp add: same_connection_def)
  show ?thesis
  proof (cases r2)
    case (Inl e)
    then have "reliable_send seg s = (Inl e, s2)"
      by (simp only: rs l prod.case sum.case)
    then have snd_rs: "snd (reliable_send seg s) = s2"
      and fst_rs: "\<forall>b. fst (reliable_send seg s) \<noteq> Inr b" by simp_all
    from n have ex1: "\<exists>m. sends_of (trace s2) = sends_of (trace s) @ replicate m seg" by blast
    from n have ex2: "\<exists>m. sends_of (trace s2) = sends_of (trace s) @ replicate (Suc m) seg"
      by blast
    show ?thesis
      unfolding snd_rs using same ex1 ex2 fst_rs by blast
  next
    case (Inr buf)
    from fr Inr obtain k dg where kd:
      "inbox s = replicate k (Recv_errno EAGAIN) @ Datagram dg # inbox s2"
      "buf = recv_buffer dg"
      by auto
    obtain r3 s3 where e: "set_estimated_rtt s2 = (r3, s3)" by force
    then have s3: "s3 = snd (set_estimated_rtt s2)" by simp
    have rs': "reliable_send seg s =
        (case r3 of Inl e \<Rightarrow> (Inl e, s3) | Inr _ \<Rightarrow> (Inr buf, s3))"
      by (simp only: rs l Inr e prod.case sum.case)
    then have snd_rs: "snd (reliable_send seg s) = s3"
      by (simp split: sum.splits)
    have fst_rs: "\<forall>b. fst (reliable_send seg s) = Inr b \<longrightarrow> b = buf"
      using rs' by (simp split: sum.splits)
    have same3: "same_connection s s3"
      unfolding s3 using same same_connection_trans set_estimated_rtt_same by blast
    have sends3: "sends_of (trace s3) = sends_of (trace s) @ replicate (Suc n) seg"
      unfolding s3 using n by simp
    have inb3: "inbox s = replicate k (Recv_errno EAGAIN) @ Datagram dg # inbox s3"
      unfolding s3 using kd(1) by simp
    from sends3 have ex1: "\<exists>m. sends_of (trace s3) = sends_of (trace s) @ replicate m seg"
      by blast
    from sends3 have ex2: "\<exists>m. sends_of (trace s3) = sends_of (trace s) @ replicate (Suc m) seg"
      by blast
    from inb3 kd(2) fst_rs have ex3: "\<forall>b. fst (reliable_send seg s) = Inr b \<longrightarrow>
        (\<exists>k dg. inbox s = replicate k (Recv_errno EAGAIN) @ Datagram dg # inbox s3
               \<and> b = recv_buffer dg)"
      by blast
    show ?thesis
      unfolding snd_rs using same3 ex1 ex2 ex3 by blast
  qed
qed

























section \<open>Calls in a state that is not theirs\<close>

lemma sends_perror [simp]: "sends_of (trace (perror msg s)) = sends_of (trace s)"
  by (simp add: perror_def)

lemma sends_send_checked:
  "sends_of (trace (send_checked msg seg s)) = sends_of (trace s) @ [seg]"
  by (simp add: send_checked_def os_send_def perror_def Let_def)

lemma set_timeout_length_sends:
  "set_timeout_length t s = (r, s') \<Longrightarrow> sends_of (trace s') = sends_of (trace s)"
  by (auto simp: set_timeout_length_def perror_def split: if_splits)

lemma os_recv_trace: "os_recv s = Some (n, buf, s') \<Longrightarrow> trace s' = trace s"
  by (auto simp: os_recv_def split: list.splits recv_result.splits)

lemma await_close_loop_sends:
  "sends_of (trace (snd (await_close_loop s))) = sends_of (trace s)"
proof (induction s rule: await_close_loop.induct)
  case (1 s)
  show ?case
  proof (cases "os_recv s")
    case None
    then show ?thesis by (subst await_close_loop.simps) simp
  next
    case (Some a)
    then obtain n buf s1 where r: "os_recv s = Some (n, buf, s1)" by (cases a) auto
    note tr = os_recv_trace [OF r]
    from 1 [OF r refl refl] tr r show ?thesis
      by (subst await_close_loop.simps) auto
  qed
qed

lemma time_wait_loop_sends:
  "\<exists>rest. sends_of (trace (snd (time_wait_loop seg s)))
          = sends_of (trace s) @ take sizeof_RDTHeader seg # rest"
proof (induction seg s rule: time_wait_loop.induct)
  case (1 seg s)
  define s1 where "s1 = send_checked ''send_close_connection send'' (take sizeof_RDTHeader seg) s"
  have a: "sends_of (trace s1) = sends_of (trace s) @ [take sizeof_RDTHeader seg]"
    by (simp add: s1_def sends_send_checked)
  obtain r2 s2 where st: "set_timeout_length TIME_WAIT s1 = (r2, s2)" by force
  note b = set_timeout_length_sends [OF st]
  show ?case
  proof (cases r2)
    case (Inl e)
    with st a b show ?thesis
      by (subst time_wait_loop.simps) (simp add: s1_def [symmetric] Let_def)
  next
    case (Inr u)
    show ?thesis
    proof (cases "os_recv s2")
      case None
      with st a b Inr show ?thesis
        by (subst time_wait_loop.simps) (simp add: s1_def [symmetric] Let_def)
    next
      case (Some x)
      then obtain n buf s3 where r: "os_recv s2 = Some (n, buf, s3)" by (cases x) auto
      note tr = os_recv_trace [OF r]
      have ih: "0 < n \<Longrightarrow> \<exists>rest. sends_of (trace (snd (time_wait_loop seg s3)))
                  = sends_of (trace s3) @ take sizeof_RDTHeader seg # rest"
        using 1 [OF s1_def st [unfolded Inr, symmetric]] r
        by (cases "h_type (hdr_of buf) = RDT_CLOSE") auto
      show ?thesis
      proof (cases "0 < n")
        case True
        from ih [OF True] obtain rest where
          "sends_of (trace (snd (time_wait_loop seg s3)))
             = sends_of (trace s3) @ take sizeof_RDTHeader seg # rest" ..
        with st a b Inr r tr True show ?thesis
          by (subst time_wait_loop.simps) (simp add: s1_def [symmetric] Let_def)
      next
        case False
        with st a b Inr r tr show ?thesis
          by (subst time_wait_loop.simps) (simp add: s1_def [symmetric] Let_def)
      qed
    qed
  qed
qed

lemma close_handshake_loop_grows:
  "\<exists>rest. sends_of (trace (snd (close_handshake_loop seg s))) = sends_of (trace s) @ rest"
proof (induction seg s rule: close_handshake_loop.induct)
  case (1 seg s)
  obtain r1 s1 where rs: "reliable_send (take sizeof_RDTHeader seg) s = (r1, s1)" by force
  from reliable_send_frame [of s "take sizeof_RDTHeader seg", unfolded rs snd_conv]
  obtain n where n: "sends_of (trace s1)
                      = sends_of (trace s) @ replicate n (take sizeof_RDTHeader seg)"
    by blast
  show ?case
  proof (cases r1)
    case (Inl e)
    with rs n show ?thesis by (subst close_handshake_loop.simps) simp
  next
    case (Inr buf)
    show ?thesis
    proof (cases "h_type (hdr_of buf) = RDT_ACK \<or> h_type (hdr_of buf) = RDT_CLOSE")
      case True
      with rs n Inr show ?thesis by (subst close_handshake_loop.simps) auto
    next
      case False
      with 1 [OF rs [unfolded Inr, symmetric] refl] obtain rest where
        "sends_of (trace (snd (close_handshake_loop seg s1))) = sends_of (trace s1) @ rest"
        by blast
      with rs n Inr False show ?thesis by (subst close_handshake_loop.simps) auto
    qed
  qed
qed

lemma close_handshake_loop_sends:
  assumes "\<not> rejects_timeout s (word_of_int (estimated_rtt s + 4 * dev_rtt s))"
  shows "\<exists>rest. sends_of (trace (snd (close_handshake_loop seg s)))
           = sends_of (trace s) @ take sizeof_RDTHeader seg # rest"
proof -
  obtain r1 s1 where rs: "reliable_send (take sizeof_RDTHeader seg) s = (r1, s1)" by force
  from reliable_send_frame [of s "take sizeof_RDTHeader seg", unfolded rs snd_conv] assms
  obtain n where n: "sends_of (trace s1)
                      = sends_of (trace s) @ replicate (Suc n) (take sizeof_RDTHeader seg)"
    by blast
  from close_handshake_loop_grows [of seg s1] obtain rest where
    g: "sends_of (trace (snd (close_handshake_loop seg s1))) = sends_of (trace s1) @ rest" ..
  show ?thesis
  proof (cases r1)
    case (Inl e)
    with rs n show ?thesis by (subst close_handshake_loop.simps) simp
  next
    case (Inr buf)
    with rs n g show ?thesis by (subst close_handshake_loop.simps) auto
  qed
qed

lemma send_close_connection_sends:
  assumes "\<not> rejects_timeout s (word_of_int (estimated_rtt s + 4 * dev_rtt s))"
  shows "\<exists>rest. sends_of (trace (snd (send_close_connection s)))
           = sends_of (trace s)
             @ hdr_bytes \<lparr>h_sequence_number = htonl 0, h_ack_number = htonl 0,
                          h_type = RDT_CLOSE\<rparr> # rest"
proof -
  let ?c = "hdr_bytes \<lparr>h_sequence_number = htonl 0, h_ack_number = htonl 0, h_type = RDT_CLOSE\<rparr>"
  let ?a = "hdr_bytes \<lparr>h_sequence_number = htonl 0, h_ack_number = htonl 0, h_type = RDT_ACK\<rparr>"
  obtain r1 s1 where l1: "close_handshake_loop ?c s = (r1, s1)" by force
  from close_handshake_loop_sends [OF assms, of ?c, unfolded l1 snd_conv take_hdr_bytes]
  obtain rest1 where a: "sends_of (trace s1) = sends_of (trace s) @ ?c # rest1" ..
  obtain r2 s2 where l2: "await_close_loop s1 = (r2, s2)" by force
  from await_close_loop_sends [of s1, unfolded l2 snd_conv]
  have b: "sends_of (trace s2) = sends_of (trace s1)" .
  from time_wait_loop_sends [of ?a s2] obtain rest3 where
    c: "sends_of (trace (snd (time_wait_loop ?a s2))) = sends_of (trace s2) @ take sizeof_RDTHeader ?a # rest3" ..
  show ?thesis
    using l1 l2 a b c
    by (cases r1; cases r2) (simp_all add: send_close_connection_def)
qed

lemma close_connection_sends:
  assumes "state s \<noteq> FIN"
    and "\<not> rejects_timeout s (word_of_int (estimated_rtt s + 4 * dev_rtt s))"
  shows "\<exists>rest. sends_of (trace (snd (close_connection s)))
           = sends_of (trace s)
             @ hdr_bytes \<lparr>h_sequence_number = htonl 0, h_ack_number = htonl 0,
                          h_type = RDT_CLOSE\<rparr> # rest"
proof -
  obtain r1 s1 where l: "send_close_connection s = (r1, s1)" by force
  from send_close_connection_sends [OF assms(2), unfolded l snd_conv]
  show ?thesis
    using assms(1) l
    by (cases r1) (auto simp: close_connection_def Let_def)
qed


text \<open>
  Four of the five public operations test the state first and, in a state that is not
  theirs, pass nothing to \<^verbatim>\<open>send\<close>:
  \<^item> \<^verbatim>\<open>send_data\<close> and \<^verbatim>\<open>connect_to_remote\<close> return with nothing changed;
  \<^item> \<^verbatim>\<open>receive_data\<close> has already set the receive timeout to 0 (and exits if that
    fails); it reads nothing and returns 0 bytes;
  \<^item> \<^verbatim>\<open>accept_connection\<close> exits with nothing changed.

  \<^verbatim>\<open>close_connection\<close> has no such test.  The state only selects the side of the
  teardown: in every state other than \<^verbatim>\<open>FIN\<close>, once the first timeout is set, the
  next segment passed to \<^verbatim>\<open>send\<close> is a \<^verbatim>\<open>CLOSE\<close> header.
\<close>

lemma state_guards:
  "(state s \<noteq> ESTABLISHED \<longrightarrow> send_data data s = (Inr (), s))
   \<and> (state s \<noteq> ESTABLISHED \<longrightarrow>
        fst (receive_data s) = (if rejects_timeout s 0 then Inl EXIT_FAILURE else Inr (0, []))
      \<and> sends_of (trace (snd (receive_data s))) = sends_of (trace s)
      \<and> inbox (snd (receive_data s)) = inbox s
      \<and> state (snd (receive_data s)) = state s)
   \<and> (state s \<noteq> INIT \<longrightarrow> connect_to_remote s = (Inr (), s))
   \<and> (state s \<noteq> INIT \<longrightarrow> accept_connection s = (Inl EXIT_FAILURE, s))
   \<and> (state s \<noteq> FIN
        \<and> \<not> rejects_timeout s (word_of_int (estimated_rtt s + 4 * dev_rtt s)) \<longrightarrow>
        (\<exists>rest. sends_of (trace (snd (close_connection s)))
                = sends_of (trace s)
                  @ hdr_bytes \<lparr>h_sequence_number = htonl 0, h_ack_number = htonl 0,
                               h_type = RDT_CLOSE\<rparr> # rest))"
proof -
  have "state s \<noteq> ESTABLISHED \<Longrightarrow> send_data data s = (Inr (), s)"
    by (simp add: send_data_def)
  moreover have "state s \<noteq> ESTABLISHED \<Longrightarrow>
        fst (receive_data s) = (if rejects_timeout s 0 then Inl EXIT_FAILURE else Inr (0, []))
      \<and> sends_of (trace (snd (receive_data s))) = sends_of (trace s)
      \<and> inbox (snd (receive_data s)) = inbox s
      \<and> state (snd (receive_data s)) = state s"
    by (simp add: receive_data_def set_timeout_length_def perror_def)
  moreover have "state s \<noteq> INIT \<Longrightarrow> connect_to_remote s = (Inr (), s)"
    by (simp add: connect_to_remote_def)
  moreover have "state s \<noteq> INIT \<Longrightarrow> accept_connection s = (Inl EXIT_FAILURE, s)"
    by (simp add: accept_connection_def)
  ultimately show ?thesis
    using close_connection_sends [of s] by blast
qed

text \<open>
  A socket that was constructed and never connected, on a system that refuses negative
  timeouts.  It has no peer: every \<^verbatim>\<open>send\<close> fails with \<^verbatim>\<open>EDESTADDRREQ\<close> (89), and the
  receives time out; two of them have.
\<close>

definition unconnected :: ReliableSocket where
  "unconnected =
     opened\<lparr>send_outcome := (\<lambda>n. 89), inbox := [Recv_errno EAGAIN, Recv_errno EAGAIN]\<rparr>"

lemma unconnected_fields:
  "inbox unconnected = replicate 2 (Recv_errno EAGAIN)"
  "\<forall>i\<le>2. \<not> rejects_timeout unconnected (2 ^ i * 140)"
  "140 = word_of_int (estimated_rtt unconnected + 4 * dev_rtt unconnected)"
  "state unconnected = INIT" "trace unconnected = []" "send_outcome unconnected n = 89"
proof -
  have "\<not> refuses_negative (2 ^ i * 140)" if "i \<le> 2" for i
    using that by (intro doubling_140_accepted) simp
  then show "\<forall>i\<le>2. \<not> rejects_timeout unconnected (2 ^ i * 140)"
    by (simp add: unconnected_def opened_fields)
qed (simp_all add: unconnected_def opened_fields numeral_2_eq_2)

lemma close_connection_unconnected:
  "close_connection unconnected =
     (Inl Starved,
      send_checked ''reliable_send send''
        (hdr_bytes \<lparr>h_sequence_number = htonl 0, h_ack_number = htonl 0, h_type = RDT_CLOSE\<rparr>)
        (snd (current_msec
           (before_reply
              (hdr_bytes \<lparr>h_sequence_number = htonl 0, h_ack_number = htonl 0,
                          h_type = RDT_CLOSE\<rparr>) 140 2 unconnected))))"
proof -
  let ?c = "hdr_bytes \<lparr>h_sequence_number = htonl 0, h_ack_number = htonl 0, h_type = RDT_CLOSE\<rparr>"
  note rs = reliable_send_starved [OF unconnected_fields(1,2,3), of ?c]
  have "close_handshake_loop ?c unconnected =
      (Inl Starved,
       send_checked ''reliable_send send'' ?c
         (snd (current_msec (before_reply ?c 140 2 unconnected))))"
    by (subst close_handshake_loop.simps) (simp only: take_hdr_bytes rs prod.case sum.case)
  then show ?thesis
    by (simp add: close_connection_def send_close_connection_def unconnected_fields(4))
qed

text \<open>
  C9 holds of \<^verbatim>\<open>send_data\<close>, \<^verbatim>\<open>receive_data\<close>, \<^verbatim>\<open>connect_to_remote\<close> and
  \<^verbatim>\<open>accept_connection\<close> (\<open>state_guards\<close>), and fails for \<^verbatim>\<open>close_connection\<close>, which does
  not test the state as they do.  On the socket that never connected the call is not
  turned away: it sets the timeout, passes a \<^verbatim>\<open>CLOSE\<close> header to \<^verbatim>\<open>send\<close>, reports the
  failure, waits for a reply, and after each timeout doubles the timeout and does the
  same again.  After two timeouts it has called \<^verbatim>\<open>send\<close> three times and is waiting
  in \<^verbatim>\<open>recv\<close>.
\<close>

theorem close_connection_not_guarded:
  "state unconnected = INIT
   \<and> inbox unconnected = [Recv_errno EAGAIN, Recv_errno EAGAIN]
   \<and> fst (close_connection unconnected) = Inl Starved
   \<and> state (snd (close_connection unconnected)) = INIT
   \<and> sends_of (trace (snd (close_connection unconnected)))
       = [hdr_bytes \<lparr>h_sequence_number = htonl 0, h_ack_number = htonl 0, h_type = RDT_CLOSE\<rparr>,
          hdr_bytes \<lparr>h_sequence_number = htonl 0, h_ack_number = htonl 0, h_type = RDT_CLOSE\<rparr>,
          hdr_bytes \<lparr>h_sequence_number = htonl 0, h_ack_number = htonl 0, h_type = RDT_CLOSE\<rparr>]
   \<and> perrors_of (trace (snd (close_connection unconnected)))
       = [''reliable_send send'', ''reliable_send send'', ''reliable_send send'']
   \<and> timeouts_of (trace (snd (close_connection unconnected))) = [140, 280, 560]"
proof -
  have i: "inbox unconnected = [Recv_errno EAGAIN, Recv_errno EAGAIN]"
    by (simp add: unconnected_def)
  show ?thesis
    unfolding close_connection_unconnected fst_conv snd_conv
    by (simp add: i sends_before_reply perrors_before_reply timeouts_before_reply
                  unconnected_fields(4,5,6) numeral_2_eq_2)
qed

end
